(* ===== verification/Lluma_Prelude.thy ===== *)
theory Lluma_Prelude
  imports Main "HOL-Library.Word" "HOL-Library.List_Lexorder"
begin

text \<open>
  The prelude of the development: machine integers at the widths the Rust
  sources use, the saturating operations of the Rust standard library,
  little-endian byte encodings, string trimming, ordered finite tables (the contents of a
  database table), and the generic lemmas the components share.
\<close>

unbundle bit_operations_syntax

named_theorems table_simps \<open>lookup and iteration laws of ordered tables\<close>
named_theorems sat_simps \<open>saturating arithmetic read as natural numbers\<close>

type_synonym u8 = "8 word"
type_synonym u16 = "16 word"
type_synonym u32 = "32 word"
type_synonym u64 = "64 word"
type_synonym bytes = "u8 list"

section \<open>Saturating arithmetic\<close>

text \<open>
  \<open>saturating_add\<close>, \<open>saturating_sub\<close>, \<open>saturating_mul\<close> and
  \<open>abs_diff\<close> of the Rust integer types, at any width.
\<close>

definition sat_add :: "'a::len word \<Rightarrow> 'a word \<Rightarrow> 'a word" where
  "sat_add a b = (if unat a + unat b < 2 ^ LENGTH('a) then a + b else - 1)"

definition sat_sub :: "'a::len word \<Rightarrow> 'a word \<Rightarrow> 'a word" where
  "sat_sub a b = (if b \<le> a then a - b else 0)"

definition sat_mul :: "'a::len word \<Rightarrow> 'a word \<Rightarrow> 'a word" where
  "sat_mul a b = (if unat a * unat b < 2 ^ LENGTH('a) then a * b else - 1)"

definition abs_diff :: "'a::len word \<Rightarrow> 'a word \<Rightarrow> 'a word" where
  "abs_diff a b = (if a < b then b - a else a - b)"

lemma unat_bound: "unat a \<le> 2 ^ LENGTH('a) - 1" for a :: "'a::len word"
proof -
  have "unat a < 2 ^ LENGTH('a)" by (rule unsigned_less)
  then show ?thesis by linarith
qed

lemma unat_max_word: "unat (- 1 :: 'a::len word) = 2 ^ LENGTH('a) - 1"
  by (simp add: unsigned_minus_1_eq_mask mask_eq_exp_minus_1)

lemma unat_sat_add [sat_simps]:
  "unat (sat_add a b) = min (unat a + unat b) (2 ^ LENGTH('a) - 1)"
  for a b :: "'a::len word"
proof (cases "unat a + unat b < 2 ^ LENGTH('a)")
  case True
  then have "unat (a + b) = unat a + unat b"
    by (simp add: unat_word_ariths)
  with True show ?thesis by (simp add: sat_add_def)
next
  case False
  then show ?thesis by (simp add: sat_add_def unat_max_word)
qed

lemma unat_sat_sub [sat_simps]: "unat (sat_sub a b) = unat a - unat b"
  by (auto simp: sat_sub_def unat_sub word_le_nat_alt)

lemma unat_sat_mul [sat_simps]:
  "unat (sat_mul a b) = min (unat a * unat b) (2 ^ LENGTH('a) - 1)"
  for a b :: "'a::len word"
proof (cases "unat a * unat b < 2 ^ LENGTH('a)")
  case True
  then have "unat (a * b) = unat a * unat b"
    by (simp add: unat_word_ariths)
  with True show ?thesis by (simp add: sat_mul_def)
next
  case False
  then show ?thesis by (simp add: sat_mul_def unat_max_word)
qed

lemma unat_abs_diff [sat_simps]:
  "unat (abs_diff a b) = (unat a - unat b) + (unat b - unat a)"
  by (auto simp: abs_diff_def unat_sub word_less_nat_alt word_le_nat_alt not_less)

lemma sat_add_zero [simp]: "sat_add a 0 = a"
  by (rule word_unat_eq_iff [THEN iffD2]) (use unat_bound [of a] in \<open>simp add: sat_simps\<close>)

lemma unat_sat_add_le: "unat (sat_add a b) \<le> unat a + unat b"
  by (simp add: sat_simps)

lemma sat_add_mono: "a \<le> sat_add a b"
  using unat_bound [of a] by (simp add: word_le_nat_alt sat_simps)

lemma sat_add_le_exact:
  fixes a b c :: "'a::len word"
  assumes "sat_add a b \<le> c" and "c \<noteq> - 1"
  shows "unat (sat_add a b) = unat a + unat b"
proof (rule ccontr)
  assume "unat (sat_add a b) \<noteq> unat a + unat b"
  then have "unat (sat_add a b) = 2 ^ LENGTH('a) - 1"
    by (auto simp: sat_simps min_def split: if_splits)
  with assms(1) have "unat c = unat (- 1 :: 'a word)"
    using unat_bound [of c] by (simp add: word_le_nat_alt unat_max_word)
  with assms(2) show False by (simp add: word_unat_eq_iff)
qed

lemma unat_sub_le: "b \<le> a \<Longrightarrow> unat (a - b) = unat a - unat b"
  by (simp add: unat_sub)

lemma sat_add_sub: "n \<le> x \<Longrightarrow> sat_add (x - n) n = x"
  using unat_bound [of x] by (simp add: word_unat_eq_iff sat_simps unat_sub_le word_le_nat_alt)

section \<open>Little-endian encodings\<close>

text \<open>\<open>to_le_bytes\<close> and \<open>from_le_bytes\<close>, with the width as a byte count.\<close>

definition to_le_bytes :: "nat \<Rightarrow> 'a::len word \<Rightarrow> bytes" where
  "to_le_bytes k w = map (\<lambda>i. ucast (drop_bit (8 * i) w)) [0..<k]"

fun from_le_bytes :: "bytes \<Rightarrow> 'a::len word" where
  "from_le_bytes [] = 0"
| "from_le_bytes (b # bs) = ucast b OR push_bit 8 (from_le_bytes bs)"

lemma length_to_le_bytes [simp]: "length (to_le_bytes k w) = k"
  by (simp add: to_le_bytes_def)

lemma to_le_bytes_Suc: "to_le_bytes (Suc k) w = ucast w # to_le_bytes k (drop_bit 8 w)"
proof -
  have "[0..<Suc k] = 0 # map Suc [0..<k]"
    by (simp only: upt_conv_Cons zero_less_Suc map_Suc_upt)
  then show ?thesis by (simp add: to_le_bytes_def add.commute del: upt_Suc)
qed

lemma from_to_le_bytes_take_bit:
  "from_le_bytes (to_le_bytes k w) = take_bit (8 * k) (w :: 'a::len word)"
proof (induction k arbitrary: w)
  case 0
  then show ?case by (simp add: to_le_bytes_def)
next
  case (Suc k)
  show ?case
    by (simp only: to_le_bytes_Suc from_le_bytes.simps Suc.IH)
      (rule bit_word_eqI, auto simp: bit_simps)
qed

lemma from_to_le_bytes:
  fixes w :: "'a::len word"
  assumes "LENGTH('a) \<le> 8 * k"
  shows "from_le_bytes (to_le_bytes k w) = w"
  unfolding from_to_le_bytes_take_bit
  by (rule bit_word_eqI) (use assms in \<open>auto simp: bit_simps\<close>)

section \<open>Strings\<close>

definition is_space :: "char \<Rightarrow> bool" where
  "is_space c \<longleftrightarrow> c = CHR '' '' \<or> 9 \<le> (of_char c :: nat) \<and> (of_char c :: nat) \<le> 13"

text \<open>\<open>str::trim\<close> on ASCII white space.\<close>

definition trim :: "string \<Rightarrow> string" where
  "trim s = rev (dropWhile is_space (rev (dropWhile is_space s)))"

lemma trim_plain: "list_all (\<lambda>c. \<not> is_space c) s \<Longrightarrow> trim s = s"
proof -
  have "dropWhile is_space s = s" if "list_all (\<lambda>c. \<not> is_space c) s" for s
    using that by (cases s) auto
  then show "list_all (\<lambda>c. \<not> is_space c) s \<Longrightarrow> trim s = s" by (simp add: trim_def)
qed

text \<open>\<open>str::parse\<close> for unsigned integers: an optional plus sign, decimal digits, within the width.\<close>

definition is_decimal :: "char \<Rightarrow> bool" where
  "is_decimal c \<longleftrightarrow> 48 \<le> (of_char c :: nat) \<and> (of_char c :: nat) \<le> 57"

definition parse_uint :: "nat \<Rightarrow> string \<Rightarrow> nat option" where
  "parse_uint width s =
     (let ds = (case s of CHR ''+'' # t \<Rightarrow> t | _ \<Rightarrow> s) in
      if ds = [] \<or> \<not> list_all is_decimal ds then None
      else let v = foldl (\<lambda>acc c. acc * 10 + (of_char c - 48)) 0 ds in
           if v < 2 ^ width then Some v else None)"

text \<open>\<open>Display\<close> for unsigned integers.\<close>

fun show_dec :: "nat \<Rightarrow> string" where
  "show_dec n = (if n < 10 then [char_of (48 + n)] else show_dec (n div 10) @ [char_of (48 + n mod 10)])"

declare show_dec.simps [simp del]

lemma of_char_digit: "n < 10 \<Longrightarrow> (of_char (char_of (48 + n) :: char) :: nat) = 48 + n"
  by (simp add: of_char_of)

lemma is_decimal_digit: "n < 10 \<Longrightarrow> is_decimal (char_of (48 + n :: nat))"
  using of_char_digit [of n] by (simp add: is_decimal_def)

lemma show_dec_decimal: "show_dec n \<noteq> [] \<and> list_all is_decimal (show_dec n)"
proof (induction n rule: show_dec.induct)
  case (1 n)
  then show ?case
    using is_decimal_digit [of n] is_decimal_digit [of "n mod 10"] by (subst (1 2) show_dec.simps) simp
qed

lemma show_dec_value: "foldl (\<lambda>acc c. acc * 10 + (of_char c - 48)) 0 (show_dec n) = n"
proof (induction n rule: show_dec.induct)
  case (1 n)
  then show ?case
    using of_char_digit [of n] of_char_digit [of "n mod 10"] by (subst show_dec.simps) (simp add: div_mult_mod_eq)
qed

lemma parse_show_dec: "n < 2 ^ width \<Longrightarrow> parse_uint width (show_dec n) = Some n"
proof -
  assume n: "n < 2 ^ width"
  obtain c t where s: "show_dec n = c # t" using show_dec_decimal [of n] by (cases "show_dec n") auto
  then have "is_decimal c" using show_dec_decimal [of n] by simp
  then have "c \<noteq> CHR ''+''" by (auto simp: is_decimal_def)
  then have "(case show_dec n of CHR ''+'' # t \<Rightarrow> t | _ \<Rightarrow> show_dec n) = show_dec n"
    unfolding s by (simp split: char.split bool.split)
  then show ?thesis
    using show_dec_decimal [of n] show_dec_value [of n] n by (simp add: parse_uint_def Let_def)
qed

section \<open>Ordered tables\<close>

text \<open>
  The contents of a database table: finitely many rows, one per key, iterated
  in ascending key order. Byte-string keys compare lexicographically, which is
  the list order of \<open>List_Lexorder\<close>.
\<close>

fun ins_row :: "'k::linorder \<Rightarrow> 'v \<Rightarrow> ('k \<times> 'v) list \<Rightarrow> ('k \<times> 'v) list" where
  "ins_row k v [] = [(k, v)]"
| "ins_row k v ((k', v') # rows) =
     (if k < k' then (k, v) # (k', v') # rows
      else if k = k' then (k, v) # rows
      else (k', v') # ins_row k v rows)"

lemma keys_ins_row: "set (map fst (ins_row k v rows)) = insert k (set (map fst rows))"
  by (induction k v rows rule: ins_row.induct) auto

lemma sorted_ins_row:
  "sorted_wrt (<) (map fst rows) \<Longrightarrow> sorted_wrt (<) (map fst (ins_row k v rows))"
proof (induction k v rows rule: ins_row.induct)
  case (2 k v k' v' rows)
  then show ?case
    using keys_ins_row [of k v rows] by (auto simp del: keys_ins_row)
qed simp

lemma map_of_ins_row:
  "sorted_wrt (<) (map fst rows) \<Longrightarrow> map_of (ins_row k v rows) = (map_of rows)(k \<mapsto> v)"
proof (induction k v rows rule: ins_row.induct)
  case (2 k v k' v' rows)
  then show ?case by (auto simp: fun_eq_iff)
qed simp

typedef (overloaded) ('k::linorder, 'v) otable =
  "{rows :: ('k \<times> 'v) list. sorted_wrt (<) (map fst rows)}"
  morphisms tbl_iter Abs_otable
  by (rule exI [of _ "[]"]) simp

setup_lifting type_definition_otable

lift_definition tbl_empty :: "('k::linorder, 'v) otable" is "[]" by simp

lift_definition tbl_get :: "('k::linorder, 'v) otable \<Rightarrow> 'k \<Rightarrow> 'v option" is map_of .

lift_definition tbl_insert :: "'k::linorder \<Rightarrow> 'v \<Rightarrow> ('k, 'v) otable \<Rightarrow> ('k, 'v) otable" is ins_row
  by (rule sorted_ins_row)

lemma tbl_get_empty [simp, table_simps]: "tbl_get tbl_empty k = None"
  by transfer simp

lemma tbl_get_insert [simp, table_simps]:
  "tbl_get (tbl_insert k v t) k' = (if k' = k then Some v else tbl_get t k')"
  by transfer (simp add: map_of_ins_row)

lemma tbl_iter_empty [simp, table_simps]: "tbl_iter tbl_empty = []"
  by (rule tbl_empty.rep_eq)

lemma tbl_iter_insert [simp, table_simps]: "tbl_iter (tbl_insert k v t) = ins_row k v (tbl_iter t)"
  by (rule tbl_insert.rep_eq)

lemma tbl_iter_sorted: "sorted_wrt (<) (map fst (tbl_iter t))"
  using tbl_iter [of t] by simp

lemma distinct_keys_iter: "distinct (map fst (tbl_iter t))"
  using tbl_iter_sorted [of t] strict_sorted_iff by blast

lemma tbl_get_iter: "tbl_get t k = Some v \<longleftrightarrow> (k, v) \<in> set (tbl_iter t)"
  by (simp add: tbl_get.rep_eq distinct_keys_iter)

definition tbl_keys :: "('k::linorder, 'v) otable \<Rightarrow> 'k set" where
  "tbl_keys t = {k. tbl_get t k \<noteq> None}"

lemma tbl_keys_iter: "tbl_keys t = fst ` set (tbl_iter t)"
  by (force simp: tbl_keys_def tbl_get_iter)

lemma finite_tbl_keys [simp]: "finite (tbl_keys t)"
  by (simp add: tbl_keys_iter)

lemma tbl_keys_empty [simp]: "tbl_keys tbl_empty = {}"
  by (simp add: tbl_keys_def)

lemma tbl_keys_insert [simp]: "tbl_keys (tbl_insert k v t) = insert k (tbl_keys t)"
  by (auto simp: tbl_keys_def)

lemma in_tbl_keys: "k \<in> tbl_keys t \<longleftrightarrow> tbl_get t k \<noteq> None"
  by (simp add: tbl_keys_def)

text \<open>Sums and counts over the rows, and how one insertion changes them.\<close>

definition tbl_sum :: "('v \<Rightarrow> nat) \<Rightarrow> ('k::linorder, 'v) otable \<Rightarrow> nat" where
  "tbl_sum f t = sum_list (map (f \<circ> snd) (tbl_iter t))"

definition row_val :: "('v \<Rightarrow> nat) \<Rightarrow> 'v option \<Rightarrow> nat" where
  "row_val f r = (case r of None \<Rightarrow> 0 | Some v \<Rightarrow> f v)"

lemma row_val_simps [simp]: "row_val f None = 0" "row_val f (Some v) = f v"
  by (simp_all add: row_val_def)

lemma sum_ins_row:
  "sorted_wrt (<) (map fst rows) \<Longrightarrow>
   sum_list (map (f \<circ> snd) (ins_row k v rows)) + row_val f (map_of rows k)
     = sum_list (map (f \<circ> snd) rows) + f v"
proof (induction k v rows rule: ins_row.induct)
  case (2 k v k' v' rows)
  have "k < k' \<Longrightarrow> map_of rows k = None"
    using 2 by (auto simp: map_of_eq_None_iff)
  with 2 show ?case by auto
qed simp

lemma tbl_sum_empty [simp]: "tbl_sum f tbl_empty = 0"
  by (simp add: tbl_sum_def)

lemma tbl_sum_insert: "tbl_sum f (tbl_insert k v t) + row_val f (tbl_get t k) = tbl_sum f t + f v"
  unfolding tbl_sum_def by transfer (rule sum_ins_row)

lemma tbl_sum_card: "tbl_sum (\<lambda>_. 1) t = card (tbl_keys t)"
proof -
  have "card (set (map fst (tbl_iter t))) = length (tbl_iter t)"
    using distinct_card [OF distinct_keys_iter [of t]] by simp
  then show ?thesis
    by (simp add: tbl_sum_def tbl_keys_iter comp_def sum_list_triv)
qed

lemma tbl_row_le_sum: "row_val f (tbl_get t k) \<le> tbl_sum f t"
proof (cases "tbl_get t k")
  case (Some v)
  then have "f v \<in> set (map (f \<circ> snd) (tbl_iter t))"
    by (force simp: tbl_get_iter)
  then have "f v \<le> tbl_sum f t"
    unfolding tbl_sum_def by (rule member_le_sum_list) simp
  with Some show ?thesis by simp
qed simp

end
