(* ===== verification/Core_Wire.thy ===== *)
theory Core_Wire
  imports Lluma_Prelude
begin

text \<open>
  The shared wire types of \<open>lluma-core\<close>: the byte newtypes and signed bodies
  of \<open>wire.rs\<close> and the JSON request and response types of \<open>proto.rs\<close>
  with their \<open>validate\<close> methods. A newtype over \<open>Vec<u8>\<close> is its byte
  list, a fixed array \<open>[u8; N]\<close> is a byte list too (the length is part of the
  Rust type, and \<open>id32\<close> states it where a lemma needs it), a \<open>String\<close> is
  the list of its UTF-8 bytes as characters. Record fields carry a short prefix
  per struct, since HOL record fields are global names.
\<close>

section \<open>Newtypes\<close>

type_synonym IssuerPublicKey = bytes
type_synonym IssuerSecretKey = bytes
type_synonym BlindedTokenRequest = bytes
type_synonym BlindSignature = bytes
type_synonym BlindingState = bytes
type_synonym Token = bytes
type_synonym OhttpKeyConfig = bytes
type_synonym EncapsulatedRequest = bytes
type_synonym HostPublicKey = bytes
type_synonym HostSecretKey = bytes
type_synonym SessionPublicKey = bytes
type_synonym SessionSecretKey = bytes
type_synonym SealedRequest = bytes
type_synonym ResponsePreamble = bytes
type_synonym AccountPublicKey = bytes
type_synonym AccountSecretKey = bytes
type_synonym ReceiptSignature = bytes
type_synonym IssueSignature = bytes
type_synonym KeystoreBlob = bytes
type_synonym Mnemonic = bytes
type_synonym SpendId = bytes
type_synonym AccountId = bytes
type_synonym ModelId = string

definition id32 :: "bytes \<Rightarrow> bool" where
  "id32 b \<longleftrightarrow> length b = 32"

section \<open>Signed bodies (wire.rs)\<close>

record UsageReceiptBody =
  ur_version :: u8
  ur_host_account :: bytes
  ur_model_id :: ModelId
  ur_tier :: u8
  ur_units :: u32
  ur_spend_id :: bytes
  ur_epoch :: u32
  ur_timestamp_h :: u32

record IssueRequestBody =
  ib_version :: u8
  ib_account :: bytes
  ib_key_id :: bytes
  ib_request_id :: bytes
  ib_ts_unix_s :: u64
  ib_blinded_batch_hash :: bytes

record HostRegisterBody =
  hr_version :: u8
  hr_host_account :: bytes
  hr_hpke_pk :: bytes
  hr_ingress_addr :: string
  hr_models :: "ModelId list"

record HeartbeatBody =
  hb_version :: u8
  hb_host_account :: bytes
  hb_hb_counter :: u64
  hb_load_bucket :: u8
  hb_models :: "ModelId list"

record TrialRegisterBody =
  tr_version :: u8
  tr_account :: bytes

record SnapshotHostEntry =
  se_host_account :: bytes
  se_hpke_pk :: bytes
  se_models :: "ModelId list"
  se_tier_flags :: u8
  se_load_bucket :: u8
  se_freshness_bucket :: u8

record SnapshotHeader =
  sh_epoch :: u64
  sh_issued_at_h :: u32
  sh_issuer_key_id :: bytes

record SnapshotBody =
  sb_header :: SnapshotHeader
  sb_hosts :: "SnapshotHostEntry list"

record BootstrapDoc =
  bd_version :: u8
  bd_relay_url :: string
  bd_gateway_kc :: bytes
  bd_issuer_key_id :: bytes
  bd_issued_at_s :: u64
  bd_tunnel_url :: "string option"
  bd_pow_difficulty :: "u32 option"
  bd_epoch_salt :: "bytes option"

section \<open>Request and response types (proto.rs)\<close>

definition ISSUE_BATCH_MAX :: nat where
  "ISSUE_BATCH_MAX = 64"

definition DENOMINATION :: u64 where
  "DENOMINATION = 1"

definition MAX_SEALED_LEN :: nat where
  "MAX_SEALED_LEN = 2 ^ 20"

datatype ProtoError = WrongLength string | BatchSize

record KeyConfigResponse =
  kc_key_id :: bytes
  kc_issuer_public_key :: IssuerPublicKey
  kc_epoch :: u64
  kc_denomination :: u64

record IssueRequest =
  ireq_body :: IssueRequestBody
  ireq_blinded :: "BlindedTokenRequest list"
  ireq_auth_sig :: IssueSignature

record IssueResponse =
  iresp_key_id :: bytes
  iresp_signatures :: "BlindSignature list"

record RedeemRequest =
  rd_key_id :: bytes
  rd_token :: Token

record RedeemResponse =
  rr_spend_id :: SpendId

record GrantRequest =
  gr_account_id :: AccountId
  gr_amount :: u64

record ExecRequest =
  ex_key_id :: bytes
  ex_host_account :: bytes
  ex_token :: Token
  ex_sealed :: SealedRequest

record ExecResponse =
  er_preamble :: ResponsePreamble
  er_chunk :: bytes

record HostExecRequest =
  he_spend_id :: SpendId
  he_sealed :: SealedRequest

datatype TunnelFrame =
    Hello u8 bytes
  | Challenge u8 bytes
  | Auth u8 bytes
  | AuthOk u8
  | Job u8 u64 SpendId SealedRequest
  | Done u8 u64 ResponsePreamble bytes
  | Fail u8 u64

record HostRegisterRequest =
  hrr_body :: HostRegisterBody
  hrr_sig :: bytes
  hrr_pow_nonce :: bytes

record HeartbeatRequest =
  hbr_body :: HeartbeatBody
  hbr_sig :: bytes

record TrialRegisterRequest =
  trr_body :: TrialRegisterBody
  trr_pow_nonce :: bytes

record ReceiptSubmit =
  rs_body :: UsageReceiptBody
  rs_sig :: bytes

record SnapshotResponse =
  sr_body :: bytes
  sr_sig :: bytes

record SignedBootstrap =
  sbs_doc :: bytes
  sbs_sig :: bytes

section \<open>Validation\<close>

text \<open>Each \<open>validate\<close> method, its checks in the order of the source.\<close>

definition HostExecRequest_validate :: "HostExecRequest \<Rightarrow> ProtoError + unit" where
  "HostExecRequest_validate r =
     (if he_sealed r = [] \<or> length (he_sealed r) > MAX_SEALED_LEN
      then Inl (WrongLength ''sealed'') else Inr ())"

definition ExecRequest_validate :: "ExecRequest \<Rightarrow> ProtoError + unit" where
  "ExecRequest_validate r =
     (if length (ex_token r) \<noteq> 320 then Inl (WrongLength ''token'')
      else if ex_sealed r = [] \<or> length (ex_sealed r) > MAX_SEALED_LEN
      then Inl (WrongLength ''sealed'') else Inr ())"

definition ExecResponse_validate :: "ExecResponse \<Rightarrow> ProtoError + unit" where
  "ExecResponse_validate r =
     (if er_preamble r = [] \<or> length (er_preamble r) > MAX_SEALED_LEN
      then Inl (WrongLength ''preamble'')
      else if er_chunk r = [] \<or> length (er_chunk r) > MAX_SEALED_LEN
      then Inl (WrongLength ''chunk'') else Inr ())"

definition HostRegisterRequest_validate :: "HostRegisterRequest \<Rightarrow> ProtoError + unit" where
  "HostRegisterRequest_validate r =
     (if hr_version (hrr_body r) \<noteq> 1 then Inl (WrongLength ''version'')
      else if length (hrr_sig r) \<noteq> 64 then Inl (WrongLength ''sig'')
      else if length (hrr_pow_nonce r) \<noteq> 8 then Inl (WrongLength ''pow_nonce'')
      else if hr_ingress_addr (hrr_body r) = [] then Inl (WrongLength ''ingress_addr'')
      else if hr_hpke_pk (hrr_body r) = [] then Inl (WrongLength ''hpke_pk'')
      else Inr ())"

definition HeartbeatRequest_validate :: "HeartbeatRequest \<Rightarrow> ProtoError + unit" where
  "HeartbeatRequest_validate r =
     (if hb_version (hbr_body r) \<noteq> 1 then Inl (WrongLength ''version'')
      else if length (hbr_sig r) \<noteq> 64 then Inl (WrongLength ''sig'')
      else Inr ())"

definition TrialRegisterRequest_validate :: "TrialRegisterRequest \<Rightarrow> ProtoError + unit" where
  "TrialRegisterRequest_validate r =
     (if tr_version (trr_body r) \<noteq> 1 then Inl (WrongLength ''version'')
      else if length (trr_pow_nonce r) \<noteq> 8 then Inl (WrongLength ''pow_nonce'')
      else Inr ())"

definition ReceiptSubmit_validate :: "ReceiptSubmit \<Rightarrow> ProtoError + unit" where
  "ReceiptSubmit_validate r =
     (if ur_version (rs_body r) \<noteq> 1 then Inl (WrongLength ''version'')
      else if length (rs_sig r) \<noteq> 64 then Inl (WrongLength ''sig'')
      else Inr ())"

definition SnapshotResponse_validate :: "SnapshotResponse \<Rightarrow> ProtoError + unit" where
  "SnapshotResponse_validate r =
     (if length (sr_sig r) \<noteq> 64 then Inl (WrongLength ''sig'')
      else if length (sr_body r) \<noteq> 65536 then Inl (WrongLength ''body'')
      else Inr ())"

fun check_blinded :: "BlindedTokenRequest list \<Rightarrow> ProtoError + unit" where
  "check_blinded [] = Inr ()"
| "check_blinded (b # bs) =
     (if length b \<noteq> 256 then Inl (WrongLength ''blinded'') else check_blinded bs)"

definition IssueRequest_validate :: "IssueRequest \<Rightarrow> ProtoError + unit" where
  "IssueRequest_validate r =
     (if ib_version (ireq_body r) \<noteq> 1 then Inl (WrongLength ''version'')
      else if ireq_blinded r = [] \<or> length (ireq_blinded r) > ISSUE_BATCH_MAX then Inl BatchSize
      else case check_blinded (ireq_blinded r) of
             Inl e \<Rightarrow> Inl e
           | Inr _ \<Rightarrow>
               if length (ireq_auth_sig r) \<noteq> 64 then Inl (WrongLength ''auth_sig'') else Inr ())"

fun check_signatures :: "BlindSignature list \<Rightarrow> ProtoError + unit" where
  "check_signatures [] = Inr ()"
| "check_signatures (s # ss) =
     (if length s \<noteq> 256 then Inl (WrongLength ''signatures'') else check_signatures ss)"

definition IssueResponse_validate :: "IssueResponse \<Rightarrow> ProtoError + unit" where
  "IssueResponse_validate r = check_signatures (iresp_signatures r)"

definition RedeemRequest_validate :: "RedeemRequest \<Rightarrow> ProtoError + unit" where
  "RedeemRequest_validate r =
     (if length (rd_token r) \<noteq> 320 then Inl (WrongLength ''token'') else Inr ())"

definition is_ok :: "'e + 'a \<Rightarrow> bool" where
  "is_ok r = (case r of Inl _ \<Rightarrow> False | Inr _ \<Rightarrow> True)"

lemma is_ok_simps [simp]: "\<not> is_ok (Inl e)" "is_ok (Inr a)"
  by (simp_all add: is_ok_def)

lemma check_blinded_ok: "is_ok (check_blinded bs) \<longleftrightarrow> (\<forall>b \<in> set bs. length b = 256)"
  by (induction bs) auto

lemma check_signatures_ok: "is_ok (check_signatures ss) \<longleftrightarrow> (\<forall>s \<in> set ss. length s = 256)"
  by (induction ss) auto

lemma issue_validate_ok:
  "is_ok (IssueRequest_validate r) \<longleftrightarrow>
     ib_version (ireq_body r) = 1 \<and> 1 \<le> length (ireq_blinded r) \<and> length (ireq_blinded r) \<le> 64
     \<and> (\<forall>b \<in> set (ireq_blinded r). length b = 256) \<and> length (ireq_auth_sig r) = 64"
  using check_blinded_ok [of "ireq_blinded r"]
  by (cases "check_blinded (ireq_blinded r)"; cases "ireq_blinded r")
    (auto simp: IssueRequest_validate_def ISSUE_BATCH_MAX_def)

end
