(* ===== verification/Issuer_State.thy ===== *)
theory Issuer_State
  imports Core_Wire
begin

text \<open>
  The state behind the issuer service: \<open>lluma-issuer/src/error.rs\<close>,
  \<open>ledger.rs\<close>, \<open>spent_set.rs\<close> and \<open>idem.rs\<close>. The two traits
  \<open>CreditLedger\<close> and \<open>SpentSet\<close> are the locales \<open>credit_ledger\<close> and
  \<open>spent_set\<close>: what every implementation promises, and what follows for
  any sequence of calls. They are interpreted here on the in-memory
  implementations and, in the broker's theories, on the durable ones. Each
  critical section under a mutex is one function on the guarded value.
\<close>

section \<open>Errors\<close>

datatype IssuerError =
    InsufficientCredits
  | Unauthorized
  | TokenInvalid
  | DoubleSpend
  | RequestIdConflict
  | BadRequest
  | Internal
  | Concurrent

fun IssuerError_code :: "IssuerError \<Rightarrow> string" where
  "IssuerError_code InsufficientCredits = ''insufficient_credits''"
| "IssuerError_code Unauthorized = ''unauthorized''"
| "IssuerError_code TokenInvalid = ''token_invalid''"
| "IssuerError_code DoubleSpend = ''double_spend''"
| "IssuerError_code RequestIdConflict = ''request_id_conflict''"
| "IssuerError_code BadRequest = ''bad_request''"
| "IssuerError_code Internal = ''internal''"
| "IssuerError_code Concurrent = ''concurrent_request''"

fun IssuerError_status :: "IssuerError \<Rightarrow> u16" where
  "IssuerError_status InsufficientCredits = 402"
| "IssuerError_status Unauthorized = 403"
| "IssuerError_status TokenInvalid = 422"
| "IssuerError_status DoubleSpend = 409"
| "IssuerError_status RequestIdConflict = 409"
| "IssuerError_status BadRequest = 422"
| "IssuerError_status Internal = 500"
| "IssuerError_status Concurrent = 503"

section \<open>The credit ledger\<close>

type_synonym InMemoryLedger = "AccountId \<rightharpoonup> u64"

definition mem_entry :: "InMemoryLedger \<Rightarrow> AccountId \<Rightarrow> u64" where
  "mem_entry l account = (case l account of None \<Rightarrow> 0 | Some b \<Rightarrow> b)"

definition mem_balance :: "InMemoryLedger \<Rightarrow> AccountId \<Rightarrow> u64" where
  "mem_balance l account = mem_entry l account"

definition mem_grant :: "AccountId \<Rightarrow> u64 \<Rightarrow> InMemoryLedger \<Rightarrow> InMemoryLedger" where
  "mem_grant account amount l = l(account \<mapsto> sat_add (mem_entry l account) amount)"

definition mem_debit ::
  "AccountId \<Rightarrow> u64 \<Rightarrow> InMemoryLedger \<Rightarrow> (IssuerError + unit) \<times> InMemoryLedger" where
  "mem_debit account amount l =
     (let entry = mem_entry l account in
      if amount \<le> entry then (Inr (), l(account \<mapsto> entry - amount))
      else (Inl InsufficientCredits, l(account \<mapsto> entry)))"

section \<open>The spent set\<close>

datatype InsertOutcome = Inserted | AlreadySpent

type_synonym InMemorySpentSet = "SpendId set"

definition mem_spent_insert :: "SpendId \<Rightarrow> InMemorySpentSet \<Rightarrow> InsertOutcome \<times> InMemorySpentSet" where
  "mem_spent_insert i s = (if i \<in> s then (AlreadySpent, s) else (Inserted, insert i s))"

section \<open>The idempotency cache\<close>

datatype BeginOutcome = Reserved | Replay IssueResponse | Conflict | InFlight

datatype Entry = Pending bytes | Done bytes IssueResponse

type_synonym IssueIdempotencyCache = "(AccountId \<times> bytes) \<rightharpoonup> Entry"

definition idem_new :: IssueIdempotencyCache where
  "idem_new = Map.empty"

definition idem_begin ::
  "AccountId \<Rightarrow> bytes \<Rightarrow> bytes \<Rightarrow> IssueIdempotencyCache \<Rightarrow> BeginOutcome \<times> IssueIdempotencyCache" where
  "idem_begin account request_id batch_hash c =
     (case c (account, request_id) of
        None \<Rightarrow> (Reserved, c((account, request_id) \<mapsto> Pending batch_hash))
      | Some (Pending h) \<Rightarrow> (if h = batch_hash then InFlight else Conflict, c)
      | Some (Done h resp) \<Rightarrow> (if h = batch_hash then Replay resp else Conflict, c))"

definition idem_store ::
  "AccountId \<Rightarrow> bytes \<Rightarrow> bytes \<Rightarrow> IssueResponse \<Rightarrow> IssueIdempotencyCache \<Rightarrow> IssueIdempotencyCache" where
  "idem_store account request_id batch_hash resp c = c((account, request_id) \<mapsto> Done batch_hash resp)"

definition idem_release :: "AccountId \<Rightarrow> bytes \<Rightarrow> IssueIdempotencyCache \<Rightarrow> IssueIdempotencyCache" where
  "idem_release account request_id c = c((account, request_id) := None)"

section \<open>The ledger contract\<close>

text \<open>
  A sequence of ledger calls, each with the faults \<open>'f\<close> it meets, run on a
  world \<open>'w\<close>; the answers to the debits are collected in order.
\<close>

datatype 'f ledger_op = OpGrant 'f AccountId u64 | OpDebit 'f AccountId u64

fun ledger_run ::
  "('f \<Rightarrow> AccountId \<Rightarrow> u64 \<Rightarrow> 'w \<Rightarrow> 'w) \<Rightarrow>
   ('f \<Rightarrow> AccountId \<Rightarrow> u64 \<Rightarrow> 'w \<Rightarrow> (IssuerError + unit) \<times> 'w) \<Rightarrow>
   'f ledger_op list \<Rightarrow> 'w \<Rightarrow> bool list \<times> 'w" where
  "ledger_run g d [] w = ([], w)"
| "ledger_run g d (OpGrant f a n # ops) w = ledger_run g d ops (g f a n w)"
| "ledger_run g d (OpDebit f a n # ops) w =
     (let (r, w') = d f a n w; (rs, w'') = ledger_run g d ops w' in (is_ok r # rs, w''))"

text \<open>What a run grants to, and successfully takes from, one account.\<close>

fun granted_to :: "AccountId \<Rightarrow> 'f ledger_op list \<Rightarrow> nat" where
  "granted_to a [] = 0"
| "granted_to a (OpGrant f b n # ops) = (if a = b then unat n else 0) + granted_to a ops"
| "granted_to a (OpDebit f b n # ops) = granted_to a ops"

fun taken_from :: "AccountId \<Rightarrow> 'f ledger_op list \<Rightarrow> bool list \<Rightarrow> nat" where
  "taken_from a (OpGrant f b n # ops) rs = taken_from a ops rs"
| "taken_from a (OpDebit f b n # ops) (r # rs) =
     (if a = b \<and> r then unat n else 0) + taken_from a ops rs"
| "taken_from a _ _ = 0"

locale credit_ledger =
  fixes bal :: "'w \<Rightarrow> AccountId \<Rightarrow> u64"
    and grant :: "'f \<Rightarrow> AccountId \<Rightarrow> u64 \<Rightarrow> 'w \<Rightarrow> 'w"
    and debit :: "'f \<Rightarrow> AccountId \<Rightarrow> u64 \<Rightarrow> 'w \<Rightarrow> (IssuerError + unit) \<times> 'w"
  assumes grant_self: "bal (grant f a n w) a = sat_add (bal w a) n \<or> bal (grant f a n w) a = bal w a"
    and grant_other: "b \<noteq> a \<Longrightarrow> bal (grant f a n w) b = bal w b"
    and debit_ok: "debit f a n w = (Inr u, w') \<Longrightarrow> n \<le> bal w a \<and> bal w' a = bal w a - n"
    and debit_err: "debit f a n w = (Inl e, w') \<Longrightarrow> e = InsufficientCredits \<and> bal w' a = bal w a"
    and debit_other: "b \<noteq> a \<Longrightarrow> bal (snd (debit f a n w)) b = bal w b"
begin

lemma grant_le: "unat (bal (grant f a n w) b) \<le> unat (bal w b) + (if b = a then unat n else 0)"
  using grant_self [of f a n w] grant_other [of b a f n w] unat_sat_add_le [of "bal w b" n]
  by (cases "b = a") auto

lemma debit_exact:
  assumes "debit f a n w = (r, w')"
  shows "unat (bal w' b) + (if b = a \<and> is_ok r then unat n else 0) = unat (bal w b)"
proof (cases "b = a")
  case True
  then show ?thesis
    using assms debit_ok [of f a n w _ w'] debit_err [of f a n w _ w']
    by (cases r) (auto simp: unat_sub_le word_le_nat_alt)
next
  case False
  then show ?thesis using assms debit_other [of b a f n w] by simp
qed

lemma run_never_overspends:
  "ledger_run grant debit ops w = (rs, w') \<Longrightarrow>
     unat (bal w' a) + taken_from a ops rs \<le> unat (bal w a) + granted_to a ops"
proof (induction ops arbitrary: w rs w')
  case (Cons op ops)
  show ?case
  proof (cases op)
    case (OpGrant f b n)
    then show ?thesis
      using Cons.prems Cons.IH [of "grant f b n w" rs w'] grant_le [of f b n w a] by auto
  next
    case (OpDebit f b n)
    obtain r w1 where d: "debit f b n w = (r, w1)" by fastforce
    obtain rs' where rs: "rs = is_ok r # rs'" and run: "ledger_run grant debit ops w1 = (rs', w')"
      using Cons.prems OpDebit d by (auto split: prod.splits)
    show ?thesis
      using Cons.IH [OF run] debit_exact [OF d, of a] OpDebit rs by auto
  qed
qed simp

end

text \<open>An implementation that meets no fault also never refuses a covered debit.\<close>

locale reliable_ledger = credit_ledger bal grant debit
  for bal :: "'w \<Rightarrow> AccountId \<Rightarrow> u64"
    and grant :: "'f \<Rightarrow> AccountId \<Rightarrow> u64 \<Rightarrow> 'w \<Rightarrow> 'w"
    and debit :: "'f \<Rightarrow> AccountId \<Rightarrow> u64 \<Rightarrow> 'w \<Rightarrow> (IssuerError + unit) \<times> 'w" +
  assumes debit_enough: "n \<le> bal w a \<Longrightarrow> fst (debit f a n w) = Inr ()"
    and grant_exact: "bal (grant f a n w) a = sat_add (bal w a) n"
begin

lemma unit_debits:
  assumes "ledger_run grant debit (map (\<lambda>f. OpDebit f a 1) fs) w = (rs, w')"
  shows "length (filter id rs) = min (length fs) (unat (bal w a))
    \<and> unat (bal w' a) = unat (bal w a) - length fs"
  using assms
proof (induction fs arbitrary: w rs)
  case (Cons f fs)
  obtain r w1 where d: "debit f a 1 w = (r, w1)" by fastforce
  obtain rs' where rs: "rs = is_ok r # rs'"
    and run: "ledger_run grant debit (map (\<lambda>f. OpDebit f a 1) fs) w1 = (rs', w')"
    using Cons.prems d by (auto split: prod.splits)
  have ok: "is_ok r \<longleftrightarrow> 1 \<le> unat (bal w a)"
    using debit_enough [of 1 w a f] debit_ok [of f a 1 w _ w1] d
    by (cases r) (auto simp: word_le_nat_alt)
  show ?case
    using Cons.IH [OF run] debit_exact [OF d, of a] ok rs by (auto simp: min_def)
qed simp

end

section \<open>The spent-set contract\<close>

fun spent_run ::
  "('f \<Rightarrow> SpendId \<Rightarrow> 'w \<Rightarrow> InsertOutcome \<times> 'w) \<Rightarrow> ('f \<times> SpendId) list \<Rightarrow> 'w \<Rightarrow>
   InsertOutcome list \<times> 'w" where
  "spent_run ins [] w = ([], w)"
| "spent_run ins ((f, i) # calls) w =
     (let (r, w') = ins f i w; (rs, w'') = spent_run ins calls w' in (r # rs, w''))"

definition accepted_ids :: "('f \<times> SpendId) list \<Rightarrow> InsertOutcome list \<Rightarrow> SpendId list" where
  "accepted_ids calls rs = map (snd \<circ> fst) (filter (\<lambda>(c, r). r = Inserted) (zip calls rs))"

locale spent_set =
  fixes spent :: "'w \<Rightarrow> SpendId set"
    and ins :: "'f \<Rightarrow> SpendId \<Rightarrow> 'w \<Rightarrow> InsertOutcome \<times> 'w"
  assumes ins_first: "ins f i w = (Inserted, w') \<Longrightarrow> i \<notin> spent w \<and> spent w' = insert i (spent w)"
    and ins_refused: "ins f i w = (AlreadySpent, w') \<Longrightarrow> spent w' = spent w"
begin

lemma run_accepts_once:
  "spent_run ins calls w = (rs, w') \<Longrightarrow>
     distinct (accepted_ids calls rs) \<and> set (accepted_ids calls rs) \<inter> spent w = {}
     \<and> spent w' = spent w \<union> set (accepted_ids calls rs)"
proof (induction calls arbitrary: w rs)
  case Nil
  then show ?case by (simp add: accepted_ids_def)
next
  case (Cons c calls)
  obtain f i where c: "c = (f, i)" by fastforce
  obtain r w1 where i: "ins f i w = (r, w1)" by fastforce
  obtain rs' where rs: "rs = r # rs'" and run: "spent_run ins calls w1 = (rs', w')"
    using Cons.prems c i by (auto split: prod.splits)
  show ?case
    using Cons.IH [OF run] ins_first [of f i w w1] ins_refused [of f i w w1] i rs c
    by (cases r) (auto simp: accepted_ids_def)
qed

end

section \<open>The in-memory implementations keep the contracts\<close>

interpretation mem_ledger: reliable_ledger mem_balance "\<lambda>_ :: unit. mem_grant" "\<lambda>_. mem_debit"
  by unfold_locales
    (auto simp: mem_balance_def mem_entry_def mem_grant_def mem_debit_def Let_def split: if_splits option.splits)

interpretation mem_spent: spent_set "\<lambda>s. s" "\<lambda>_ :: unit. mem_spent_insert"
  by unfold_locales (auto simp: mem_spent_insert_def split: if_splits)

section \<open>Properties\<close>

text \<open>
  Unit debits at the in-memory ledger. Of any number of one-credit debits of
  an account, in whatever order the tasks reach the lock, exactly as many
  succeed as the account has credits, and the balance ends at the truncated
  difference; it never wraps below zero.
\<close>

lemma mem_unit_debits:
  assumes "ledger_run (\<lambda>_ :: unit. mem_grant) (\<lambda>_. mem_debit) (replicate k (OpDebit () a 1)) l = (rs, l')"
  shows "length (filter id rs) = min k (unat (mem_balance l a))
    \<and> unat (mem_balance l' a) = unat (mem_balance l a) - k"
  using mem_ledger.unit_debits [of a "replicate k ()" l rs l'] assms by (simp add: map_replicate_const)

end
