(* ===== verification/Crypto_Account.thy ===== *)
theory Crypto_Account
  imports Core_Wire
begin

text \<open>
  \<open>lluma-crypto/src/account.rs\<close>: account identity, domain-separated
  signatures, the proof-of-work gate and the passphrase keystore. The
  third-party primitives (BLAKE3, Ed25519, postcard, Argon2id,
  XChaCha20-Poly1305) are the fields of \<open>prims\<close>, an argument of every
  definition that calls one; a fallible primitive returns its error text on
  the left. Random bytes drawn from an RNG are arguments.
\<close>

section \<open>Errors and primitives\<close>

datatype CryptoError =
    TokenInvalid
  | Blind string
  | Ohttp string
  | Hpke string
  | Truncated
  | ChunkOrder
  | AuthFailed
  | BadSignature
  | Derivation string
  | Encoding string

record prims =
  blake3 :: "bytes \<Rightarrow> bytes"
  ed_vk_from_bytes :: "bytes \<Rightarrow> string + unit"
  ed_verify :: "bytes \<Rightarrow> bytes \<Rightarrow> bytes \<Rightarrow> bool"
  ed_sign :: "bytes \<Rightarrow> bytes \<Rightarrow> bytes"
  ed_public :: "bytes \<Rightarrow> bytes"
  pc_receipt :: "UsageReceiptBody \<Rightarrow> string + bytes"
  pc_issue :: "IssueRequestBody \<Rightarrow> string + bytes"
  pc_host_register :: "HostRegisterBody \<Rightarrow> string + bytes"
  pc_heartbeat :: "HeartbeatBody \<Rightarrow> string + bytes"
  argon2id :: "bytes \<Rightarrow> bytes \<Rightarrow> string + bytes"
  aead_encrypt :: "bytes \<Rightarrow> bytes \<Rightarrow> bytes \<Rightarrow> bytes \<Rightarrow> bytes option"
  aead_decrypt :: "bytes \<Rightarrow> bytes \<Rightarrow> bytes \<Rightarrow> bytes \<Rightarrow> bytes option"

definition ascii :: "string \<Rightarrow> bytes" where
  "ascii s = map of_char s"

lemma length_ascii [simp]: "length (ascii s) = length s"
  by (simp add: ascii_def)

definition RECEIPT_DOMAIN :: bytes where
  "RECEIPT_DOMAIN = ascii ''lluma-usage-receipt-v1''"

definition ISSUE_REQUEST_DOMAIN :: bytes where
  "ISSUE_REQUEST_DOMAIN = ascii ''lluma-issue-request-v1''"

definition HOST_REGISTER_DOMAIN :: bytes where
  "HOST_REGISTER_DOMAIN = ascii ''lluma-host-register-v1''"

definition HEARTBEAT_DOMAIN :: bytes where
  "HEARTBEAT_DOMAIN = ascii ''lluma-heartbeat-v1''"

definition SNAPSHOT_DOMAIN :: bytes where
  "SNAPSHOT_DOMAIN = ascii ''lluma-registry-snapshot-v1''"

definition BOOTSTRAP_DOMAIN :: bytes where
  "BOOTSTRAP_DOMAIN = ascii ''lluma-bootstrap-v1''"

definition TUNNEL_AUTH_DOMAIN :: bytes where
  "TUNNEL_AUTH_DOMAIN = ascii ''lluma-host-tunnel-v1''"

section \<open>Keys and identity\<close>

definition account_fingerprint :: "prims \<Rightarrow> AccountPublicKey \<Rightarrow> AccountId" where
  "account_fingerprint P pk = blake3 P pk"

definition signing_key :: "AccountSecretKey \<Rightarrow> CryptoError + bytes" where
  "signing_key sk =
     (if length sk = 32 then Inr sk
      else Inl (Derivation ''account secret key must be 32 bytes''))"

definition verifying_key :: "prims \<Rightarrow> AccountPublicKey \<Rightarrow> CryptoError + bytes" where
  "verifying_key P pk =
     (if length pk \<noteq> 32 then Inl (Derivation ''account public key must be 32 bytes'')
      else case ed_vk_from_bytes P pk of Inl e \<Rightarrow> Inl (Derivation e) | Inr _ \<Rightarrow> Inr pk)"

definition account_public_from_secret :: "prims \<Rightarrow> AccountSecretKey \<Rightarrow> CryptoError + AccountPublicKey" where
  "account_public_from_secret P sk =
     (case signing_key sk of Inl e \<Rightarrow> Inl e | Inr k \<Rightarrow> Inr (ed_public P k))"

text \<open>
  The tail every \<open>*_sign\<close> and \<open>*_verify\<close> function of the source
  repeats: load the key, build the message, (for verification) require a
  64-byte signature, then call Ed25519.
\<close>

definition sign_msg :: "prims \<Rightarrow> AccountSecretKey \<Rightarrow> CryptoError + bytes \<Rightarrow> CryptoError + ReceiptSignature" where
  "sign_msg P sk msg =
     (case signing_key sk of Inl e \<Rightarrow> Inl e
      | Inr k \<Rightarrow> (case msg of Inl e \<Rightarrow> Inl e | Inr m \<Rightarrow> Inr (ed_sign P k m)))"

definition verify_msg ::
  "prims \<Rightarrow> AccountPublicKey \<Rightarrow> CryptoError + bytes \<Rightarrow> ReceiptSignature \<Rightarrow> CryptoError + unit" where
  "verify_msg P pk msg sig =
     (case verifying_key P pk of Inl e \<Rightarrow> Inl e
      | Inr k \<Rightarrow> (case msg of Inl e \<Rightarrow> Inl e
          | Inr m \<Rightarrow>
              if length sig \<noteq> 64 then Inl BadSignature
              else if ed_verify P k m sig then Inr () else Inl BadSignature))"

section \<open>Canonical messages, signing and verification\<close>

definition with_domain :: "bytes \<Rightarrow> string + bytes \<Rightarrow> CryptoError + bytes" where
  "with_domain d enc = (case enc of Inl e \<Rightarrow> Inl (Encoding e) | Inr b \<Rightarrow> Inr (d @ b))"

definition canonical :: "prims \<Rightarrow> UsageReceiptBody \<Rightarrow> CryptoError + bytes" where
  "canonical P body = with_domain RECEIPT_DOMAIN (pc_receipt P body)"

definition receipt_sign :: "prims \<Rightarrow> AccountSecretKey \<Rightarrow> UsageReceiptBody \<Rightarrow> CryptoError + ReceiptSignature" where
  "receipt_sign P sk body = sign_msg P sk (canonical P body)"

definition receipt_verify ::
  "prims \<Rightarrow> AccountPublicKey \<Rightarrow> UsageReceiptBody \<Rightarrow> ReceiptSignature \<Rightarrow> CryptoError + unit" where
  "receipt_verify P pk body sig = verify_msg P pk (canonical P body) sig"

definition issue_canonical :: "prims \<Rightarrow> IssueRequestBody \<Rightarrow> CryptoError + bytes" where
  "issue_canonical P body = with_domain ISSUE_REQUEST_DOMAIN (pc_issue P body)"

definition issue_request_sign :: "prims \<Rightarrow> AccountSecretKey \<Rightarrow> IssueRequestBody \<Rightarrow> CryptoError + IssueSignature" where
  "issue_request_sign P sk body = sign_msg P sk (issue_canonical P body)"

definition issue_request_verify ::
  "prims \<Rightarrow> AccountPublicKey \<Rightarrow> IssueRequestBody \<Rightarrow> IssueSignature \<Rightarrow> CryptoError + unit" where
  "issue_request_verify P pk body sig = verify_msg P pk (issue_canonical P body) sig"

definition host_register_canonical :: "prims \<Rightarrow> HostRegisterBody \<Rightarrow> CryptoError + bytes" where
  "host_register_canonical P body = with_domain HOST_REGISTER_DOMAIN (pc_host_register P body)"

definition host_register_sign :: "prims \<Rightarrow> AccountSecretKey \<Rightarrow> HostRegisterBody \<Rightarrow> CryptoError + ReceiptSignature" where
  "host_register_sign P sk body = sign_msg P sk (host_register_canonical P body)"

definition host_register_verify ::
  "prims \<Rightarrow> AccountPublicKey \<Rightarrow> HostRegisterBody \<Rightarrow> ReceiptSignature \<Rightarrow> CryptoError + unit" where
  "host_register_verify P pk body sig = verify_msg P pk (host_register_canonical P body) sig"

definition heartbeat_canonical :: "prims \<Rightarrow> HeartbeatBody \<Rightarrow> CryptoError + bytes" where
  "heartbeat_canonical P body = with_domain HEARTBEAT_DOMAIN (pc_heartbeat P body)"

definition heartbeat_sign :: "prims \<Rightarrow> AccountSecretKey \<Rightarrow> HeartbeatBody \<Rightarrow> CryptoError + ReceiptSignature" where
  "heartbeat_sign P sk body = sign_msg P sk (heartbeat_canonical P body)"

definition heartbeat_verify ::
  "prims \<Rightarrow> AccountPublicKey \<Rightarrow> HeartbeatBody \<Rightarrow> ReceiptSignature \<Rightarrow> CryptoError + unit" where
  "heartbeat_verify P pk body sig = verify_msg P pk (heartbeat_canonical P body) sig"

definition snapshot_canonical :: "bytes \<Rightarrow> bytes" where
  "snapshot_canonical snapshot_bytes = SNAPSHOT_DOMAIN @ snapshot_bytes"

definition snapshot_sign :: "prims \<Rightarrow> AccountSecretKey \<Rightarrow> bytes \<Rightarrow> CryptoError + ReceiptSignature" where
  "snapshot_sign P sk snapshot_bytes = sign_msg P sk (Inr (snapshot_canonical snapshot_bytes))"

definition snapshot_verify ::
  "prims \<Rightarrow> AccountPublicKey \<Rightarrow> bytes \<Rightarrow> ReceiptSignature \<Rightarrow> CryptoError + unit" where
  "snapshot_verify P pk snapshot_bytes sig = verify_msg P pk (Inr (snapshot_canonical snapshot_bytes)) sig"

definition bootstrap_canonical :: "bytes \<Rightarrow> bytes" where
  "bootstrap_canonical doc_bytes = BOOTSTRAP_DOMAIN @ doc_bytes"

definition bootstrap_sign :: "prims \<Rightarrow> AccountSecretKey \<Rightarrow> bytes \<Rightarrow> CryptoError + ReceiptSignature" where
  "bootstrap_sign P sk doc_bytes = sign_msg P sk (Inr (bootstrap_canonical doc_bytes))"

definition bootstrap_verify ::
  "prims \<Rightarrow> AccountPublicKey \<Rightarrow> bytes \<Rightarrow> ReceiptSignature \<Rightarrow> CryptoError + unit" where
  "bootstrap_verify P pk doc_bytes sig = verify_msg P pk (Inr (bootstrap_canonical doc_bytes)) sig"

definition tunnel_auth_canonical :: "bytes \<Rightarrow> bytes \<Rightarrow> bytes \<Rightarrow> bytes" where
  "tunnel_auth_canonical challenge host_account broker_key_id =
     TUNNEL_AUTH_DOMAIN @ challenge @ host_account @ broker_key_id"

definition tunnel_auth_sign ::
  "prims \<Rightarrow> AccountSecretKey \<Rightarrow> bytes \<Rightarrow> bytes \<Rightarrow> bytes \<Rightarrow> CryptoError + ReceiptSignature" where
  "tunnel_auth_sign P sk challenge host_account broker_key_id =
     sign_msg P sk (Inr (tunnel_auth_canonical challenge host_account broker_key_id))"

definition tunnel_auth_verify ::
  "prims \<Rightarrow> AccountPublicKey \<Rightarrow> bytes \<Rightarrow> bytes \<Rightarrow> bytes \<Rightarrow> ReceiptSignature \<Rightarrow> CryptoError + unit" where
  "tunnel_auth_verify P pk challenge host_account broker_key_id sig =
     verify_msg P pk (Inr (tunnel_auth_canonical challenge host_account broker_key_id)) sig"

section \<open>Proof of work\<close>

definition POW_TRIAL_DOMAIN :: bytes where
  "POW_TRIAL_DOMAIN = ascii ''lluma-pow-trial-v1''"

definition POW_HOST_DOMAIN :: bytes where
  "POW_HOST_DOMAIN = ascii ''lluma-pow-host-v1''"

text \<open>\<open>u8::leading_zeros\<close>: the zero bits above the highest set bit.\<close>

definition leading_zeros_u8 :: "u8 \<Rightarrow> nat" where
  "leading_zeros_u8 b = length (takeWhile (\<lambda>i. \<not> bit b i) (rev [0..<8]))"

fun leading_zero_bits :: "bytes \<Rightarrow> nat" where
  "leading_zero_bits [] = 0"
| "leading_zero_bits (b # bs) =
     (if b = 0 then 8 + leading_zero_bits bs else leading_zeros_u8 b)"

definition pow_preimage :: "bytes \<Rightarrow> bytes \<Rightarrow> bytes \<Rightarrow> bytes \<Rightarrow> bytes" where
  "pow_preimage domain account_pk nonce epoch_salt = domain @ account_pk @ nonce @ epoch_salt"

definition pow_verify :: "prims \<Rightarrow> bytes \<Rightarrow> bytes \<Rightarrow> bytes \<Rightarrow> bytes \<Rightarrow> u32 \<Rightarrow> bool" where
  "pow_verify P domain account_pk nonce epoch_salt difficulty_bits \<longleftrightarrow>
     unat difficulty_bits \<le>
       leading_zero_bits (blake3 P (pow_preimage domain account_pk nonce epoch_salt))"

text \<open>
  The solver's loop: \<open>n\<close> runs through the \<open>u64\<close> values with
  \<open>wrapping_add\<close>. It need not end, so its result is optional.
\<close>

partial_function (option) pow_scan ::
  "prims \<Rightarrow> bytes \<Rightarrow> bytes \<Rightarrow> bytes \<Rightarrow> u32 \<Rightarrow> u64 \<Rightarrow> bytes option" where
  "pow_scan P domain account_pk epoch_salt difficulty_bits n =
     (if pow_verify P domain account_pk (to_le_bytes 8 n) epoch_salt difficulty_bits
      then Some (to_le_bytes 8 n)
      else pow_scan P domain account_pk epoch_salt difficulty_bits (n + 1))"

definition pow_solve :: "prims \<Rightarrow> bytes \<Rightarrow> bytes \<Rightarrow> bytes \<Rightarrow> u32 \<Rightarrow> bytes option" where
  "pow_solve P domain account_pk epoch_salt difficulty_bits =
     pow_scan P domain account_pk epoch_salt difficulty_bits 0"

section \<open>Mnemonics\<close>

text \<open>
  BIP-39 (entropy to seed, with the empty passphrase; phrase to entropy; entropy
  to phrase) and BLAKE3's key derivation are parameters.
\<close>

record seed_prims =
  bip39_seed :: "bytes \<Rightarrow> string + bytes"
  bip39_parse :: "string \<Rightarrow> string + bytes"
  bip39_phrase :: "bytes \<Rightarrow> string + string"
  blake3_derive_key :: "string \<Rightarrow> bytes \<Rightarrow> bytes"

definition account_mnemonic_new :: "bytes \<Rightarrow> CryptoError + Mnemonic" where
  "account_mnemonic_new entropy = Inr entropy"

definition derive_keypair_from_seed ::
  "prims \<Rightarrow> seed_prims \<Rightarrow> Mnemonic \<Rightarrow> CryptoError + (AccountSecretKey \<times> AccountPublicKey)" where
  "derive_keypair_from_seed P D mnemonic =
     (case bip39_seed D mnemonic of Inl e \<Rightarrow> Inl (Derivation e)
      | Inr seed \<Rightarrow>
          let key32 = blake3_derive_key D ''lluma v1 account ed25519'' seed in
          Inr (key32, ed_public P key32))"

definition mnemonic_from_phrase :: "seed_prims \<Rightarrow> string \<Rightarrow> CryptoError + Mnemonic" where
  "mnemonic_from_phrase D phrase =
     (case bip39_parse D (trim phrase) of Inl e \<Rightarrow> Inl (Derivation e)
      | Inr entropy \<Rightarrow>
          if length entropy = 16 then Inr entropy
          else Inl (Derivation ''expected a 12-word (128-bit) mnemonic''))"

definition mnemonic_to_phrase :: "seed_prims \<Rightarrow> Mnemonic \<Rightarrow> CryptoError + string" where
  "mnemonic_to_phrase D mnemonic =
     (case bip39_phrase D mnemonic of Inl e \<Rightarrow> Inl (Derivation e) | Inr phrase \<Rightarrow> Inr phrase)"

section \<open>The passphrase keystore\<close>

definition KS_MAGIC :: bytes where
  "KS_MAGIC = ascii ''LLKS''"

definition KS_VERSION :: u8 where
  "KS_VERSION = 1"

definition KS_M_COST :: u32 where
  "KS_M_COST = 64 * 1024"

definition KS_T_COST :: u32 where
  "KS_T_COST = 3"

definition KS_P :: u32 where
  "KS_P = 1"

definition KS_SALT_LEN :: nat where
  "KS_SALT_LEN = 16"

definition KS_NONCE_LEN :: nat where
  "KS_NONCE_LEN = 24"

definition KS_HEADER_LEN :: nat where
  "KS_HEADER_LEN = 4 + 1 + 4 + 4 + 4 + KS_SALT_LEN + KS_NONCE_LEN"

definition derive_kek :: "prims \<Rightarrow> bytes \<Rightarrow> bytes \<Rightarrow> CryptoError + bytes" where
  "derive_kek P passphrase salt =
     (case argon2id P passphrase salt of Inl e \<Rightarrow> Inl (Derivation e) | Inr k \<Rightarrow> Inr k)"

definition ks_header :: "bytes \<Rightarrow> bytes \<Rightarrow> bytes" where
  "ks_header salt nonce =
     KS_MAGIC @ [KS_VERSION] @ to_le_bytes 4 KS_M_COST @ to_le_bytes 4 KS_T_COST
       @ to_le_bytes 4 KS_P @ salt @ nonce"

definition seal_bytes :: "prims \<Rightarrow> bytes \<Rightarrow> bytes \<Rightarrow> bytes \<Rightarrow> bytes \<Rightarrow> CryptoError + KeystoreBlob" where
  "seal_bytes P salt nonce passphrase plaintext =
     (let header = ks_header salt nonce in
      case derive_kek P passphrase salt of Inl e \<Rightarrow> Inl e
      | Inr kek \<Rightarrow>
          (case aead_encrypt P kek nonce plaintext header of
             None \<Rightarrow> Inl AuthFailed
           | Some ct \<Rightarrow> Inr (header @ ct)))"

definition subslice :: "nat \<Rightarrow> nat \<Rightarrow> 'a list \<Rightarrow> 'a list" where
  "subslice i j xs = take (j - i) (drop i xs)"

definition open_bytes :: "prims \<Rightarrow> bytes \<Rightarrow> KeystoreBlob \<Rightarrow> CryptoError + bytes" where
  "open_bytes P passphrase b =
     (if length b < KS_HEADER_LEN + 16 \<or> subslice 0 4 b \<noteq> KS_MAGIC then Inl AuthFailed
      else
        let version = b ! 4;
            m_cost = (from_le_bytes (subslice 5 9 b) :: u32);
            t_cost = (from_le_bytes (subslice 9 13 b) :: u32);
            p_cost = (from_le_bytes (subslice 13 17 b) :: u32) in
        if version \<noteq> KS_VERSION \<or> m_cost \<noteq> KS_M_COST \<or> t_cost \<noteq> KS_T_COST \<or> p_cost \<noteq> KS_P
        then Inl (Encoding ''unsupported keystore version/params'')
        else
          let salt = subslice 17 33 b;
              nonce = subslice 33 57 b;
              header = subslice 0 KS_HEADER_LEN b;
              ct = drop KS_HEADER_LEN b in
          case derive_kek P passphrase salt of Inl e \<Rightarrow> Inl e
          | Inr kek \<Rightarrow>
              (case aead_decrypt P kek nonce ct header of
                 None \<Rightarrow> Inl AuthFailed | Some pt \<Rightarrow> Inr pt))"

definition seal_keystore :: "prims \<Rightarrow> bytes \<Rightarrow> bytes \<Rightarrow> bytes \<Rightarrow> Mnemonic \<Rightarrow> CryptoError + KeystoreBlob" where
  "seal_keystore P salt nonce passphrase mnemonic = seal_bytes P salt nonce passphrase mnemonic"

definition open_keystore :: "prims \<Rightarrow> bytes \<Rightarrow> KeystoreBlob \<Rightarrow> CryptoError + Mnemonic" where
  "open_keystore P passphrase blob =
     (case open_bytes P passphrase blob of Inl e \<Rightarrow> Inl e
      | Inr pt \<Rightarrow> if length pt = 16 then Inr pt else Inl AuthFailed)"

section \<open>The signed statements together\<close>

text \<open>
  The seven kinds of statement an account key signs, as one type, so that what
  separates them can be stated once for all pairs.
\<close>


datatype Signable =
    SigReceipt UsageReceiptBody
  | SigIssue IssueRequestBody
  | SigHostRegister HostRegisterBody
  | SigHeartbeat HeartbeatBody
  | SigSnapshot bytes
  | SigBootstrap bytes
  | SigTunnelAuth bytes bytes bytes

fun canonical_of :: "prims \<Rightarrow> Signable \<Rightarrow> CryptoError + bytes" where
  "canonical_of P (SigReceipt b) = canonical P b"
| "canonical_of P (SigIssue b) = issue_canonical P b"
| "canonical_of P (SigHostRegister b) = host_register_canonical P b"
| "canonical_of P (SigHeartbeat b) = heartbeat_canonical P b"
| "canonical_of P (SigSnapshot b) = Inr (snapshot_canonical b)"
| "canonical_of P (SigBootstrap b) = Inr (bootstrap_canonical b)"
| "canonical_of P (SigTunnelAuth c h k) = Inr (tunnel_auth_canonical c h k)"

fun domain_of :: "Signable \<Rightarrow> bytes" where
  "domain_of (SigReceipt b) = RECEIPT_DOMAIN"
| "domain_of (SigIssue b) = ISSUE_REQUEST_DOMAIN"
| "domain_of (SigHostRegister b) = HOST_REGISTER_DOMAIN"
| "domain_of (SigHeartbeat b) = HEARTBEAT_DOMAIN"
| "domain_of (SigSnapshot b) = SNAPSHOT_DOMAIN"
| "domain_of (SigBootstrap b) = BOOTSTRAP_DOMAIN"
| "domain_of (SigTunnelAuth c h k) = TUNNEL_AUTH_DOMAIN"

lemmas domain_defs = RECEIPT_DOMAIN_def ISSUE_REQUEST_DOMAIN_def HOST_REGISTER_DOMAIN_def
  HEARTBEAT_DOMAIN_def SNAPSHOT_DOMAIN_def BOOTSTRAP_DOMAIN_def TUNNEL_AUTH_DOMAIN_def


fun kind_of :: "Signable \<Rightarrow> nat" where
  "kind_of (SigReceipt b) = 0"
| "kind_of (SigIssue b) = 1"
| "kind_of (SigHostRegister b) = 2"
| "kind_of (SigHeartbeat b) = 3"
| "kind_of (SigSnapshot b) = 4"
| "kind_of (SigBootstrap b) = 5"
| "kind_of (SigTunnelAuth c h k) = 6"


lemma domains_distinct:
  "distinct (map (take 18) [RECEIPT_DOMAIN, ISSUE_REQUEST_DOMAIN, HOST_REGISTER_DOMAIN,
     HEARTBEAT_DOMAIN, SNAPSHOT_DOMAIN, BOOTSTRAP_DOMAIN, TUNNEL_AUTH_DOMAIN])"
  by code_simp

lemma domain_lengths: "18 \<le> length (domain_of s)"
  by (cases s) (simp_all add: domain_defs)

lemma domain_prefix_inj: "take 18 (domain_of s) = take 18 (domain_of t) \<Longrightarrow> kind_of s = kind_of t"
  using domains_distinct by (cases s; cases t) simp_all

lemma with_domain_Inr: "with_domain d enc = Inr m \<longleftrightarrow> (\<exists>b. enc = Inr b \<and> m = d @ b)"
  by (cases enc) (auto simp: with_domain_def)

lemma canonical_of_prefix:
  assumes "canonical_of P s = Inr m"
  shows "\<exists>rest. m = domain_of s @ rest"
  using assms
  by (cases s) (auto simp: canonical_def issue_canonical_def host_register_canonical_def
    heartbeat_canonical_def snapshot_canonical_def bootstrap_canonical_def
    tunnel_auth_canonical_def with_domain_Inr)

lemma canonical_of_kind:
  assumes "canonical_of P s = Inr m" and "canonical_of P t = Inr m"
  shows "kind_of s = kind_of t"
proof (rule domain_prefix_inj)
  obtain r r' where "m = domain_of s @ r" and "m = domain_of t @ r'"
    using canonical_of_prefix [OF assms(1)] canonical_of_prefix [OF assms(2)] by blast
  then have "domain_of s @ r = domain_of t @ r'" by simp
  then have "take 18 (domain_of s @ r) = take 18 (domain_of t @ r')" by simp
  then show "take 18 (domain_of s) = take 18 (domain_of t)"
    using domain_lengths [of s] domain_lengths [of t] by simp
qed

section \<open>Signature round trips\<close>

definition ed_correct :: "prims \<Rightarrow> bytes \<Rightarrow> bool" where
  "ed_correct P sk \<longleftrightarrow>
     length (ed_public P sk) = 32 \<and> ed_vk_from_bytes P (ed_public P sk) = Inr ()
     \<and> (\<forall>m. length (ed_sign P sk m) = 64 \<and> ed_verify P (ed_public P sk) m (ed_sign P sk m))"

lemma sign_msg_verify:
  assumes "ed_correct P sk" and "account_public_from_secret P sk = Inr pk"
    and "sign_msg P sk msg = Inr sig"
  shows "verify_msg P pk msg sig = Inr ()"
  using assms
  by (auto simp: ed_correct_def account_public_from_secret_def sign_msg_def verify_msg_def
    verifying_key_def signing_key_def split: sum.splits if_splits)

lemma verify_msg_Inr:
  "verify_msg P pk msg sig = Inr () \<longleftrightarrow>
     length pk = 32 \<and> is_ok (ed_vk_from_bytes P pk) \<and>
     (\<exists>m. msg = Inr m \<and> length sig = 64 \<and> ed_verify P pk m sig)"
  by (auto simp: verify_msg_def verifying_key_def is_ok_def split: sum.splits)

section \<open>Proof-of-work facts\<close>

definition msb_bits :: "u8 \<Rightarrow> bool list" where
  "msb_bits b = map (bit b) (rev [0..<8])"

lemma takeWhile_append_all: "(\<forall>x \<in> set xs. p x) \<Longrightarrow> takeWhile p (xs @ ys) = xs @ takeWhile p ys"
  by (rule takeWhile_append2) blast

lemma leading_zero_bits_msb:
  "leading_zero_bits h = length (takeWhile Not (concat (map msb_bits h)))"
proof (induction h)
  case (Cons b bs)
  show ?case
  proof (cases "b = 0")
    case True
    then have "\<forall>x \<in> set (msb_bits b). \<not> x" and "length (msb_bits b) = 8"
      by (auto simp: msb_bits_def)
    with True Cons show ?thesis by (simp add: takeWhile_append_all)
  next
    case False
    then obtain i where i: "bit b i" using bit_word_eqI [of b 0] by auto
    then have "i < 8" using bit_imp_le_length [of b i] by simp
    with i have "bit b i \<in> set (msb_bits b)" by (auto simp: msb_bits_def)
    with i have "takeWhile Not (msb_bits b @ concat (map msb_bits bs)) = takeWhile Not (msb_bits b)"
      by (intro takeWhile_append1) auto
    moreover have "length (takeWhile Not (msb_bits b)) = leading_zeros_u8 b"
      by (simp add: leading_zeros_u8_def msb_bits_def takeWhile_map comp_def)
    ultimately show ?thesis using False by simp
  qed
qed simp

lemma pow_scan_step:
  "\<not> pow_verify P d a (to_le_bytes 8 n) s k \<Longrightarrow> pow_scan P d a s k n = pow_scan P d a s k (n + 1)"
  by (subst pow_scan.simps) simp

lemma pow_scan_least:
  assumes "pow_verify P d a (to_le_bytes 8 m) s k"
    and "\<And>j. j < m \<Longrightarrow> \<not> pow_verify P d a (to_le_bytes 8 j) s k" and "n \<le> m"
  shows "pow_scan P d a s k n = Some (to_le_bytes 8 m)"
  using assms(3)
proof (induction "unat m - unat n" arbitrary: n)
  case 0
  then have "n = m" by (simp add: word_le_nat_alt word_unat_eq_iff)
  with assms(1) show ?case by (subst pow_scan.simps) simp
next
  case (Suc x)
  then have lt: "n < m" by (simp add: word_less_nat_alt)
  then have "unat n + 1 < 2 ^ 64"
    using unat_bound [of m] by (simp add: word_less_nat_alt)
  then have "unat (n + 1) = unat n + 1"
    by (simp add: unat_word_ariths)
  with Suc lt have "pow_scan P d a s k (n + 1) = Some (to_le_bytes 8 m)"
    by (intro Suc.hyps(1)) (simp_all add: word_le_nat_alt word_less_nat_alt)
  with assms(2) [OF lt] show ?case by (simp add: pow_scan_step)
qed

lemma pow_scan_sound:
  "pow_scan P d a s k n = Some r \<Longrightarrow> \<exists>m :: u64. r = to_le_bytes 8 m \<and> pow_verify P d a r s k"
  by (drule pow_scan.raw_induct [of "\<lambda>(((((P, d), a), s), k), n) r.
      \<exists>m :: u64. r = to_le_bytes 8 m \<and> pow_verify P d a r s k", rotated])
    (auto split: if_splits)

section \<open>Keystore facts\<close>

lemma length_ks_header: "length salt = 16 \<Longrightarrow> length nonce = 24 \<Longrightarrow> length (ks_header salt nonce) = KS_HEADER_LEN"
  by (simp add: ks_header_def KS_MAGIC_def KS_HEADER_LEN_def KS_SALT_LEN_def KS_NONCE_LEN_def)

lemma slice_append_right: "i = length xs \<Longrightarrow> j = i + length ys \<Longrightarrow> subslice i j (xs @ ys @ zs) = ys"
  by (simp add: subslice_def)

lemma open_sealed_slices:
  fixes salt nonce ct :: bytes
  assumes "length salt = 16" and "length nonce = 24"
  defines "b \<equiv> ks_header salt nonce @ ct"
  shows "subslice 0 4 b = KS_MAGIC" and "b ! 4 = KS_VERSION"
    and "subslice 5 9 b = to_le_bytes 4 KS_M_COST" and "subslice 9 13 b = to_le_bytes 4 KS_T_COST"
    and "subslice 13 17 b = to_le_bytes 4 KS_P" and "subslice 17 33 b = salt" and "subslice 33 57 b = nonce"
    and "subslice 0 KS_HEADER_LEN b = ks_header salt nonce" and "drop KS_HEADER_LEN b = ct"
proof -
  note len = length_ks_header [OF assms(1,2)]
  show "subslice 0 KS_HEADER_LEN b = ks_header salt nonce" "drop KS_HEADER_LEN b = ct"
    using len by (simp_all add: b_def subslice_def)
qed (use assms in \<open>simp_all add: subslice_def ks_header_def KS_MAGIC_def nth_append\<close>)

definition aead_correct :: "prims \<Rightarrow> bool" where
  "aead_correct P \<longleftrightarrow>
     (\<forall>k n pt ad ct. aead_encrypt P k n pt ad = Some ct \<longrightarrow>
        length ct = length pt + 16 \<and> aead_decrypt P k n ct ad = Some pt)"

lemma open_seal_bytes:
  assumes "aead_correct P" and "length salt = 16" and "length nonce = 24"
    and "seal_bytes P salt nonce pw pt = Inr blob"
  shows "open_bytes P pw blob = Inr pt"
proof -
  obtain kek ct where kek: "derive_kek P pw salt = Inr kek"
    and ct: "aead_encrypt P kek nonce pt (ks_header salt nonce) = Some ct"
    and blob: "blob = ks_header salt nonce @ ct"
    using assms(4) by (auto simp: seal_bytes_def Let_def split: sum.splits option.splits)
  have "length ct \<ge> 16" and "aead_decrypt P kek nonce ct (ks_header salt nonce) = Some pt"
    using assms(1) ct by (auto simp: aead_correct_def)
  moreover have "length blob \<ge> KS_HEADER_LEN + 16"
    using blob length_ks_header [OF assms(2,3)] \<open>length ct \<ge> 16\<close> by simp
  ultimately show ?thesis
    using kek open_sealed_slices [OF assms(2,3), of ct]
    by (simp add: blob open_bytes_def Let_def from_to_le_bytes del: append_assoc)
qed

section \<open>A concrete instance of the primitives\<close>

text \<open>
  A transparent stand-in for the third-party primitives. It satisfies the laws
  the theorems assume of them and evaluates in the kernel; nothing is proved
  about security with it.
\<close>

definition demo_sig :: "bytes \<Rightarrow> bytes \<Rightarrow> bytes" where
  "demo_sig k m = replicate 64 (sum_list k + sum_list m)"

definition demo_prims :: prims where
  "demo_prims = \<lparr>
     blake3 = (\<lambda>b. take 32 (b @ replicate 32 0)),
     ed_vk_from_bytes = (\<lambda>_. Inr ()),
     ed_verify = (\<lambda>pk m sig. sig = demo_sig pk m),
     ed_sign = demo_sig,
     ed_public = (\<lambda>sk. sk),
     pc_receipt = (\<lambda>b. Inr (ur_host_account b @ ur_spend_id b)),
     pc_issue = (\<lambda>b. Inr (ib_account b @ ib_key_id b @ ib_request_id b @ ib_blinded_batch_hash b)),
     pc_host_register = (\<lambda>b. Inr (hr_host_account b @ hr_hpke_pk b)),
     pc_heartbeat = (\<lambda>b. Inr (hb_host_account b @ to_le_bytes 8 (hb_hb_counter b))),
     argon2id = (\<lambda>pw salt. Inr (take 32 (pw @ salt @ replicate 32 0))),
     aead_encrypt = (\<lambda>k n pt ad. Some (pt @ replicate 16 0)),
     aead_decrypt = (\<lambda>k n ct ad. Some (take (length ct - 16) ct)) \<rparr>"

lemma demo_aead_correct: "aead_correct demo_prims"
  by (simp add: aead_correct_def demo_prims_def)

lemma demo_ed_correct: "length sk = 32 \<Longrightarrow> ed_correct demo_prims sk"
  by (simp add: ed_correct_def demo_prims_def demo_sig_def)

section \<open>Properties\<close>

text \<open>
  C34: domain separation. The bytes signed for a statement of one kind are never
  the bytes signed for a statement of another kind: a signature made for a receipt, an issue request, a
  registration, a heartbeat, a snapshot, a bootstrap document or a tunnel
  handshake never verifies as a statement of another kind.
\<close>

theorem signed_messages_separated:
  assumes "kind_of s \<noteq> kind_of t" and "canonical_of P s = Inr m"
  shows "canonical_of P t \<noteq> Inr m"
  using assms canonical_of_kind [of P s m t] by blast

theorem signed_messages_separated_witness:
  "canonical_of demo_prims (SigTunnelAuth [1] [2] [3]) \<noteq> Inr (snapshot_canonical [1])"
  by (rule signed_messages_separated [of "SigSnapshot [1]"]) simp_all

text \<open>
  C35: the proof-of-work solver returns the least \<open>u64\<close> nonce (little-endian)
  that its own verifier accepts when there is one, and does not return
  otherwise; so it is correct, and it terminates exactly when the puzzle has a
  solution.
\<close>

theorem pow_solve_least:
  "pow_solve P domain pk salt k =
     (if \<exists>n :: u64. pow_verify P domain pk (to_le_bytes 8 n) salt k
      then Some (to_le_bytes 8 (LEAST n :: u64. pow_verify P domain pk (to_le_bytes 8 n) salt k))
      else None)"
proof (cases "\<exists>n :: u64. pow_verify P domain pk (to_le_bytes 8 n) salt k")
  case True
  define m where "m = (LEAST n :: u64. pow_verify P domain pk (to_le_bytes 8 n) salt k)"
  have "pow_verify P domain pk (to_le_bytes 8 m) salt k"
    unfolding m_def using True by (rule LeastI_ex)
  then have "pow_scan P domain pk salt k 0 = Some (to_le_bytes 8 m)"
    by (rule pow_scan_least) (auto simp: m_def dest: not_less_Least)
  with True show ?thesis by (simp add: pow_solve_def m_def)
next
  case False
  then have "pow_scan P domain pk salt k 0 = None"
    using pow_scan_sound [of P domain pk salt k 0] by (cases "pow_scan P domain pk salt k 0") auto
  with False show ?thesis by (simp add: pow_solve_def)
qed

text \<open>
  \<open>leading_zero_bits\<close>, the byte-wise scan behind the proof-of-work
  check, counts the zero bits before the first set bit of the digest read most
  significant bit first.
\<close>

lemma leading_zero_bits_spec:
  "leading_zero_bits h = length (takeWhile Not (concat (map msb_bits h)))"
  by (rule leading_zero_bits_msb)

text \<open>
  Keystore round trip. A keystore blob sealed over a 16-byte mnemonic entropy
  with a 16-byte salt and a 24-byte nonce opens under the same passphrase to
  the same mnemonic, for every AEAD that decrypts what it encrypted and adds a
  16-byte tag.
\<close>

lemma keystore_round_trip:
  assumes "aead_correct P" and "length salt = KS_SALT_LEN" and "length nonce = KS_NONCE_LEN"
    and "length mnemonic = 16" and "seal_keystore P salt nonce passphrase mnemonic = Inr blob"
  shows "open_keystore P passphrase blob = Inr mnemonic"
  using assms open_seal_bytes [of P salt nonce passphrase mnemonic blob]
  by (simp add: seal_keystore_def open_keystore_def KS_SALT_LEN_def KS_NONCE_LEN_def)

end
