(* ===== verification/Crypto_Tokens.thy ===== *)
theory Crypto_Tokens
  imports Crypto_Account
begin

text \<open>
  \<open>lluma-crypto/src/tokens.rs\<close>: blind entitlement tokens. The RSABSSA
  scheme (RFC 9474) and the postcard encoding of the blinding state are the
  fields of \<open>rsa_prims\<close>; a key or signature of the library is its byte
  string. The random bytes a call draws are its argument \<open>r\<close>.
\<close>

type_synonym BlindingResult = "bytes \<times> bytes \<times> bytes option"
type_synonym BlindStateTuple = "bytes \<times> bytes \<times> bytes \<times> bytes"

record rsa_prims =
  rsa_generate :: "bytes \<Rightarrow> nat \<Rightarrow> string + (bytes \<times> bytes)"
  rsa_sk_to_der :: "bytes \<Rightarrow> string + bytes"
  rsa_pk_to_der :: "bytes \<Rightarrow> string + bytes"
  rsa_sk_from_der :: "bytes \<Rightarrow> string + bytes"
  rsa_pk_from_der :: "bytes \<Rightarrow> string + bytes"
  rsa_blind :: "bytes \<Rightarrow> bytes \<Rightarrow> bytes \<Rightarrow> string + BlindingResult"
  rsa_blind_sign :: "bytes \<Rightarrow> bytes \<Rightarrow> bytes \<Rightarrow> string + bytes"
  rsa_finalize :: "bytes \<Rightarrow> bytes \<Rightarrow> BlindingResult \<Rightarrow> bytes \<Rightarrow> string + bytes"
  rsa_verify :: "bytes \<Rightarrow> bytes \<Rightarrow> bytes option \<Rightarrow> bytes \<Rightarrow> bool"
  pc_blind_state :: "BlindStateTuple \<Rightarrow> string + bytes"
  pc_blind_state_dec :: "bytes \<Rightarrow> string + BlindStateTuple"

definition MODULUS_BITS :: nat where
  "MODULUS_BITS = 2048"

definition split_token :: "Token \<Rightarrow> CryptoError + (bytes \<times> bytes \<times> bytes)" where
  "split_token b =
     (if length b \<noteq> 320 then Inl TokenInvalid
      else Inr (subslice 0 32 b, subslice 32 64 b, drop 64 b))"

definition issuer_keygen :: "rsa_prims \<Rightarrow> bytes \<Rightarrow> CryptoError + (IssuerSecretKey \<times> IssuerPublicKey)" where
  "issuer_keygen R r =
     (case rsa_generate R r MODULUS_BITS of Inl e \<Rightarrow> Inl (Blind e)
      | Inr (sk, pk) \<Rightarrow>
          (case rsa_sk_to_der R sk of Inl e \<Rightarrow> Inl (Blind e)
           | Inr sk_der \<Rightarrow>
               (case rsa_pk_to_der R pk of Inl e \<Rightarrow> Inl (Blind e)
                | Inr pk_der \<Rightarrow> Inr (sk_der, pk_der))))"

text \<open>\<open>nonce\<close> is the 32 bytes drawn first, \<open>r\<close> what the blinding draws.\<close>

definition token_blind ::
  "rsa_prims \<Rightarrow> bytes \<Rightarrow> bytes \<Rightarrow> IssuerPublicKey \<Rightarrow> CryptoError + (BlindingState \<times> BlindedTokenRequest)" where
  "token_blind R nonce r pk =
     (case rsa_pk_from_der R pk of Inl e \<Rightarrow> Inl (Blind e)
      | Inr rsa_pk \<Rightarrow>
          (case rsa_blind R r rsa_pk nonce of Inl e \<Rightarrow> Inl (Blind e)
           | Inr (blind_message, secret, msg_randomizer) \<Rightarrow>
               (case msg_randomizer of
                  None \<Rightarrow> Inl (Blind ''RSABSSA-SHA384-PSS-Randomized blinding did not produce a message randomizer'')
                | Some randomizer \<Rightarrow>
                    (case pc_blind_state R (nonce, blind_message, secret, randomizer) of
                       Inl e \<Rightarrow> Inl (Encoding e)
                     | Inr state_bytes \<Rightarrow> Inr (state_bytes, blind_message)))))"

definition token_issue ::
  "rsa_prims \<Rightarrow> bytes \<Rightarrow> IssuerSecretKey \<Rightarrow> BlindedTokenRequest \<Rightarrow> CryptoError + BlindSignature" where
  "token_issue R r sk req =
     (case rsa_sk_from_der R sk of Inl e \<Rightarrow> Inl (Blind e)
      | Inr rsa_sk \<Rightarrow>
          (case rsa_blind_sign R r rsa_sk req of Inl e \<Rightarrow> Inl (Blind e) | Inr sig \<Rightarrow> Inr sig))"

definition token_unblind ::
  "rsa_prims \<Rightarrow> IssuerPublicKey \<Rightarrow> BlindingState \<Rightarrow> BlindSignature \<Rightarrow> CryptoError + Token" where
  "token_unblind R pk st sig =
     (case pc_blind_state_dec R st of Inl e \<Rightarrow> Inl (Encoding e)
      | Inr (nonce, blind_message, secret, randomizer_bytes) \<Rightarrow>
          (case rsa_pk_from_der R pk of Inl e \<Rightarrow> Inl (Blind e)
           | Inr rsa_pk \<Rightarrow>
               (case rsa_finalize R rsa_pk sig (blind_message, secret, Some randomizer_bytes) nonce of
                  Inl e \<Rightarrow> Inl (Blind e)
                | Inr signature \<Rightarrow> Inr (nonce @ randomizer_bytes @ signature))))"

definition token_verify :: "rsa_prims \<Rightarrow> IssuerPublicKey \<Rightarrow> Token \<Rightarrow> CryptoError + unit" where
  "token_verify R pk token =
     (case split_token token of Inl e \<Rightarrow> Inl e
      | Inr (nonce, randomizer, sig_bytes) \<Rightarrow>
          (if length randomizer \<noteq> 32 then Inl TokenInvalid
           else case rsa_pk_from_der R pk of Inl _ \<Rightarrow> Inl TokenInvalid
                | Inr rsa_pk \<Rightarrow>
                    if rsa_verify R rsa_pk sig_bytes (Some randomizer) nonce
                    then Inr () else Inl TokenInvalid))"

definition token_spend_id :: "prims \<Rightarrow> Token \<Rightarrow> SpendId" where
  "token_spend_id P token = blake3 P token"

section \<open>Facts\<close>

text \<open>
  What RFC 9474 and the encoder promise: \<open>finalize\<close> returns only a
  signature that verifies under the same key, nonce and randomizer, 256 bytes
  long for a 2048-bit modulus; the randomizer is 32 bytes; postcard decodes what it
  encoded.
\<close>

definition rsabssa_correct :: "rsa_prims \<Rightarrow> bool" where
  "rsabssa_correct R \<longleftrightarrow>
     (\<forall>pk bs br nonce sig. rsa_finalize R pk bs br nonce = Inr sig \<longrightarrow>
        length sig = 256 \<and> rsa_verify R pk sig (snd (snd br)) nonce)
     \<and> (\<forall>r pk nonce bm s rz. rsa_blind R r pk nonce = Inr (bm, s, Some rz) \<longrightarrow> length rz = 32)
     \<and> (\<forall>t b. pc_blind_state R t = Inr b \<longrightarrow> pc_blind_state_dec R b = Inr t)"

lemma split_token_append:
  "length a = 32 \<Longrightarrow> length b = 32 \<Longrightarrow> length c = 256 \<Longrightarrow> split_token (a @ b @ c) = Inr (a, b, c)"
  by (simp add: split_token_def subslice_def)

lemma token_verify_length: "token_verify R pk t = Inr () \<Longrightarrow> length t = 320"
  by (auto simp: token_verify_def split_token_def split: if_splits)

lemma token_blind_parts:
  assumes "token_blind R nonce r pk = Inr (st, req)"
  obtains rsa_pk secret rz where "rsa_pk_from_der R pk = Inr rsa_pk"
    and "rsa_blind R r rsa_pk nonce = Inr (req, secret, Some rz)"
    and "pc_blind_state R (nonce, req, secret, rz) = Inr st"
  using assms by (auto simp: token_blind_def split: sum.splits option.splits prod.splits)

text \<open>What unblinds verifies.\<close>

lemma unblinded_token:
  assumes "rsabssa_correct R" and "length nonce = 32"
    and "token_blind R nonce r pk = Inr (st, req)" and "token_unblind R pk st sig = Inr tok"
  shows "token_verify R pk tok = Inr () \<and> length tok = 320"
proof -
  obtain k secret rz where k: "rsa_pk_from_der R pk = Inr k"
    and b: "rsa_blind R r k nonce = Inr (req, secret, Some rz)"
    and st: "pc_blind_state R (nonce, req, secret, rz) = Inr st"
    using token_blind_parts [OF assms(3)] by blast
  have dec: "pc_blind_state_dec R st = Inr (nonce, req, secret, rz)" and rz: "length rz = 32"
    using assms(1) st b by (auto simp: rsabssa_correct_def)
  obtain s where s: "rsa_finalize R k sig (req, secret, Some rz) nonce = Inr s"
    and tok: "tok = nonce @ rz @ s"
    using assms(4) dec k by (auto simp: token_unblind_def split: sum.splits)
  have "length s = 256" and "rsa_verify R k s (Some rz) nonce"
    using assms(1) s by (fastforce simp: rsabssa_correct_def)+
  then show ?thesis
    using assms(2) rz k tok by (simp add: token_verify_def split_token_append)
qed

section \<open>A concrete instance\<close>

definition demo_rsa :: rsa_prims where
  "demo_rsa = \<lparr>
     rsa_generate = (\<lambda>r bits. Inr (r, r)),
     rsa_sk_to_der = Inr, rsa_pk_to_der = Inr, rsa_sk_from_der = Inr, rsa_pk_from_der = Inr,
     rsa_blind = (\<lambda>r pk nonce. Inr (replicate 256 (sum_list nonce), [], Some (replicate 32 0))),
     rsa_blind_sign = (\<lambda>r sk m. Inr m),
     rsa_finalize = (\<lambda>pk bs br nonce.
        if bs = replicate 256 (sum_list nonce) then Inr bs else Inl ''verification failed''),
     rsa_verify = (\<lambda>pk sig rz nonce. sig = replicate 256 (sum_list nonce)),
     pc_blind_state = (\<lambda>(n, bm, s, rz).
        if length n = 32 \<and> s = [] \<and> rz = replicate 32 0 then Inr (n @ bm) else Inl ''encoding''),
     pc_blind_state_dec = (\<lambda>b. Inr (take 32 b, drop 32 b, [], replicate 32 0)) \<rparr>"

lemma demo_rsabssa_correct: "rsabssa_correct demo_rsa"
  by (simp add: rsabssa_correct_def demo_rsa_def)

section \<open>Properties\<close>

text \<open>
  Token round trip. For a blinding state made by \<open>token_blind\<close> over a
  32-byte nonce, every blind signature that \<open>token_unblind\<close> accepts yields
  a 320-byte token that \<open>token_verify\<close> accepts under the same issuer key.
\<close>

lemma token_round_trip:
  assumes "rsabssa_correct R" and "length nonce = 32"
    and "token_blind R nonce r pk = Inr (st, req)" and "token_unblind R pk st sig = Inr tok"
  shows "token_verify R pk tok = Inr () \<and> length tok = 320"
  using assms by (rule unblinded_token)

end
