(* ===== verification/Issuer_Service.thy ===== *)
theory Issuer_Service
  imports Issuer_State Crypto_Tokens
begin

text \<open>
  The issuer service: \<open>lluma-issuer/src/keys.rs\<close> and \<open>service.rs\<close>.
  \<open>Arc<dyn CreditLedger>\<close> and \<open>Arc<dyn SpentSet>\<close> are records of
  functions on a shared world \<open>'w\<close> (the two in-memory maps of the standalone
  issuer, or the broker's durable store). A handler takes the mutable state (the
  idempotency cache and the world) and returns its answer and the new state.
  JSON parsing, base64, the postcard encoding of a batch and the clock are
  parameters; the clock is read once per request, so it is a value.
\<close>

section \<open>Epoch keys (keys.rs)\<close>

record EpochKeys =
  ek_epoch :: u64
  ek_secret :: IssuerSecretKey
  ek_public :: IssuerPublicKey

definition key_id :: "prims \<Rightarrow> EpochKeys \<Rightarrow> bytes" where
  "key_id P k = blake3 P (ek_public k)"

record KeyFile =
  kf_epoch :: u64
  kf_sk_der :: string
  kf_pk_der :: string

record key_codec =
  b64_encode :: "bytes \<Rightarrow> string"
  b64_decode :: "string \<Rightarrow> bytes option"
  kf_to_json :: "KeyFile \<Rightarrow> bytes option"
  kf_of_json :: "bytes \<Rightarrow> KeyFile option"

text \<open>
  Paths are a directory and an optional file name (\<open>Path::file_name\<close> is
  \<open>None\<close> for a path that ends in \<open>..\<close>); the file system maps paths to
  contents. The faults of one run say which system calls fail, and how many
  bytes a failing \<open>write_all\<close> wrote before it failed.
\<close>

type_synonym path = "string \<times> string option"
type_synonym filesystem = "path \<rightharpoonup> bytes"

record fs_faults =
  ff_read :: bool
  ff_open :: bool
  ff_write :: "nat option"
  ff_rename :: bool

definition tmp_path_of :: "path \<Rightarrow> path option" where
  "tmp_path_of p = (case snd p of None \<Rightarrow> None | Some n \<Rightarrow> Some (fst p, Some (n @ ''.tmp'')))"

definition read_keys :: "key_codec \<Rightarrow> fs_faults \<Rightarrow> path \<Rightarrow> filesystem \<Rightarrow> IssuerError + EpochKeys" where
  "read_keys C F path fs =
     (case (if ff_read F then None else fs path) of None \<Rightarrow> Inl Internal
      | Some bs \<Rightarrow>
          (case kf_of_json C bs of None \<Rightarrow> Inl Internal
           | Some kf \<Rightarrow>
               (case b64_decode C (kf_sk_der kf) of None \<Rightarrow> Inl Internal
                | Some sk \<Rightarrow>
                    (case b64_decode C (kf_pk_der kf) of None \<Rightarrow> Inl Internal
                     | Some pk \<Rightarrow> Inr \<lparr>ek_epoch = kf_epoch kf, ek_secret = sk, ek_public = pk\<rparr>))))"

definition persist_atomic ::
  "key_codec \<Rightarrow> fs_faults \<Rightarrow> path \<Rightarrow> EpochKeys \<Rightarrow> filesystem \<Rightarrow> (IssuerError + unit) \<times> filesystem" where
  "persist_atomic C F path keys fs =
     (let kf = \<lparr>kf_epoch = ek_epoch keys, kf_sk_der = b64_encode C (ek_secret keys),
                kf_pk_der = b64_encode C (ek_public keys)\<rparr> in
      case kf_to_json C kf of None \<Rightarrow> (Inl Internal, fs)
      | Some json \<Rightarrow>
          (case tmp_path_of path of None \<Rightarrow> (Inl Internal, fs)
           | Some tmp_path \<Rightarrow>
               if ff_open F \<or> fs tmp_path \<noteq> None then (Inl Internal, fs)
               else
                 (case ff_write F of
                    Some k \<Rightarrow> (Inl Internal, fs(tmp_path \<mapsto> take k json))
                  | None \<Rightarrow>
                      if ff_rename F then (Inl Internal, fs(tmp_path \<mapsto> json))
                      else (Inr (), fs(tmp_path := None, path \<mapsto> json)))))"

definition create_keys ::
  "rsa_prims \<Rightarrow> key_codec \<Rightarrow> bytes \<Rightarrow> fs_faults \<Rightarrow> path \<Rightarrow> u64 \<Rightarrow> filesystem \<Rightarrow>
   (IssuerError + EpochKeys) \<times> filesystem" where
  "create_keys R C r F path epoch fs =
     (case issuer_keygen R r of Inl _ \<Rightarrow> (Inl Internal, fs)
      | Inr (secret, public) \<Rightarrow>
          let keys = \<lparr>ek_epoch = epoch, ek_secret = secret, ek_public = public\<rparr> in
          (case persist_atomic C F path keys fs of
             (Inl e, fs') \<Rightarrow> (Inl e, fs')
           | (Inr _, fs') \<Rightarrow> (Inr keys, fs')))"

definition load_or_create ::
  "rsa_prims \<Rightarrow> key_codec \<Rightarrow> bytes \<Rightarrow> fs_faults \<Rightarrow> path \<Rightarrow> u64 \<Rightarrow> filesystem \<Rightarrow>
   (IssuerError + EpochKeys) \<times> filesystem" where
  "load_or_create R C r F path epoch fs =
     (if fs path \<noteq> None then (read_keys C F path fs, fs) else create_keys R C r F path epoch fs)"

section \<open>Application state (service.rs)\<close>

record 'w CreditLedger =
  cl_balance :: "AccountId \<Rightarrow> 'w \<Rightarrow> u64"
  cl_grant :: "AccountId \<Rightarrow> u64 \<Rightarrow> 'w \<Rightarrow> 'w"
  cl_debit :: "AccountId \<Rightarrow> u64 \<Rightarrow> 'w \<Rightarrow> (IssuerError + unit) \<times> 'w"

record 'w AppState =
  as_keys :: EpochKeys
  as_ledger :: "'w CreditLedger"
  as_spent :: "SpendId \<Rightarrow> 'w \<Rightarrow> InsertOutcome \<times> 'w"
  as_admin_secret :: string
  as_now_unix_s :: u64
  as_issued_observer :: "(u64 \<Rightarrow> u64 \<Rightarrow> 'w \<Rightarrow> 'w) option"

record issuer_ext =
  ix_prims :: prims
  ix_rsa :: rsa_prims
  ix_parse_issue :: "bytes \<Rightarrow> IssueRequest option"
  ix_parse_redeem :: "bytes \<Rightarrow> RedeemRequest option"
  ix_parse_grant :: "bytes \<Rightarrow> GrantRequest option"
  ix_pc_batch :: "BlindedTokenRequest list \<Rightarrow> bytes option"

definition parse_body :: "(bytes \<Rightarrow> 'a option) \<Rightarrow> bytes \<Rightarrow> IssuerError + 'a" where
  "parse_body f b = (case f b of None \<Rightarrow> Inl BadRequest | Some r \<Rightarrow> Inr r)"

text \<open>
  \<open>into_response\<close>: the HTTP status and the stable code of an error. The
  match on the numeric status has no arm for 503.
\<close>

definition into_response_status :: "IssuerError \<Rightarrow> u16" where
  "into_response_status e =
     (let s = IssuerError_status e in
      if s = 402 then 402 else if s = 403 then 403 else if s = 409 then 409
      else if s = 422 then 422 else if s = 500 then 500 else 500)"

definition key_config :: "prims \<Rightarrow> 'w AppState \<Rightarrow> KeyConfigResponse" where
  "key_config P S =
     \<lparr>kc_key_id = key_id P (as_keys S), kc_issuer_public_key = ek_public (as_keys S),
      kc_epoch = ek_epoch (as_keys S), kc_denomination = DENOMINATION\<rparr>"

section \<open>Issue\<close>

text \<open>Steps 1 to 6 of the handler: everything before the first state change.\<close>

definition issue_precheck :: "issuer_ext \<Rightarrow> 'w AppState \<Rightarrow> bytes \<Rightarrow> IssuerError + IssueRequest" where
  "issue_precheck X S body =
     (case parse_body (ix_parse_issue X) body of Inl e \<Rightarrow> Inl e
      | Inr req \<Rightarrow>
          (case IssueRequest_validate req of Inl _ \<Rightarrow> Inl BadRequest
           | Inr _ \<Rightarrow>
               (case issue_request_verify (ix_prims X) (ib_account (ireq_body req)) (ireq_body req)
                       (ireq_auth_sig req) of
                  Inl _ \<Rightarrow> Inl Unauthorized
                | Inr _ \<Rightarrow>
                    if abs_diff (as_now_unix_s S) (ib_ts_unix_s (ireq_body req)) > 600 then Inl BadRequest
                    else if ib_key_id (ireq_body req) \<noteq> key_id (ix_prims X) (as_keys S) then Inl BadRequest
                    else (case ix_pc_batch X (ireq_blinded req) of None \<Rightarrow> Inl Internal
                          | Some bh_bytes \<Rightarrow>
                              if blake3 (ix_prims X) bh_bytes \<noteq> ib_blinded_batch_hash (ireq_body req)
                              then Inl BadRequest else Inr req))))"

text \<open>Step 10's loop; the \<open>i\<close>-th signature draws the randomness \<open>r i\<close>.\<close>

fun sign_batch ::
  "rsa_prims \<Rightarrow> (nat \<Rightarrow> bytes) \<Rightarrow> IssuerSecretKey \<Rightarrow> nat \<Rightarrow> BlindedTokenRequest list \<Rightarrow>
   CryptoError + BlindSignature list" where
  "sign_batch R r sk i [] = Inr []"
| "sign_batch R r sk i (b # bs) =
     (case token_issue R (r i) sk b of Inl e \<Rightarrow> Inl e
      | Inr sig \<Rightarrow> (case sign_batch R r sk (Suc i) bs of Inl e \<Rightarrow> Inl e | Inr sigs \<Rightarrow> Inr (sig # sigs)))"

definition batch_amount :: "IssueRequest \<Rightarrow> u64" where
  "batch_amount req = of_nat (length (ireq_blinded req))"

definition issue_account :: "issuer_ext \<Rightarrow> IssueRequest \<Rightarrow> AccountId" where
  "issue_account X req = account_fingerprint (ix_prims X) (ib_account (ireq_body req))"

definition observe_issued :: "'w AppState \<Rightarrow> u64 \<Rightarrow> 'w \<Rightarrow> 'w" where
  "observe_issued S amount w =
     (case as_issued_observer S of None \<Rightarrow> w | Some obs \<Rightarrow> obs (ek_epoch (as_keys S)) amount w)"

text \<open>Steps 9 to 11, run by the holder of the reservation.\<close>

definition issue_reserved ::
  "issuer_ext \<Rightarrow> 'w AppState \<Rightarrow> (nat \<Rightarrow> bytes) \<Rightarrow> IssueRequest \<Rightarrow>
   IssueIdempotencyCache \<times> 'w \<Rightarrow> (IssuerError + IssueResponse) \<times> IssueIdempotencyCache \<times> 'w" where
  "issue_reserved X S r req st =
     (let (c, w) = st; account_id = issue_account X req; rid = ib_request_id (ireq_body req);
          amount = batch_amount req in
      case cl_debit (as_ledger S) account_id amount w of
        (Inl e, w1) \<Rightarrow> (Inl e, idem_release account_id rid c, w1)
      | (Inr _, w1) \<Rightarrow>
          let w2 = observe_issued S amount w1 in
          (case sign_batch (ix_rsa X) r (ek_secret (as_keys S)) 0 (ireq_blinded req) of
             Inl _ \<Rightarrow> (Inl Internal, idem_release account_id rid c, cl_grant (as_ledger S) account_id amount w2)
           | Inr sigs \<Rightarrow>
               let resp = \<lparr>iresp_key_id = key_id (ix_prims X) (as_keys S), iresp_signatures = sigs\<rparr> in
               (Inr resp, idem_store account_id rid (ib_blinded_batch_hash (ireq_body req)) resp c, w2)))"

definition issue ::
  "issuer_ext \<Rightarrow> 'w AppState \<Rightarrow> (nat \<Rightarrow> bytes) \<Rightarrow> bytes \<Rightarrow>
   IssueIdempotencyCache \<times> 'w \<Rightarrow> (IssuerError + IssueResponse) \<times> IssueIdempotencyCache \<times> 'w" where
  "issue X S r body st =
     (case issue_precheck X S body of Inl e \<Rightarrow> (Inl e, st)
      | Inr req \<Rightarrow>
          (case idem_begin (issue_account X req) (ib_request_id (ireq_body req))
                  (ib_blinded_batch_hash (ireq_body req)) (fst st) of
             (Replay resp, c) \<Rightarrow> (Inr resp, c, snd st)
           | (Conflict, c) \<Rightarrow> (Inl RequestIdConflict, c, snd st)
           | (InFlight, c) \<Rightarrow> (Inl Concurrent, c, snd st)
           | (Reserved, c) \<Rightarrow> issue_reserved X S r req (c, snd st)))"

section \<open>Redeem and admin grant\<close>

definition redeem ::
  "issuer_ext \<Rightarrow> 'w AppState \<Rightarrow> bytes \<Rightarrow> 'w \<Rightarrow> (IssuerError + RedeemResponse) \<times> 'w" where
  "redeem X S body w =
     (case parse_body (ix_parse_redeem X) body of Inl e \<Rightarrow> (Inl e, w)
      | Inr req \<Rightarrow>
          (case RedeemRequest_validate req of Inl _ \<Rightarrow> (Inl IssuerError.TokenInvalid, w)
           | Inr _ \<Rightarrow>
               if rd_key_id req \<noteq> key_id (ix_prims X) (as_keys S) then (Inl IssuerError.TokenInvalid, w)
               else (case token_verify (ix_rsa X) (ek_public (as_keys S)) (rd_token req) of
                       Inl _ \<Rightarrow> (Inl IssuerError.TokenInvalid, w)
                     | Inr _ \<Rightarrow>
                         let spend_id = token_spend_id (ix_prims X) (rd_token req) in
                         (case as_spent S spend_id w of
                            (AlreadySpent, w') \<Rightarrow> (Inl DoubleSpend, w')
                          | (Inserted, w') \<Rightarrow> (Inr \<lparr>rr_spend_id = spend_id\<rparr>, w')))))"

text \<open>The comparison folds every byte pair into one accumulator.\<close>

fun ct_diff :: "bytes \<Rightarrow> bytes \<Rightarrow> u8 \<Rightarrow> u8" where
  "ct_diff (x # xs) (y # ys) diff = ct_diff xs ys (diff OR (x XOR y))"
| "ct_diff _ _ diff = diff"

definition ct_eq :: "string \<Rightarrow> string \<Rightarrow> bool" where
  "ct_eq a b = (if length a \<noteq> length b then False else ct_diff (ascii a) (ascii b) 0 = 0)"

definition admin_grant ::
  "issuer_ext \<Rightarrow> 'w AppState \<Rightarrow> string option \<Rightarrow> bytes \<Rightarrow> 'w \<Rightarrow> (IssuerError + unit) \<times> 'w" where
  "admin_grant X S secret_header body w =
     (let secret = (case secret_header of None \<Rightarrow> '''' | Some s \<Rightarrow> s) in
      if \<not> ct_eq secret (as_admin_secret S) then (Inl Unauthorized, w)
      else (case parse_body (ix_parse_grant X) body of Inl e \<Rightarrow> (Inl e, w)
            | Inr g \<Rightarrow> (Inr (), cl_grant (as_ledger S) (gr_account_id g) (gr_amount g) w)))"



section \<open>Facts about the handlers\<close>

lemma of_char_u8_inj: "(of_char a :: u8) = of_char b \<longleftrightarrow> a = b"
proof
  assume "(of_char a :: u8) = of_char b"
  then have "unat (of_nat (of_char a) :: u8) = unat (of_nat (of_char b) :: u8)"
    by (simp only: of_nat_of_char)
  moreover have "(of_char c :: nat) < 256" for c
    using nat_of_char_less_256 by simp
  ultimately have "(of_char a :: nat) = of_char b"
    by (simp add: unat_of_nat)
  then show "a = b" by simp
qed simp

lemma ascii_inj: "ascii a = ascii b \<longleftrightarrow> a = b"
  unfolding ascii_def by (rule inj_map_eq_map) (simp add: inj_def of_char_u8_inj)

lemma ct_diff_zero:
  "length xs = length ys \<Longrightarrow> ct_diff xs ys d = 0 \<longleftrightarrow> d = 0 \<and> xs = ys"
proof (induction xs ys d rule: ct_diff.induct)
  case (1 x xs y ys diff)
  have "diff OR (x XOR y) = 0 \<longleftrightarrow> diff = 0 \<and> x = y"
    by (auto simp: bit_eq_iff bit_simps)
  with 1 show ?case by auto
qed auto

lemma ct_eq_iff: "ct_eq a b \<longleftrightarrow> a = b"
  by (auto simp: ct_eq_def ct_diff_zero ascii_inj)

lemma sign_batch_length: "sign_batch R r sk i bs = Inr sigs \<Longrightarrow> length sigs = length bs"
  by (induction R r sk i bs arbitrary: sigs rule: sign_batch.induct) (auto split: sum.splits)

lemma precheck_ok:
  assumes "issue_precheck X S body = Inr req"
  shows "1 \<le> length (ireq_blinded req)" and "length (ireq_blinded req) \<le> 64"
proof -
  have "is_ok (IssueRequest_validate req)"
    using assms by (auto simp: issue_precheck_def parse_body_def is_ok_def split: sum.splits option.splits if_splits)
  then show "1 \<le> length (ireq_blinded req)" and "length (ireq_blinded req) \<le> 64"
    by (simp_all add: issue_validate_ok)
qed

lemma unat_batch_amount:
  assumes "issue_precheck X S body = Inr req"
  shows "unat (batch_amount req) = length (ireq_blinded req)"
  using precheck_ok [OF assms] by (simp add: batch_amount_def unat_of_nat)

lemma idem_begin_cases:
  assumes "idem_begin a k h c = (b, c')"
  obtains (Reserved) "b = Reserved" "c (a, k) = None" "c' = c((a, k) \<mapsto> Pending h)"
  | (Replay) resp where "b = Replay resp" "c (a, k) = Some (Done h resp)" "c' = c"
  | (Conflict) h' where "b = Conflict" "h' \<noteq> h" "c' = c" "c (a, k) = Some (Pending h') \<or> (\<exists>resp. c (a, k) = Some (Done h' resp))"
  | (InFlight) "b = InFlight" "c (a, k) = Some (Pending h)" "c' = c"
  using assms by (auto simp: idem_begin_def split: option.splits Entry.splits if_splits)

lemma issue_cases:
  assumes "issue X S r body (c, w) = (res, c', w')"
  obtains (Refused) e where "issue_precheck X S body = Inl e" "res = Inl e" "c' = c" "w' = w"
  | (Replayed) req resp where "issue_precheck X S body = Inr req" "res = Inr resp" "c' = c" "w' = w"
      "c (issue_account X req, ib_request_id (ireq_body req)) = Some (Done (ib_blinded_batch_hash (ireq_body req)) resp)"
  | (Busy) req e where "issue_precheck X S body = Inr req" "res = Inl e" "e = RequestIdConflict \<or> e = Concurrent" "c' = c" "w' = w"
      "c (issue_account X req, ib_request_id (ireq_body req)) \<noteq> None"
  | (Fresh) req where "issue_precheck X S body = Inr req"
      "c (issue_account X req, ib_request_id (ireq_body req)) = None"
      "issue_reserved X S r req (c((issue_account X req, ib_request_id (ireq_body req)) \<mapsto> Pending (ib_blinded_batch_hash (ireq_body req))), w) = (res, c', w')"
proof (cases "issue_precheck X S body")
  case (Inr req)
  obtain b c1 where b: "idem_begin (issue_account X req) (ib_request_id (ireq_body req)) (ib_blinded_batch_hash (ireq_body req)) c = (b, c1)"
    by fastforce
  from b show ?thesis
    by (cases rule: idem_begin_cases) (use assms Inr b that in \<open>auto simp: issue_def\<close>)
qed (use assms that in \<open>auto simp: issue_def\<close>)

lemma issue_reserved_cases:
  assumes "issue_reserved X S r req (c, w) = (res, c', w')"
  obtains (NoCredit) e where "cl_debit (as_ledger S) (issue_account X req) (batch_amount req) w = (Inl e, w')"
      "res = Inl e" "c' = idem_release (issue_account X req) (ib_request_id (ireq_body req)) c"
  | (SignFailed) w1 where "cl_debit (as_ledger S) (issue_account X req) (batch_amount req) w = (Inr (), w1)"
      "res = Inl Internal" "c' = idem_release (issue_account X req) (ib_request_id (ireq_body req)) c"
      "w' = cl_grant (as_ledger S) (issue_account X req) (batch_amount req) (observe_issued S (batch_amount req) w1)"
  | (Issued) w1 sigs where "cl_debit (as_ledger S) (issue_account X req) (batch_amount req) w = (Inr (), w1)"
      "length sigs = length (ireq_blinded req)"
      "res = Inr \<lparr>iresp_key_id = key_id (ix_prims X) (as_keys S), iresp_signatures = sigs\<rparr>"
      "c' = idem_store (issue_account X req) (ib_request_id (ireq_body req)) (ib_blinded_batch_hash (ireq_body req))
              \<lparr>iresp_key_id = key_id (ix_prims X) (as_keys S), iresp_signatures = sigs\<rparr> c"
      "w' = observe_issued S (batch_amount req) w1"
  using assms that
  by (auto simp: issue_reserved_def Let_def dest: sign_batch_length split: prod.splits sum.splits)


text \<open>
  The issuer over any ledger that keeps the contract, with an observer that
  leaves balances alone: what one issue request does to every balance.
\<close>

locale metered_issuer =
  credit_ledger bal "\<lambda>_ :: unit. cl_grant (as_ledger S)" "\<lambda>_. cl_debit (as_ledger S)"
  for bal :: "'w \<Rightarrow> AccountId \<Rightarrow> u64" and S :: "'w AppState" +
  assumes observe_bal: "bal (observe_issued S n w) = bal w"
begin

lemma issue_ok_charges:
  assumes "issue X S r body (c, w) = (Inr resp, c', w')"
  obtains (Replayed) "c' = c" "w' = w" "\<exists>k h. c k = Some (Done h resp)"
  | (Charged) req where "issue_precheck X S body = Inr req"
      "unat (bal w' (issue_account X req)) + length (iresp_signatures resp) = unat (bal w (issue_account X req))"
      "\<And>b. b \<noteq> issue_account X req \<Longrightarrow> bal w' b = bal w b"
      "length (iresp_signatures resp) = length (ireq_blinded req)"
  using assms
proof (cases rule: issue_cases)
  case (Fresh req)
  from Fresh(3) show ?thesis
  proof (cases rule: issue_reserved_cases)
    case (Issued w1 sigs)
    have "bal w' b = bal w b" if "b \<noteq> issue_account X req" for b
      using debit_other [OF that, of "batch_amount req" w] Issued by (simp add: observe_bal)
    then show ?thesis
      using debit_exact [OF Issued(1), of "issue_account X req"] Issued unat_batch_amount [OF Fresh(1)]
      by (intro Charged [OF Fresh(1)]) (simp_all add: observe_bal)
  qed simp_all
qed (use that in auto)

lemma issue_err_keeps:
  assumes "issue X S r body (c, w) = (Inl e, c', w')"
  shows "unat (bal w' a) \<le> unat (bal w a)"
  using assms
proof (cases rule: issue_cases)
  case (Fresh req)
  from Fresh(3) show ?thesis
  proof (cases rule: issue_reserved_cases)
    case (NoCredit e)
    then show ?thesis using debit_exact [OF NoCredit(1), of a] by simp
  next
    case (SignFailed w1)
    let ?n = "batch_amount req" and ?b = "issue_account X req"
    show ?thesis
      using debit_exact [OF SignFailed(1), of a] SignFailed(4)
        grant_le [of ?b ?n "observe_issued S ?n w1" a]
      by (auto simp: observe_bal split: if_splits)
  qed simp_all
qed simp_all

lemma issue_released_bound:
  assumes "issue X S r body (c, w) = (res, c', w')"
  shows "unat (bal w' a) \<le> unat (bal w a)"
proof (cases res)
  case (Inl e)
  then show ?thesis using issue_err_keeps assms by blast
next
  case (Inr resp)
  with assms have "issue X S r body (c, w) = (Inr resp, c', w')" by simp
  then show ?thesis by (cases rule: issue_ok_charges) (auto, metis le_add1 order.refl)
qed

end

text \<open>The standalone issuer of \<open>main.rs\<close>: in-memory ledger and spent set, no observer.\<close>

definition standalone :: "EpochKeys \<Rightarrow> string \<Rightarrow> u64 \<Rightarrow> (InMemoryLedger \<times> InMemorySpentSet) AppState" where
  "standalone keys admin now =
     \<lparr>as_keys = keys,
      as_ledger = \<lparr>cl_balance = (\<lambda>a w. mem_balance (fst w) a),
                   cl_grant = (\<lambda>a n w. (mem_grant a n (fst w), snd w)),
                   cl_debit = (\<lambda>a n w. let (res, l) = mem_debit a n (fst w) in (res, (l, snd w)))\<rparr>,
      as_spent = (\<lambda>i w. let (res, s) = mem_spent_insert i (snd w) in (res, (fst w, s))),
      as_admin_secret = admin, as_now_unix_s = now, as_issued_observer = None\<rparr>"

interpretation standalone: metered_issuer "\<lambda>w. mem_balance (fst w)" "standalone keys admin now"
proof unfold_locales
  fix f :: unit and a b n w w' e u
  show "mem_balance (fst (cl_grant (as_ledger (standalone keys admin now)) a n w)) a = sat_add (mem_balance (fst w) a) n \<or>
    mem_balance (fst (cl_grant (as_ledger (standalone keys admin now)) a n w)) a = mem_balance (fst w) a"
    using mem_ledger.grant_self by (simp add: standalone_def)
  show "b \<noteq> a \<Longrightarrow> mem_balance (fst (snd (cl_debit (as_ledger (standalone keys admin now)) a n w))) b = mem_balance (fst w) b"
    using mem_ledger.debit_other [of b a n "fst w"] by (auto simp: standalone_def split: prod.splits)
qed (auto simp: standalone_def observe_issued_def mem_ledger.grant_other
  mem_ledger.debit_ok mem_ledger.debit_err split: prod.splits)

section \<open>Concrete instances\<close>

definition demo_body :: IssueRequestBody where
  "demo_body = \<lparr>ib_version = 1, ib_account = replicate 32 3, ib_key_id = 7 # replicate 31 0,
     ib_request_id = replicate 32 5, ib_ts_unix_s = 1000,
     ib_blinded_batch_hash = replicate 32 8\<rparr>"

definition demo_request :: IssueRequest where
  "demo_request = \<lparr>ireq_body = demo_body, ireq_blinded = [replicate 256 8, replicate 256 8],
     ireq_auth_sig = demo_sig (replicate 32 3) (ISSUE_REQUEST_DOMAIN
       @ replicate 32 3 @ (7 # replicate 31 0) @ replicate 32 5 @ replicate 32 8)\<rparr>"

definition demo_token :: Token where
  "demo_token = replicate 32 1 @ replicate 32 0 @ replicate 256 32"

definition demo_ext :: issuer_ext where
  "demo_ext = \<lparr>ix_prims = demo_prims, ix_rsa = demo_rsa,
     ix_parse_issue = (\<lambda>b. if b = [1] then Some demo_request else None),
     ix_parse_redeem = (\<lambda>b. if b = [2] then Some \<lparr>rd_key_id = 7 # replicate 31 0, rd_token = demo_token\<rparr> else None),
     ix_parse_grant = (\<lambda>b. if b = [3] then Some \<lparr>gr_account_id = replicate 32 3, gr_amount = 5\<rparr> else None),
     ix_pc_batch = (\<lambda>bs. Some (concat bs))\<rparr>"

definition demo_keys :: EpochKeys where
  "demo_keys = \<lparr>ek_epoch = 1, ek_secret = [9], ek_public = [7]\<rparr>"

definition demo_ledger :: InMemoryLedger where
  "demo_ledger = [replicate 32 3 \<mapsto> 5]"

definition demo_response :: IssueResponse where
  "demo_response = \<lparr>iresp_key_id = 7 # replicate 31 0, iresp_signatures = [replicate 256 8, replicate 256 8]\<rparr>"

definition demo_cache :: IssueIdempotencyCache where
  "demo_cache = [(replicate 32 3, replicate 32 5) \<mapsto> Done (replicate 32 8) demo_response]"


lemmas demo_defs = demo_body_def demo_request_def demo_ext_def demo_keys_def demo_prims_def demo_rsa_def

lemma demo_precheck: "issue_precheck demo_ext (standalone demo_keys ''s'' 1000) [1] = Inr demo_request"
  by (simp add: issue_precheck_def parse_body_def IssueRequest_validate_def ISSUE_BATCH_MAX_def
    issue_request_verify_def verify_msg_def verifying_key_def issue_canonical_def with_domain_def
    standalone_def abs_diff_def key_id_def demo_defs demo_sig_def)

lemma demo_issue: "issue demo_ext (standalone demo_keys ''s'' 1000) (\<lambda>_. []) [1] (idem_new, demo_ledger, {})
  = (Inr demo_response, demo_cache, ([replicate 32 3 \<mapsto> 3], {}))"
  by (simp add: issue_def demo_precheck) (simp add: issue_reserved_def idem_begin_def idem_new_def idem_store_def issue_account_def
    account_fingerprint_def batch_amount_def standalone_def observe_issued_def mem_debit_def mem_entry_def
    token_issue_def demo_ledger_def demo_cache_def demo_response_def key_id_def demo_defs Let_def)

section \<open>Properties\<close>

lemma issue_ok_cached:
  assumes "issue X S r body (c, w) = (Inr resp, c', w')"
  obtains req where "issue_precheck X S body = Inr req"
    and "c' (issue_account X req, ib_request_id (ireq_body req))
           = Some (Done (ib_blinded_batch_hash (ireq_body req)) resp)"
  using assms
proof (cases rule: issue_cases)
  case (Fresh req)
  from Fresh(3) show ?thesis
    by (cases rule: issue_reserved_cases) (use that Fresh(1) in \<open>auto simp: idem_store_def\<close>)
qed (use that in auto)

text \<open>
  Issuing is idempotent. After a request was answered with signatures, the same
  request sent again is answered with the same signatures, and neither the
  ledger nor the cache changes: the account is not debited a second time.
\<close>

lemma issue_retry_is_free:
  assumes "issue X S r body (c, w) = (Inr resp, c', w')"
  shows "issue X S r' body (c', w'') = (Inr resp, c', w'')"
proof -
  obtain req where "issue_precheck X S body = Inr req"
    and "c' (issue_account X req, ib_request_id (ireq_body req))
           = Some (Done (ib_blinded_batch_hash (ireq_body req)) resp)"
    using issue_ok_cached [OF assms] by blast
  then show ?thesis by (simp add: issue_def idem_begin_def)
qed

text \<open>
  Accounting of one issue request at the standalone issuer. Answered with
  signatures, it is either a replay that changes nothing or takes from the
  requesting account exactly one credit per signature and nothing from any
  other account; refused for any reason (bad request, no credit, conflict,
  signing failure after the debit), it leaves every balance as it was.
\<close>

lemma standalone_issue_accounting:
  assumes "issue X (standalone keys admin now) r body (c, l, s) = (res, c', l', s')"
  shows "s' = s \<and>
    (case res of
       Inl e \<Rightarrow> mem_balance l' = mem_balance l
     | Inr resp \<Rightarrow>
         (l' = l \<and> (\<exists>k h. c k = Some (Done h resp))) \<or>
         (\<exists>req. issue_precheck X (standalone keys admin now) body = Inr req
            \<and> unat (mem_balance l' (issue_account X req)) + length (iresp_signatures resp)
                = unat (mem_balance l (issue_account X req))
            \<and> (\<forall>b. b \<noteq> issue_account X req \<longrightarrow> mem_balance l' b = mem_balance l b)))"
  using assms
proof (cases rule: issue_cases)
  case (Fresh req)
  let ?S = "standalone keys admin now"
  from Fresh(3) show ?thesis
  proof (cases rule: issue_reserved_cases)
    case (NoCredit e)
    then show ?thesis
      by (auto simp: standalone_def mem_debit_def mem_balance_def mem_entry_def Let_def
        split: prod.splits if_splits)
  next
    case (SignFailed w1)
    then show ?thesis
      by (auto simp: standalone_def observe_issued_def mem_debit_def mem_grant_def mem_balance_def
        mem_entry_def Let_def sat_add_sub split: prod.splits if_splits)
  next
    case (Issued w1 sigs)
    then have s: "s' = s"
      by (auto simp: standalone_def observe_issued_def split: prod.splits)
    obtain resp where res: "res = Inr resp" using Issued by blast
    then have "issue X ?S r body (c, l, s) = (Inr resp, c', l', s')" using assms by simp
    then show ?thesis
      by (cases rule: standalone.issue_ok_charges) (use res s in auto)
  qed
qed auto

text \<open>
  An empty admin secret is fail-open. When the configured secret is the empty
  string, a grant request with no secret header at all is accepted. The
  issuer's own \<open>main.rs\<close> refuses an empty secret; the co-located broker's
  \<open>main.rs\<close> only requires the variable to be set.
\<close>

lemma admin_grant_empty_secret:
  assumes "as_admin_secret S = ''''" and "ix_parse_grant X body = Some g"
  shows "admin_grant X S None body w = (Inr (), cl_grant (as_ledger S) (gr_account_id g) (gr_amount g) w)"
  using assms by (simp add: admin_grant_def parse_body_def ct_eq_iff)

text \<open>
  The HTTP status sent for an error is the status the error declares, except
  for the concurrent-duplicate error: it declares 503 and is sent as 500.
\<close>

lemma into_response_status_exact:
  "into_response_status e = (if e = Concurrent then 500 else IssuerError_status e)"
  by (cases e) (simp_all add: into_response_status_def)

text \<open>
  The key file is replaced atomically. Whatever system call fails, and
  wherever, the file at the target path afterwards holds its old contents or
  the complete new JSON, and no file other than it and its \<open>.tmp\<close>
  neighbour changed.
\<close>

lemma persist_atomic_all_or_nothing:
  assumes "persist_atomic C F path keys fs = (res, fs')" and "tmp_path_of path = Some tmp"
    and "kf_to_json C \<lparr>kf_epoch = ek_epoch keys, kf_sk_der = b64_encode C (ek_secret keys),
           kf_pk_der = b64_encode C (ek_public keys)\<rparr> = Some json"
  shows "(fs' path = fs path \<or> fs' path = Some json) \<and> (is_ok res \<longrightarrow> fs' path = Some json \<and> fs' tmp = None)
    \<and> (\<forall>q. q \<noteq> path \<and> q \<noteq> tmp \<longrightarrow> fs' q = fs q)"
proof -
  have "tmp \<noteq> path"
    using assms(2) by (cases path) (auto simp: tmp_path_of_def split: option.splits)
  with assms show ?thesis
    by (auto simp: persist_atomic_def Let_def split: if_splits option.splits)
qed

definition demo_codec :: key_codec where
  "demo_codec = \<lparr>b64_encode = (\<lambda>b. map (\<lambda>x. char_of (unat x)) b), b64_decode = (\<lambda>s. Some (ascii s)),
     kf_to_json = (\<lambda>k. Some (to_le_bytes 8 (kf_epoch k))), kf_of_json = (\<lambda>b. None)\<rparr>"

definition no_faults :: fs_faults where
  "no_faults = \<lparr>ff_read = False, ff_open = False, ff_write = None, ff_rename = False\<rparr>"

text \<open>
  A crash between writing the temporary key file and renaming it blocks every
  later start. If the \<open>.tmp\<close> file is there and the key file is not,
  \<open>load_or_create\<close> fails with \<open>Internal\<close> whatever the random
  bytes, and leaves the file system as it was, so the next attempt fails too.
\<close>

lemma stale_tmp_blocks_create:
  assumes "fs path = None" and "tmp_path_of path = Some tmp" and "fs tmp \<noteq> None"
  shows "load_or_create R C r F path epoch fs = (Inl Internal, fs)"
  using assms
  by (auto simp: load_or_create_def create_keys_def persist_atomic_def Let_def split: sum.splits option.splits)

end
