(* ===== verification/Issuer_Concurrency.thy ===== *)
theory Issuer_Concurrency
  imports Issuer_Service
begin

text \<open>
  Concurrent issue requests. The handler \<open>issue\<close> of
  \<open>lluma-issuer/src/service.rs\<close> has no await point, but many run in
  parallel, so their critical sections interleave: the reservation, the debit,
  the observer, the refund, the release and the store are separate lock
  acquisitions or transactions. Here each is one step of a task, the tasks run
  in any order, and the world changes under them in any way in between.
\<close>

section \<open>The handler as a sequence of critical sections\<close>

datatype issue_task =
    Start bytes
  | Holding IssueRequest
  | Unpaid IssuerError IssueRequest
  | Charged IssueRequest
  | Observed IssueRequest
  | Unsigned IssueRequest
  | Refunded IssueRequest
  | Signed IssueRequest IssueResponse
  | Refused IssuerError
  | Replayed IssueRequest IssueResponse
  | Issued IssueRequest IssueResponse
  | Failed IssueRequest
  | Lost IssueRequest
  | Gone

text \<open>
  The last six are final: an answer was given, or (\<open>Lost\<close>, \<open>Gone\<close>) the
  process stopped after or before the account was charged.
\<close>

fun issue_task_step ::
  "issuer_ext \<Rightarrow> 'w AppState \<Rightarrow> (nat \<Rightarrow> bytes) \<Rightarrow> issue_task \<Rightarrow> IssueIdempotencyCache \<times> 'w \<Rightarrow>
   issue_task \<times> IssueIdempotencyCache \<times> 'w" where
  "issue_task_step X S r (Start body) (c, w) =
     (case issue_precheck X S body of Inl e \<Rightarrow> (Refused e, c, w)
      | Inr req \<Rightarrow>
          (case idem_begin (issue_account X req) (ib_request_id (ireq_body req))
                  (ib_blinded_batch_hash (ireq_body req)) c of
             (Replay resp, c') \<Rightarrow> (Replayed req resp, c', w)
           | (Conflict, c') \<Rightarrow> (Refused RequestIdConflict, c', w)
           | (InFlight, c') \<Rightarrow> (Refused Concurrent, c', w)
           | (Reserved, c') \<Rightarrow> (Holding req, c', w)))"
| "issue_task_step X S r (Holding req) (c, w) =
     (case cl_debit (as_ledger S) (issue_account X req) (batch_amount req) w of
        (Inl e, w') \<Rightarrow> (Unpaid e req, c, w')
      | (Inr _, w') \<Rightarrow> (Charged req, c, w'))"
| "issue_task_step X S r (Unpaid e req) (c, w) =
     (Refused e, idem_release (issue_account X req) (ib_request_id (ireq_body req)) c, w)"
| "issue_task_step X S r (Charged req) (c, w) = (Observed req, c, observe_issued S (batch_amount req) w)"
| "issue_task_step X S r (Observed req) (c, w) =
     (case sign_batch (ix_rsa X) r (ek_secret (as_keys S)) 0 (ireq_blinded req) of
        Inl _ \<Rightarrow> (Unsigned req, c, w)
      | Inr sigs \<Rightarrow> (Signed req \<lparr>iresp_key_id = key_id (ix_prims X) (as_keys S), iresp_signatures = sigs\<rparr>, c, w))"
| "issue_task_step X S r (Unsigned req) (c, w) =
     (Refunded req, c, cl_grant (as_ledger S) (issue_account X req) (batch_amount req) w)"
| "issue_task_step X S r (Refunded req) (c, w) =
     (Failed req, idem_release (issue_account X req) (ib_request_id (ireq_body req)) c, w)"
| "issue_task_step X S r (Signed req resp) (c, w) =
     (Issued req resp, idem_store (issue_account X req) (ib_request_id (ireq_body req))
        (ib_blinded_batch_hash (ireq_body req)) resp c, w)"
| "issue_task_step X S r t (c, w) = (t, c, w)"

fun answer_of :: "issue_task \<Rightarrow> (IssuerError + IssueResponse) option" where
  "answer_of (Refused e) = Some (Inl e)"
| "answer_of (Failed req) = Some (Inl Internal)"
| "answer_of (Replayed req resp) = Some (Inr resp)"
| "answer_of (Issued req resp) = Some (Inr resp)"
| "answer_of _ = None"

definition issue_run ::
  "issuer_ext \<Rightarrow> 'w AppState \<Rightarrow> (nat \<Rightarrow> bytes) \<Rightarrow> nat \<Rightarrow> issue_task \<times> IssueIdempotencyCache \<times> 'w \<Rightarrow>
   issue_task \<times> IssueIdempotencyCache \<times> 'w" where
  "issue_run X S r n = (\<lambda>(t, st). issue_task_step X S r t st) ^^ n"

section \<open>Interleaved tasks\<close>

type_synonym 'w issuer_sys = "issue_task list \<times> IssueIdempotencyCache \<times> 'w"

text \<open>
  Any request may arrive, any task may take its next step under any of the
  application states \<open>SS\<close> (the clock and the storage faults differ from step
  to step), and the other handlers may change the world arbitrarily.
\<close>

inductive issuer_step :: "issuer_ext \<Rightarrow> 'w AppState set \<Rightarrow> 'w issuer_sys \<Rightarrow> 'w issuer_sys \<Rightarrow> bool"
  for X :: issuer_ext and SS :: "'w AppState set" where
  arrive: "issuer_step X SS (ts, c, w) (ts @ [Start body], c, w)"
| advance: "i < length ts \<Longrightarrow> S \<in> SS \<Longrightarrow> issue_task_step X S r (ts ! i) (c, w) = (t, c', w') \<Longrightarrow>
    issuer_step X SS (ts, c, w) (ts[i := t], c', w')"
| world: "issuer_step X SS (ts, c, w) (ts, c, w')"

definition issuer_reachable :: "issuer_ext \<Rightarrow> 'w AppState set \<Rightarrow> 'w issuer_sys \<Rightarrow> bool" where
  "issuer_reachable X SS s \<longleftrightarrow> (\<exists>w. (issuer_step X SS)\<^sup>*\<^sup>* ([], idem_new, w) s)"

definition task_key :: "issuer_ext \<Rightarrow> IssueRequest \<Rightarrow> AccountId \<times> bytes" where
  "task_key X req = (issue_account X req, ib_request_id (ireq_body req))"

definition task_hash :: "IssueRequest \<Rightarrow> bytes" where
  "task_hash req = ib_blinded_batch_hash (ireq_body req)"

text \<open>The request a task has reserved the slot for, and the request it has answered with signatures.\<close>

fun reserved_for :: "issue_task \<Rightarrow> IssueRequest option" where
  "reserved_for (Holding req) = Some req"
| "reserved_for (Unpaid e req) = Some req"
| "reserved_for (Charged req) = Some req"
| "reserved_for (Observed req) = Some req"
| "reserved_for (Unsigned req) = Some req"
| "reserved_for (Refunded req) = Some req"
| "reserved_for (Signed req resp) = Some req"
| "reserved_for _ = None"

fun answered_with :: "issue_task \<Rightarrow> (IssueRequest \<times> IssueResponse) option" where
  "answered_with (Replayed req resp) = Some (req, resp)"
| "answered_with (Issued req resp) = Some (req, resp)"
| "answered_with _ = None"

text \<open>The request whose batch a task has taken from the ledger and not given back.\<close>

fun charged_for :: "issue_task \<Rightarrow> IssueRequest option" where
  "charged_for (Charged req) = Some req"
| "charged_for (Observed req) = Some req"
| "charged_for (Unsigned req) = Some req"
| "charged_for (Signed req resp) = Some req"
| "charged_for (Issued req resp) = Some req"
| "charged_for (Lost req) = Some req"
| "charged_for _ = None"

text \<open>The request a task occupies its slot for: reserved, or answered by this very task.\<close>

fun slot_of :: "issue_task \<Rightarrow> IssueRequest option" where
  "slot_of (Issued req resp) = Some req"
| "slot_of t = reserved_for t"

section \<open>What a step does to the reservations\<close>

lemma task_step_cases:
  assumes "issue_task_step X S r t (c, w) = (t', c', w')"
  obtains (Quiet) "c' = c" "reserved_for t' = reserved_for t" "slot_of t' = slot_of t"
      "\<And>req resp. answered_with t' = Some (req, resp) \<Longrightarrow>
         answered_with t = Some (req, resp) \<or> c (task_key X req) = Some (Done (task_hash req) resp)"
      "\<And>req. charged_for t' = Some req \<Longrightarrow> slot_of t' = Some req \<or> t' = t"
  | (Reserve) req where "slot_of t = None" "t' = Holding req" "c (task_key X req) = None"
      "c' = c(task_key X req \<mapsto> Pending (task_hash req))"
  | (Release) req where "reserved_for t = Some req" "slot_of t = Some req" "slot_of t' = None" "reserved_for t' = None"
      "charged_for t' = None" "answered_with t' = None" "c' = c(task_key X req := None)"
  | (Settle) req resp where "reserved_for t = Some req" "slot_of t = Some req" "t' = Issued req resp"
      "c' = c(task_key X req \<mapsto> Done (task_hash req) resp)"
proof (cases t)
  case (Start body)
  show ?thesis
  proof (cases "issue_precheck X S body")
    case (Inr req)
    obtain b c1 where b: "idem_begin (issue_account X req) (ib_request_id (ireq_body req)) (ib_blinded_batch_hash (ireq_body req)) c = (b, c1)"
      by fastforce
    from b show ?thesis
    proof (cases rule: idem_begin_cases)
      case Reserved
      with assms Start Inr b show ?thesis by (intro Reserve [of req]) (simp_all add: task_key_def task_hash_def)
    next
      case (Replay resp)
      with assms Start Inr b show ?thesis by (intro Quiet) (auto simp: task_key_def task_hash_def)
    next
      case (Conflict h')
      with assms Start Inr b show ?thesis by (intro Quiet) auto
    next
      case InFlight
      with assms Start Inr b show ?thesis by (intro Quiet) auto
    qed
  next
    case (Inl e)
    with assms Start show ?thesis by (intro Quiet) auto
  qed
next
  case (Holding req)
  with assms show ?thesis by (intro Quiet) (auto split: prod.splits sum.splits)
next
  case (Observed req)
  with assms show ?thesis by (intro Quiet) (auto split: sum.splits)
next
  case (Unpaid e req)
  with assms show ?thesis by (intro Release [of req]) (auto simp: idem_release_def task_key_def)
next
  case (Refunded req)
  with assms show ?thesis by (intro Release [of req]) (auto simp: idem_release_def task_key_def)
next
  case (Signed req resp)
  with assms show ?thesis by (intro Settle [of req resp]) (auto simp: idem_store_def task_key_def task_hash_def)
next
  case (Charged req)
  with assms show ?thesis by (intro Quiet) auto
next
  case (Unsigned req)
  with assms show ?thesis by (intro Quiet) auto
qed (use assms Quiet in \<open>fastforce+\<close>)

definition issuer_inv :: "issuer_ext \<Rightarrow> 'w issuer_sys \<Rightarrow> bool" where
  "issuer_inv X s = (case s of (ts, c, w) \<Rightarrow>
     (\<forall>i j p q. i < length ts \<and> j < length ts \<and> i \<noteq> j \<and> slot_of (ts ! i) = Some p \<and> slot_of (ts ! j) = Some q
        \<longrightarrow> task_key X p \<noteq> task_key X q)
     \<and> (\<forall>t\<in>set ts. \<forall>q. reserved_for t = Some q \<longrightarrow> c (task_key X q) = Some (Pending (task_hash q)))
     \<and> (\<forall>t\<in>set ts. \<forall>q resp. answered_with t = Some (q, resp) \<longrightarrow> c (task_key X q) = Some (Done (task_hash q) resp))
     \<and> (\<forall>t\<in>set ts. \<forall>q. charged_for t = Some q \<longrightarrow> slot_of t = Some q))"

lemma issuer_invD:
  assumes "issuer_inv X (ts, c, w)"
  shows "i < length ts \<Longrightarrow> j < length ts \<Longrightarrow> i \<noteq> j \<Longrightarrow> slot_of (ts ! i) = Some p
      \<Longrightarrow> slot_of (ts ! j) = Some q \<Longrightarrow> task_key X p \<noteq> task_key X q"
    and "i < length ts \<Longrightarrow> reserved_for (ts ! i) = Some q \<Longrightarrow> c (task_key X q) = Some (Pending (task_hash q))"
    and "i < length ts \<Longrightarrow> answered_with (ts ! i) = Some (q, resp) \<Longrightarrow> c (task_key X q) = Some (Done (task_hash q) resp)"
    and "i < length ts \<Longrightarrow> charged_for (ts ! i) = Some q \<Longrightarrow> slot_of (ts ! i) = Some q"
  using assms nth_mem [of i ts] unfolding issuer_inv_def prod.case by blast+

lemma slot_cases: "slot_of t = Some q \<Longrightarrow> reserved_for t = Some q \<or> (\<exists>resp. answered_with t = Some (q, resp))"
  by (cases t) auto

lemma slot_of_reserved: "reserved_for t = Some q \<Longrightarrow> slot_of t = Some q"
  by (cases t) auto

text \<open>
  A step keeps the invariant when it touches only the slot its task has reserved,
  or a free one, and leaves its own task consistent with the cache.
\<close>

lemma issuer_inv_update:
  assumes inv: "issuer_inv X (ts, c, w)" and i: "i < length ts"
    and slot: "\<And>q. slot_of t' = Some q \<Longrightarrow> slot_of (ts ! i) = Some q \<or> c (task_key X q) = None"
    and cache: "\<And>k. c' k \<noteq> c k \<Longrightarrow> map_option (task_key X) (reserved_for (ts ! i)) = Some k \<or> c k = None"
    and own: "\<And>q. reserved_for t' = Some q \<Longrightarrow> c' (task_key X q) = Some (Pending (task_hash q))"
      "\<And>q resp. answered_with t' = Some (q, resp) \<Longrightarrow> c' (task_key X q) = Some (Done (task_hash q) resp)"
      "\<And>q. charged_for t' = Some q \<Longrightarrow> slot_of t' = Some q"
  shows "issuer_inv X (ts[i := t'], c', w')"
proof -
  note D = issuer_invD(1) [OF inv] and P = issuer_invD(2) [OF inv] and A = issuer_invD(3) [OF inv] and C = issuer_invD(4) [OF inv]
  have taken: "c (task_key X q) \<noteq> None" if "j < length ts" "slot_of (ts ! j) = Some q" for j q
    using slot_cases [OF that(2)] P [OF that(1)] A [OF that(1)] by auto
  have kept: "c' (task_key X q) = c (task_key X q)"
    if j: "j < length ts" "j \<noteq> i" and u: "reserved_for (ts ! j) = Some q \<or> answered_with (ts ! j) = Some (q, resp)" for j q resp
  proof (rule ccontr)
    assume ne: "c' (task_key X q) \<noteq> c (task_key X q)"
    have "c (task_key X q) \<noteq> None" using u P [OF j(1), of q] A [OF j(1), of q resp] by auto
    then obtain p where p: "reserved_for (ts ! i) = Some p" "task_key X p = task_key X q"
      using cache [OF ne] by auto
    then have "reserved_for (ts ! j) \<noteq> Some q"
      using D [OF i j(1) j(2) [symmetric] slot_of_reserved [OF p(1)]] slot_of_reserved by metis
    then show False using u P [OF i p(1)] A [OF j(1), of q resp] p(2) by simp
  qed
  have new: "task_key X p \<noteq> task_key X q"
    if "j < length ts" "j \<noteq> i" "slot_of t' = Some p" "slot_of (ts ! j) = Some q" for j p q
  proof (cases "slot_of (ts ! i) = Some p")
    case True
    then show ?thesis using D [OF i that(1) that(2) [symmetric] _ that(4)] by blast
  next
    case False
    then show ?thesis using slot [OF that(3)] taken [OF that(1,4)] by auto
  qed
  have "task_key X p \<noteq> task_key X q"
    if "j < length ts" "k < length ts" "j \<noteq> k" "slot_of (ts[i := t'] ! j) = Some p" "slot_of (ts[i := t'] ! k) = Some q" for j k p q
    using that D [OF that(1,2,3), of p q] new [of j q p] new [of k p q] by (cases "j = i"; cases "k = i") auto
  moreover have "reserved_for u = Some q \<Longrightarrow> c' (task_key X q) = Some (Pending (task_hash q))"
    and "answered_with u = Some (q, resp) \<Longrightarrow> c' (task_key X q) = Some (Done (task_hash q) resp)"
    and "charged_for u = Some q \<Longrightarrow> slot_of u = Some q" if u: "u \<in> set (ts[i := t'])" for u q resp
  proof -
    obtain j where j: "j < length ts" "u = (if j = i then t' else ts ! j)"
      using u by (auto simp: in_set_conv_nth nth_list_update)
    show "reserved_for u = Some q \<Longrightarrow> c' (task_key X q) = Some (Pending (task_hash q))"
      using own(1) P [OF j(1), of q] kept [OF j(1), of q] j(2) by (cases "j = i") auto
    show "answered_with u = Some (q, resp) \<Longrightarrow> c' (task_key X q) = Some (Done (task_hash q) resp)"
      using own(2) A [OF j(1), of q resp] kept [OF j(1), of q resp] j(2) by (cases "j = i") auto
    show "charged_for u = Some q \<Longrightarrow> slot_of u = Some q"
      using own(3) C j by (auto split: if_splits)
  qed
  ultimately show ?thesis
    unfolding issuer_inv_def prod.case length_list_update by blast
qed

lemma issuer_inv_advance:
  assumes inv: "issuer_inv X (ts, c, w)" and i: "i < length ts"
    and step: "issue_task_step X S r (ts ! i) (c, w) = (t', c', w')"
  shows "issuer_inv X (ts[i := t'], c', w')"
proof -
  note old = issuer_invD(2-4) [OF inv i]
  from step show ?thesis
  proof (cases rule: task_step_cases)
    case Quiet
    show ?thesis
      by (rule issuer_inv_update [OF inv i]) (use Quiet old in \<open>fastforce+\<close>)
  next
    case (Reserve req)
    show ?thesis
      by (rule issuer_inv_update [OF inv i]) (use Reserve in \<open>auto split: if_splits\<close>)
  next
    case (Release req)
    show ?thesis
      by (rule issuer_inv_update [OF inv i]) (use Release in \<open>auto split: if_splits\<close>)
  next
    case (Settle req resp)
    show ?thesis
      by (rule issuer_inv_update [OF inv i]) (use Settle in \<open>auto split: if_splits\<close>)
  qed
qed

lemma issuer_inv_step: "issuer_step X SS s s' \<Longrightarrow> issuer_inv X s \<Longrightarrow> issuer_inv X s'"
proof (induction rule: issuer_step.induct)
  case (arrive ts c w body)
  then show ?case by (auto simp: issuer_inv_def nth_append less_Suc_eq)
next
  case (advance i ts S r c w t c' w')
  show ?case using issuer_inv_advance [OF advance.prems advance.hyps(1,3)] .
qed (simp add: issuer_inv_def)

lemma issuer_reachable_inv:
  assumes "issuer_reachable X SS s"
  shows "issuer_inv X s"
proof -
  obtain w where "(issuer_step X SS)\<^sup>*\<^sup>* ([], idem_new, w) s" using assms by (auto simp: issuer_reachable_def)
  then show ?thesis
    by (induction rule: rtranclp_induct) (auto simp: issuer_inv_def dest: issuer_inv_step)
qed


section \<open>The sequential handler\<close>

lemma issue_run_simps [simp]:
  "issue_run X S r 0 s = s"
  "issue_run X S r (Suc n) (t, st) = issue_run X S r n (issue_task_step X S r t st)"
  by (simp_all add: issue_run_def funpow_swap1)

lemma issue_run_final: "answer_of t \<noteq> None \<Longrightarrow> issue_run X S r n (t, c, w) = (t, c, w)"
proof (induction n)
  case (Suc n)
  then show ?case by (cases t) simp_all
qed simp

section \<open>Properties\<close>


text \<open>The tasks with an unrefunded charge for a key, and the answers (with their batches) given for it.\<close>

definition charged_tasks :: "issuer_ext \<Rightarrow> AccountId \<times> bytes \<Rightarrow> issue_task list \<Rightarrow> nat set" where
  "charged_tasks X k ts = {i. i < length ts \<and> map_option (task_key X) (charged_for (ts ! i)) = Some k}"

definition responses :: "issuer_ext \<Rightarrow> AccountId \<times> bytes \<Rightarrow> issue_task list \<Rightarrow> (bytes \<times> IssueResponse) set" where
  "responses X k ts = {(task_hash q, resp) |q resp. \<exists>t\<in>set ts. answered_with t = Some (q, resp) \<and> task_key X q = k}"

lemma finite_charged_tasks: "finite (charged_tasks X k ts)"
  by (simp add: charged_tasks_def)

lemma finite_responses: "finite (responses X k ts)"
proof -
  have "responses X k ts \<subseteq> (\<lambda>t. (task_hash (fst (the (answered_with t))), snd (the (answered_with t)))) ` set ts"
    by (force simp: responses_def)
  then show ?thesis using finite_surj finite_set by blast
qed

text \<open>
  C6: a request id is charged at most once and answered consistently. However many
  requests arrive, however their critical sections interleave, whatever the
  ledger answers and however other handlers change the world, at most one task
  ever holds an unrefunded charge for an (account, request id), and any two
  tasks answered with signatures for the same (account, request id) got the same
  response for the same batch.
\<close>

theorem issue_at_most_once:
  assumes "issuer_reachable X SS (ts, c, w)"
  shows "card (charged_tasks X k ts) \<le> 1 \<and> card (responses X k ts) \<le> 1"
proof -
  note inv = issuer_invD [OF issuer_reachable_inv [OF assms]]
  have "i = j" if ij: "i \<in> charged_tasks X k ts" "j \<in> charged_tasks X k ts" for i j
  proof (rule ccontr)
    assume "i \<noteq> j"
    obtain p q where "i < length ts" "charged_for (ts ! i) = Some p" "task_key X p = k"
      "j < length ts" "charged_for (ts ! j) = Some q" "task_key X q = k"
      using ij by (auto simp: charged_tasks_def)
    then show False using inv(1) [OF _ _ \<open>i \<noteq> j\<close> inv(4) inv(4), of p q] by simp
  qed
  moreover have "c k = Some (Done (fst a) (snd a))" if "a \<in> responses X k ts" for a
    using that inv(3) by (fastforce simp: responses_def in_set_conv_nth)
  then have "a = b" if "a \<in> responses X k ts" "b \<in> responses X k ts" for a b
    using that by (metis Entry.inject(2) option.inject prod.expand)
  ultimately show ?thesis
    by (auto simp: card_le_Suc0_iff_eq finite_charged_tasks finite_responses)
qed

lemma demo_two_tasks:
  "issuer_reachable demo_ext {standalone demo_keys ''s'' 1000}
     ([Charged demo_request, Refused Concurrent], [(replicate 32 3, replicate 32 5) \<mapsto> Pending (replicate 32 8)],
      [replicate 32 3 \<mapsto> 3], {})"
proof -
  let ?S = "standalone demo_keys ''s'' 1000" and ?c = "[(replicate 32 3, replicate 32 5) \<mapsto> Pending (replicate 32 8)]"
  let ?step = "issuer_step demo_ext {?S}"
  have acc: "issue_account demo_ext demo_request = replicate 32 3"
    by (simp add: issue_account_def account_fingerprint_def demo_defs)
  have key: "ib_request_id (ireq_body demo_request) = replicate 32 5" "ib_blinded_batch_hash (ireq_body demo_request) = replicate 32 8"
    by (simp_all add: demo_defs)
  have d: "cl_debit (as_ledger ?S) (replicate 32 3) (batch_amount demo_request) (demo_ledger, {})
      = (Inr (), [replicate 32 3 \<mapsto> 3], {})"
    by (simp add: standalone_def mem_debit_def mem_entry_def demo_ledger_def batch_amount_def demo_request_def)
  have "?step\<^sup>*\<^sup>* ([], idem_new, demo_ledger, {}) ([Start [1]], idem_new, demo_ledger, {})"
    using issuer_step.arrive [of demo_ext "{?S}" "[]"] by (simp add: r_into_rtranclp)
  also have "?step \<dots> ([Start [1], Start [1]], idem_new, demo_ledger, {})"
    using issuer_step.arrive [of demo_ext "{?S}" "[Start [1]]"] by simp
  also have "?step \<dots> ([Holding demo_request, Start [1]], ?c, demo_ledger, {})"
    using issuer_step.advance [of 0 "[Start [1], Start [1]]" ?S "{?S}" demo_ext "\<lambda>_. []" idem_new "(demo_ledger, {})"]
    by (simp add: demo_precheck acc key idem_begin_def idem_new_def)
  also have "?step \<dots> ([Holding demo_request, Refused Concurrent], ?c, demo_ledger, {})"
    using issuer_step.advance [of 1 "[Holding demo_request, Start [1]]" ?S "{?S}" demo_ext "\<lambda>_. []" ?c "(demo_ledger, {})"]
    by (simp add: demo_precheck acc key idem_begin_def)
  also have "?step \<dots> ([Charged demo_request, Refused Concurrent], ?c, [replicate 32 3 \<mapsto> 3], {})"
    using issuer_step.advance [of 0 "[Holding demo_request, Refused Concurrent]" ?S "{?S}" demo_ext "\<lambda>_. []" ?c "(demo_ledger, {})"]
    by (simp add: acc d)
  finally show ?thesis unfolding issuer_reachable_def by blast
qed

theorem issue_at_most_once_witness:
  "charged_tasks demo_ext (replicate 32 3, replicate 32 5) [Charged demo_request, Refused Concurrent] = {0}
   \<and> card (charged_tasks demo_ext (replicate 32 3, replicate 32 5) [Charged demo_request, Refused Concurrent]) \<le> 1
   \<and> card (responses demo_ext (replicate 32 3, replicate 32 5) [Charged demo_request, Refused Concurrent]) \<le> 1"
proof -
  have "task_key demo_ext demo_request = (replicate 32 3, replicate 32 5)"
    by (simp add: task_key_def issue_account_def account_fingerprint_def demo_defs)
  then have "charged_tasks demo_ext (replicate 32 3, replicate 32 5) [Charged demo_request, Refused Concurrent] = {0}"
    by (auto simp: charged_tasks_def less_Suc_eq)
  then show ?thesis using issue_at_most_once [OF demo_two_tasks, of "(replicate 32 3, replicate 32 5)"] by blast
qed

end
