(* ===== verification/Broker_Store.thy ===== *)
theory Broker_Store
  imports Issuer_Service
begin

text \<open>
  The broker's durable state: \<open>lluma-broker/src/store.rs\<close>,
  \<open>error.rs\<close>, \<open>config.rs\<close>, \<open>counters.rs\<close>, \<open>ledger.rs\<close>,
  \<open>spent.rs\<close> and \<open>hosts.rs\<close>. The database is the contents of its
  eight tables; rows are stored decoded. Every storage call of an operation can
  fail: a fault plan \<open>nat \<Rightarrow> bool\<close> says which (the \<open>k\<close>-th storage
  call of the operation, counted from the transaction's begin), and decoding or
  encoding a row counts as a storage call, since both are mapped to
  \<open>BrokerError::Storage\<close>. A transaction that fails leaves the tables as they
  were, which is redb's documented behaviour for an uncommitted transaction.
\<close>

section \<open>Rows, tables, configuration\<close>

datatype BrokerError = Storage | SnapshotTooLarge | SnapshotInvalid

record HostRow =
  h_hpke_pk :: bytes
  h_ingress_addr :: string
  h_models :: "ModelId list"
  h_status :: u8
  h_hb_counter :: u64
  h_last_hb :: u64
  h_load_bucket :: u8
  h_admit_progress :: u32

definition HOST_PENDING :: u8 where
  "HOST_PENDING = 0"

definition HOST_ACTIVE :: u8 where
  "HOST_ACTIVE = 1"

record ReceiptRow =
  r_host_account :: bytes
  r_model_id :: ModelId
  r_tier :: u8
  r_units :: u32
  r_epoch :: u64
  r_timestamp_h :: u32
  r_sig :: bytes

record CounterRow =
  c_issued :: u64
  c_redeemed :: u64
  c_trial_granted :: u64

definition CounterRow_default :: CounterRow where
  "CounterRow_default = \<lparr>c_issued = 0, c_redeemed = 0, c_trial_granted = 0\<rparr>"

record LedgerRow =
  l_balance :: u64
  l_earned :: u64
  l_spent :: u64

definition LedgerRow_default :: LedgerRow where
  "LedgerRow_default = \<lparr>l_balance = 0, l_earned = 0, l_spent = 0\<rparr>"

record store =
  SPENT :: "(bytes, u64) otable"
  LEDGER :: "(bytes, LedgerRow) otable"
  RECEIPTS :: "(bytes, ReceiptRow) otable"
  HOSTS :: "(bytes, HostRow) otable"
  COUNTERS :: "(u64, CounterRow) otable"
  TRIAL_ACCTS :: "(bytes, u64) otable"
  TRIAL_BUDGET :: "(u64, u64) otable"
  SPEND_HOST :: "(bytes, bytes) otable"

definition empty_store :: store where
  "empty_store = \<lparr>SPENT = tbl_empty, LEDGER = tbl_empty, RECEIPTS = tbl_empty, HOSTS = tbl_empty,
     COUNTERS = tbl_empty, TRIAL_ACCTS = tbl_empty, TRIAL_BUDGET = tbl_empty, SPEND_HOST = tbl_empty\<rparr>"

record BrokerConfig =
  cfg_pow_difficulty :: u32
  cfg_epoch_salt :: bytes
  cfg_epoch_salt_prev :: "bytes option"
  cfg_epoch :: u64
  cfg_admission_m :: u32
  cfg_heartbeat_interval_s :: u64
  cfg_snapshot_cadence_s :: u64
  cfg_trial_grant :: u64
  cfg_daily_trial_budget :: u64
  cfg_units_audit_cap :: u32
  cfg_allow_loopback_ingress :: bool

definition BrokerConfig_default :: BrokerConfig where
  "BrokerConfig_default = \<lparr>cfg_pow_difficulty = 20, cfg_epoch_salt = replicate 32 0,
     cfg_epoch_salt_prev = None, cfg_epoch = 1, cfg_admission_m = 3, cfg_heartbeat_interval_s = 30,
     cfg_snapshot_cadence_s = 60, cfg_trial_grant = 20, cfg_daily_trial_budget = 10000,
     cfg_units_audit_cap = 4, cfg_allow_loopback_ingress = False\<rparr>"

definition BrokerConfig_for_test :: BrokerConfig where
  "BrokerConfig_for_test = BrokerConfig_default\<lparr>cfg_pow_difficulty := 8, cfg_allow_loopback_ingress := True\<rparr>"

section \<open>Transactions\<close>

type_synonym faults = "nat \<Rightarrow> bool"
type_synonym 'a txn = "faults \<Rightarrow> nat \<times> store \<Rightarrow> BrokerError + 'a \<times> nat \<times> store"

named_theorems txn_safe \<open>programs whose result under faults is a storage error or the fault-free one\<close>
named_theorems txn_defs \<open>definitions that run a transaction body\<close>

definition ret :: "'a \<Rightarrow> 'a txn" where
  [txn_defs]: "ret a = (\<lambda>flt s. Inr (a, s))"

definition fail :: "BrokerError \<Rightarrow> 'a txn" where
  [txn_defs]: "fail e = (\<lambda>flt s. Inl e)"

definition andthen :: "'a txn \<Rightarrow> ('a \<Rightarrow> 'b txn) \<Rightarrow> 'b txn" where
  [txn_defs]: "andthen p k = (\<lambda>flt s. case p flt s of Inl e \<Rightarrow> Inl e | Inr (a, s') \<Rightarrow> k a flt s')"

definition db_call :: "(store \<Rightarrow> 'a \<times> store) \<Rightarrow> 'a txn" where
  [txn_defs]: "db_call f = (\<lambda>flt (n, st). if flt n then Inl Storage else Inr (fst (f st), Suc n, snd (f st)))"

text \<open>
  \<open>open_table\<close>, \<open>get\<close>, \<open>insert\<close>, \<open>iter\<close> of a table, and the decoding
  and encoding of a row. A table is named by its field and, to write it, its
  field update.
\<close>

definition open_table :: "(store \<Rightarrow> ('k::linorder, 'v) otable) \<Rightarrow> unit txn" where
  [txn_defs]: "open_table T = db_call (\<lambda>st. ((), st))"

definition get :: "(store \<Rightarrow> ('k::linorder, 'v) otable) \<Rightarrow> 'k \<Rightarrow> 'v option txn" where
  [txn_defs]: "get T k = db_call (\<lambda>st. (tbl_get (T st) k, st))"

definition put ::
  "((('k::linorder, 'v) otable \<Rightarrow> ('k, 'v) otable) \<Rightarrow> store \<Rightarrow> store) \<Rightarrow> 'k \<Rightarrow> 'v \<Rightarrow> unit txn" where
  [txn_defs]: "put upd k v = db_call (\<lambda>st. ((), upd (tbl_insert k v) st))"

definition iter :: "(store \<Rightarrow> ('k::linorder, 'v) otable) \<Rightarrow> ('k \<times> 'v) list txn" where
  [txn_defs]: "iter T = db_call (\<lambda>st. (tbl_iter (T st), st))"

definition decode :: "'a \<Rightarrow> 'a txn" where
  [txn_defs]: "decode a = db_call (\<lambda>st. (a, st))"

definition encode :: "'a \<Rightarrow> 'a txn" where
  [txn_defs]: "encode a = db_call (\<lambda>st. (a, st))"

text \<open>
  \<open>match t.get(k)? { Some(v) => from_bytes(v)?, None => default }\<close>, which the
  source writes out at each use. The decoding can fail only when there is a row;
  its number in the fault plan is reserved either way.
\<close>

definition decode_or :: "'a \<Rightarrow> 'a option \<Rightarrow> 'a txn" where
  [txn_defs]: "decode_or d r = (\<lambda>flt (n, st).
     if r \<noteq> None \<and> flt n then Inl Storage
     else Inr (case r of None \<Rightarrow> d | Some v \<Rightarrow> v, Suc n, st))"

definition with_write :: "faults \<Rightarrow> 'a txn \<Rightarrow> store \<Rightarrow> (BrokerError + 'a) \<times> store" where
  "with_write flt f st =
     (if flt 0 then (Inl Storage, st)
      else case f flt (1, st) of
             Inl e \<Rightarrow> (Inl e, st)
           | Inr (out, n, st') \<Rightarrow> if flt n then (Inl Storage, st) else (Inr out, st'))"

definition with_read :: "faults \<Rightarrow> 'a txn \<Rightarrow> store \<Rightarrow> BrokerError + 'a" where
  "with_read flt f st =
     (if flt 0 then Inl Storage
      else case f flt (1, st) of Inl e \<Rightarrow> Inl e | Inr (out, _) \<Rightarrow> Inr out)"

definition ok_faults :: faults where
  "ok_faults = (\<lambda>_. False)"

subsection \<open>Faults only ever abort\<close>

definition fault_safe :: "'a txn \<Rightarrow> bool" where
  "fault_safe p \<longleftrightarrow> (\<forall>flt s. p flt s = Inl Storage \<or> p flt s = p ok_faults s)"

lemma fault_safe_ret [txn_safe]: "fault_safe (ret a)"
  by (simp add: fault_safe_def ret_def)

lemma fault_safe_fail [txn_safe]: "fault_safe (fail e)"
  by (simp add: fault_safe_def fail_def)

lemma fault_safe_db_call [txn_safe]: "fault_safe (db_call f)"
  by (auto simp: fault_safe_def db_call_def ok_faults_def)

lemma fault_safe_andthen [txn_safe]:
  assumes "fault_safe p" and "\<And>a. fault_safe (k a)"
  shows "fault_safe (andthen p k)"
  unfolding fault_safe_def
proof (intro allI)
  fix flt s
  show "andthen p k flt s = Inl Storage \<or> andthen p k flt s = andthen p k ok_faults s"
  proof (cases "p flt s = Inl Storage")
    case False
    with assms(1) have eq: "p flt s = p ok_faults s" unfolding fault_safe_def by metis
    show ?thesis
    proof (cases "p ok_faults s")
      case (Inr as)
      then show ?thesis
        using assms(2) [of "fst as"] eq by (cases as) (auto simp: andthen_def fault_safe_def)
    qed (simp add: andthen_def eq)
  qed (simp add: andthen_def)
qed

lemma fault_safe_calls [txn_safe]:
  "fault_safe (open_table T)" "fault_safe (get T k)" "fault_safe (put upd k v)"
  "fault_safe (iter T)" "fault_safe (decode a)" "fault_safe (encode a)"
  by (simp_all add: open_table_def get_def put_def iter_def decode_def encode_def fault_safe_db_call)

lemma fault_safe_if [txn_safe]:
  "fault_safe p \<Longrightarrow> fault_safe q \<Longrightarrow> fault_safe (if b then p else q)"
  by simp

lemma fault_safe_decode_or [txn_safe]: "fault_safe (decode_or d r)"
  by (cases r) (auto simp: fault_safe_def decode_or_def ok_faults_def)

lemma fault_safe_case_option [txn_safe]:
  "fault_safe p \<Longrightarrow> (\<And>x. fault_safe (q x)) \<Longrightarrow> fault_safe (case r of None \<Rightarrow> p | Some x \<Rightarrow> q x)"
  by (cases r) simp_all

lemma fault_safe_let [txn_safe]: "(\<And>x. fault_safe (q x)) \<Longrightarrow> fault_safe (let x = v in q x)"
  by simp

lemma with_write_cases:
  assumes "fault_safe p"
  obtains (Failed) "with_write flt p st = (Inl Storage, st)"
  | (Clean) "with_write flt p st = with_write ok_faults p st"
proof (cases "flt 0 \<or> p flt (1, st) = Inl Storage")
  case True
  then show ?thesis by (intro Failed) (auto simp: with_write_def)
next
  case False
  then have "p flt (1, st) = p ok_faults (1, st)"
    using assms unfolding fault_safe_def by metis
  with False have "with_write flt p st = (Inl Storage, st) \<or> with_write flt p st = with_write ok_faults p st"
    by (auto simp: with_write_def ok_faults_def split: sum.splits)
  then show ?thesis using Failed Clean by blast
qed

lemma with_read_cases:
  assumes "fault_safe p"
  obtains (Failed) "with_read flt p st = Inl Storage"
  | (Clean) "with_read flt p st = with_read ok_faults p st"
proof (cases "flt 0 \<or> p flt (1, st) = Inl Storage")
  case True
  then show ?thesis by (intro Failed) (auto simp: with_read_def)
next
  case False
  then have "p flt (1, st) = p ok_faults (1, st)"
    using assms unfolding fault_safe_def by metis
  with False show ?thesis by (intro Clean) (auto simp: with_read_def ok_faults_def)
qed

lemma with_write_err: "with_write flt p st = (Inl e, st') \<Longrightarrow> st' = st"
  by (auto simp: with_write_def split: if_splits sum.splits)

section \<open>Epoch counters (counters.rs)\<close>

definition read_txn :: "u64 \<Rightarrow> CounterRow txn" where
  [txn_defs]: "read_txn epoch =
     andthen (open_table COUNTERS) (\<lambda>_.
     andthen (get COUNTERS epoch) (\<lambda>b.
     decode_or CounterRow_default b))"

definition write_txn :: "u64 \<Rightarrow> CounterRow \<Rightarrow> unit txn" where
  [txn_defs]: "write_txn epoch row =
     andthen (open_table COUNTERS) (\<lambda>_.
     andthen (encode row) (\<lambda>b.
     put COUNTERS_update epoch b))"

definition bump_issued :: "faults \<Rightarrow> u64 \<Rightarrow> u64 \<Rightarrow> store \<Rightarrow> (BrokerError + unit) \<times> store" where
  "bump_issued flt epoch n st = with_write flt
     (andthen (read_txn epoch) (\<lambda>c. write_txn epoch (c\<lparr>c_issued := sat_add (c_issued c) n\<rparr>))) st"

definition bump_trial_granted :: "faults \<Rightarrow> u64 \<Rightarrow> u64 \<Rightarrow> store \<Rightarrow> (BrokerError + unit) \<times> store" where
  "bump_trial_granted flt epoch n st = with_write flt
     (andthen (read_txn epoch) (\<lambda>c. write_txn epoch (c\<lparr>c_trial_granted := sat_add (c_trial_granted c) n\<rparr>))) st"

definition note_redeem_txn :: "u64 \<Rightarrow> bool txn" where
  [txn_defs]: "note_redeem_txn epoch =
     andthen (read_txn epoch) (\<lambda>c0.
     let c = c0\<lparr>c_redeemed := sat_add (c_redeemed c0) 1\<rparr>;
         ok = c_redeemed c \<le> c_issued c in
     andthen (write_txn epoch c) (\<lambda>_. ret ok))"

definition counters_read :: "faults \<Rightarrow> u64 \<Rightarrow> store \<Rightarrow> BrokerError + CounterRow" where
  "counters_read flt epoch st = with_read flt (read_txn epoch) st"

definition invariant_holds :: "faults \<Rightarrow> u64 \<Rightarrow> store \<Rightarrow> BrokerError + bool" where
  "invariant_holds flt epoch st =
     (case counters_read flt epoch st of Inl e \<Rightarrow> Inl e
      | Inr c \<Rightarrow> Inr (c_redeemed c \<le> c_issued c))"

lemma fault_safe_counters [txn_safe]:
  "fault_safe (read_txn e)" "fault_safe (write_txn e row)" "fault_safe (note_redeem_txn e)"
  unfolding read_txn_def write_txn_def note_redeem_txn_def Let_def
  by (intro txn_safe)+

text \<open>The counter row of an epoch, absent rows read as zero.\<close>

definition counter :: "store \<Rightarrow> u64 \<Rightarrow> CounterRow" where
  "counter st epoch = (case tbl_get (COUNTERS st) epoch of None \<Rightarrow> CounterRow_default | Some c \<Rightarrow> c)"

lemma bump_issued_clean:
  "bump_issued ok_faults epoch n st =
     (Inr (), st\<lparr>COUNTERS := tbl_insert epoch ((counter st epoch)\<lparr>c_issued := sat_add (c_issued (counter st epoch)) n\<rparr>) (COUNTERS st)\<rparr>)"
  by (simp add: bump_issued_def with_write_def txn_defs ok_faults_def counter_def)

lemma bump_issued_cases:
  obtains (Failed) "bump_issued flt epoch n st = (Inl Storage, st)"
  | (Clean) "bump_issued flt epoch n st = bump_issued ok_faults epoch n st"
  unfolding bump_issued_def
  by (rule with_write_cases [of "andthen (read_txn epoch) (\<lambda>c. write_txn epoch (c\<lparr>c_issued := sat_add (c_issued c) n\<rparr>))"])
    (intro txn_safe, blast+)

section \<open>The durable ledger (ledger.rs)\<close>

definition read_balance :: "faults \<Rightarrow> AccountId \<Rightarrow> store \<Rightarrow> BrokerError + u64" where
  "read_balance flt account st = with_read flt
     (andthen (open_table LEDGER) (\<lambda>_.
      andthen (get LEDGER account) (\<lambda>r.
      case r of Some v \<Rightarrow> andthen (decode v) (\<lambda>row. ret (l_balance row)) | None \<Rightarrow> ret 0))) st"

definition mutate_txn ::
  "AccountId \<Rightarrow> (LedgerRow \<Rightarrow> (IssuerError + unit) \<times> LedgerRow) \<Rightarrow> (IssuerError + unit) txn" where
  "mutate_txn account f =
     andthen (open_table LEDGER) (\<lambda>_.
     andthen (get LEDGER account) (\<lambda>r.
     andthen (decode_or LedgerRow_default r) (\<lambda>row0.
     let (res, row) = f row0 in
     if is_ok res
     then andthen (encode row) (\<lambda>b. andthen (put LEDGER_update account b) (\<lambda>_. ret res))
     else ret res)))"

definition mutate ::
  "faults \<Rightarrow> AccountId \<Rightarrow> (LedgerRow \<Rightarrow> (IssuerError + unit) \<times> LedgerRow) \<Rightarrow> store \<Rightarrow>
   (BrokerError + (IssuerError + unit)) \<times> store" where
  "mutate flt account f st = with_write flt (mutate_txn account f) st"

definition redb_balance :: "faults \<Rightarrow> AccountId \<Rightarrow> store \<Rightarrow> u64" where
  "redb_balance flt account st = (case read_balance flt account st of Inl _ \<Rightarrow> 0 | Inr b \<Rightarrow> b)"

definition redb_grant :: "faults \<Rightarrow> AccountId \<Rightarrow> u64 \<Rightarrow> store \<Rightarrow> store" where
  "redb_grant flt account amount st =
     snd (mutate flt account (\<lambda>row.
       (Inr (), row\<lparr>l_balance := sat_add (l_balance row) amount, l_earned := sat_add (l_earned row) amount\<rparr>)) st)"

definition redb_debit :: "faults \<Rightarrow> AccountId \<Rightarrow> u64 \<Rightarrow> store \<Rightarrow> (IssuerError + unit) \<times> store" where
  "redb_debit flt account amount st =
     (case mutate flt account (\<lambda>row.
        if amount \<le> l_balance row
        then (Inr (), row\<lparr>l_balance := l_balance row - amount, l_spent := sat_add (l_spent row) amount\<rparr>)
        else (Inl InsufficientCredits, row)) st of
        (Inr inner, st') \<Rightarrow> (inner, st')
      | (Inl _, st') \<Rightarrow> (Inl InsufficientCredits, st'))"

text \<open>The balance the table holds, whatever a faulty read would answer.\<close>

definition ledger_row :: "store \<Rightarrow> AccountId \<Rightarrow> LedgerRow" where
  "ledger_row st a = (case tbl_get (LEDGER st) a of None \<Rightarrow> LedgerRow_default | Some r \<Rightarrow> r)"

definition balance_of :: "store \<Rightarrow> AccountId \<Rightarrow> u64" where
  "balance_of st a = l_balance (ledger_row st a)"

lemma fault_safe_mutate [txn_safe]: "fault_safe (mutate_txn account f)"
  unfolding mutate_txn_def case_prod_beta by (intro txn_safe)

lemma mutate_clean:
  "mutate ok_faults a f st =
     (let (res, row) = f (ledger_row st a) in
      (Inr res, if is_ok res then st\<lparr>LEDGER := tbl_insert a row (LEDGER st)\<rparr> else st))"
  by (simp add: mutate_def mutate_txn_def with_write_def txn_defs ok_faults_def ledger_row_def case_prod_beta)

lemma mutate_cases:
  obtains (Failed) "mutate flt a f st = (Inl Storage, st)"
  | (Clean) "mutate flt a f st = mutate ok_faults a f st"
  unfolding mutate_def by (rule with_write_cases [OF fault_safe_mutate])

text \<open>
  One call of the durable ledger: it either fails closed and changes nothing, or
  does what the fault-free call does.
\<close>

lemma redb_debit_cases:
  obtains (Refused) "redb_debit flt a n st = (Inl InsufficientCredits, st)"
  | (Taken) "redb_debit flt a n st = (Inr (), st\<lparr>LEDGER := tbl_insert a
        ((ledger_row st a)\<lparr>l_balance := balance_of st a - n, l_spent := sat_add (l_spent (ledger_row st a)) n\<rparr>)
        (LEDGER st)\<rparr>)" "n \<le> balance_of st a"
proof -
  define f where "f = (\<lambda>row :: LedgerRow. if n \<le> l_balance row
    then (Inr (), row\<lparr>l_balance := l_balance row - n, l_spent := sat_add (l_spent row) n\<rparr>)
    else (Inl InsufficientCredits, row))"
  have d: "redb_debit flt a n st = (case mutate flt a f st of
      (Inr inner, st') \<Rightarrow> (inner, st') | (Inl _, st') \<Rightarrow> (Inl InsufficientCredits, st'))"
    by (simp add: redb_debit_def f_def)
  show ?thesis
  proof (rule mutate_cases [of flt a f st])
    assume "mutate flt a f st = (Inl Storage, st)"
    then show ?thesis using Refused d by simp
  next
    assume c: "mutate flt a f st = mutate ok_faults a f st"
    show ?thesis
    proof (cases "n \<le> balance_of st a")
      case True
      then show ?thesis using c d by (intro Taken) (simp_all add: mutate_clean f_def balance_of_def)
    next
      case False
      then show ?thesis using c d by (intro Refused) (simp add: mutate_clean f_def balance_of_def)
    qed
  qed
qed

lemma redb_grant_cases:
  obtains (Dropped) "redb_grant flt a n st = st"
  | (Granted) "redb_grant flt a n st = st\<lparr>LEDGER := tbl_insert a
        ((ledger_row st a)\<lparr>l_balance := sat_add (balance_of st a) n, l_earned := sat_add (l_earned (ledger_row st a)) n\<rparr>)
        (LEDGER st)\<rparr>"
  unfolding redb_grant_def
  by (rule mutate_cases [of flt a "\<lambda>row. (Inr (), row\<lparr>l_balance := sat_add (l_balance row) n,
      l_earned := sat_add (l_earned row) n\<rparr>)" st])
    (simp_all add: mutate_clean balance_of_def)

lemma balance_of_LEDGER [simp]:
  "balance_of (st\<lparr>LEDGER := tbl_insert a row (LEDGER st)\<rparr>) b = (if b = a then l_balance row else balance_of st b)"
  by (simp add: balance_of_def ledger_row_def)

interpretation redb_ledger: credit_ledger balance_of redb_grant redb_debit
proof unfold_locales
  fix f :: faults and a b n st st' u e
  show "balance_of (redb_grant f a n st) a = sat_add (balance_of st a) n \<or> balance_of (redb_grant f a n st) a = balance_of st a"
    by (rule redb_grant_cases [of f a n st]) simp_all
  show "b \<noteq> a \<Longrightarrow> balance_of (redb_grant f a n st) b = balance_of st b"
    by (rule redb_grant_cases [of f a n st]) simp_all
  show "redb_debit f a n st = (Inr u, st') \<Longrightarrow> n \<le> balance_of st a \<and> balance_of st' a = balance_of st a - n"
    by (rule redb_debit_cases [of f a n st]) auto
  show "redb_debit f a n st = (Inl e, st') \<Longrightarrow> e = InsufficientCredits \<and> balance_of st' a = balance_of st a"
    by (rule redb_debit_cases [of f a n st]) auto
  show "b \<noteq> a \<Longrightarrow> balance_of (snd (redb_debit f a n st)) b = balance_of st b"
    by (rule redb_debit_cases [of f a n st]) simp_all
qed

section \<open>The durable spent set (spent.rs)\<close>

definition try_insert :: "faults \<Rightarrow> u64 \<Rightarrow> SpendId \<Rightarrow> store \<Rightarrow> (BrokerError + InsertOutcome) \<times> store" where
  "try_insert flt epoch i st = with_write flt
     (andthen (open_table SPENT) (\<lambda>_.
      andthen (get SPENT i) (\<lambda>r.
      if r \<noteq> None then ret AlreadySpent
      else andthen (put SPENT_update i epoch) (\<lambda>_. ret Inserted)))) st"

definition redb_spent_insert :: "faults \<Rightarrow> u64 \<Rightarrow> SpendId \<Rightarrow> store \<Rightarrow> InsertOutcome \<times> store" where
  "redb_spent_insert flt epoch i st =
     (case try_insert flt epoch i st of (Inr o', st') \<Rightarrow> (o', st') | (Inl _, st') \<Rightarrow> (AlreadySpent, st'))"

lemma redb_spent_insert_cases:
  obtains (Refused) "redb_spent_insert flt epoch i st = (AlreadySpent, st)"
  | (First) "redb_spent_insert flt epoch i st = (Inserted, st\<lparr>SPENT := tbl_insert i epoch (SPENT st)\<rparr>)"
      "tbl_get (SPENT st) i = None"
proof -
  define p where "p = andthen (open_table SPENT) (\<lambda>_. andthen (get SPENT i) (\<lambda>r.
      if r \<noteq> None then ret AlreadySpent else andthen (put SPENT_update i epoch) (\<lambda>_. ret Inserted)))"
  have s: "fault_safe p" unfolding p_def by (intro txn_safe)
  have r: "redb_spent_insert flt epoch i st = (case with_write flt p st of
      (Inr o', st') \<Rightarrow> (o', st') | (Inl _, st') \<Rightarrow> (AlreadySpent, st'))"
    by (simp add: redb_spent_insert_def try_insert_def p_def)
  from s show ?thesis
  proof (rule with_write_cases [of p flt st])
    assume c: "with_write flt p st = with_write ok_faults p st"
    show ?thesis
      by (cases "tbl_get (SPENT st) i")
        (use r c Refused First in \<open>auto simp: p_def with_write_def txn_defs ok_faults_def\<close>)
  qed (use r Refused in simp)
qed

interpretation redb_spent: spent_set "\<lambda>st. tbl_keys (SPENT st)" "\<lambda>(flt, epoch). redb_spent_insert flt epoch"
proof unfold_locales
  fix f :: "faults \<times> u64" and i st st'
  obtain flt epoch where f: "f = (flt, epoch)" by fastforce
  show "(case f of (flt, epoch) \<Rightarrow> redb_spent_insert flt epoch) i st = (Inserted, st') \<Longrightarrow>
      i \<notin> tbl_keys (SPENT st) \<and> tbl_keys (SPENT st') = insert i (tbl_keys (SPENT st))"
    by (rule redb_spent_insert_cases [of flt epoch i st]) (auto simp: f in_tbl_keys)
  show "(case f of (flt, epoch) \<Rightarrow> redb_spent_insert flt epoch) i st = (AlreadySpent, st') \<Longrightarrow>
      tbl_keys (SPENT st') = tbl_keys (SPENT st)"
    by (rule redb_spent_insert_cases [of flt epoch i st]) (auto simp: f)
qed

section \<open>The static host directory (hosts.rs)\<close>

record HostEntry =
  hd_host_account :: AccountId
  hd_ingress_url :: string
  hd_host_pk :: HostPublicKey

type_synonym StaticHostDirectory = "HostEntry list"

definition directory_resolve :: "StaticHostDirectory \<Rightarrow> AccountId \<Rightarrow> HostEntry option" where
  "directory_resolve es account = List.find (\<lambda>e. hd_host_account e = account) es"

definition directory_first :: "StaticHostDirectory \<Rightarrow> HostEntry option" where
  "directory_first es = (case es of [] \<Rightarrow> None | e # _ \<Rightarrow> Some e)"

section \<open>Properties\<close>

text \<open>
  The durable ledger never overspends, whatever storage calls fail. Over any
  sequence of grants and debits, with any faults at any call, what an account
  ends with plus all that was successfully taken from it is at most what it
  started with plus all that was granted to it.
\<close>

lemma redb_ledger_never_overspends:
  assumes "ledger_run redb_grant redb_debit ops st = (rs, st')"
  shows "unat (balance_of st' a) + taken_from a ops rs \<le> unat (balance_of st a) + granted_to a ops"
  by (rule redb_ledger.run_never_overspends [OF assms])

text \<open>
  No double spend at the durable spent set, whatever storage calls fail. Over
  any sequence of insertions with any faults, each spend id is accepted at
  most once, none that was already recorded is accepted, and exactly the
  accepted ids are added to the table.
\<close>

lemma redb_spent_accepts_once:
  assumes "spent_run (\<lambda>(flt, epoch). redb_spent_insert flt epoch) calls st = (rs, st')"
  shows "distinct (accepted_ids calls rs)
    \<and> set (accepted_ids calls rs) \<inter> tbl_keys (SPENT st) = {}
    \<and> tbl_keys (SPENT st') = tbl_keys (SPENT st) \<union> set (accepted_ids calls rs)"
  by (rule redb_spent.run_accepts_once [OF assms])

end
