(* ===== verification/Net_Addr.thy ===== *)
theory Net_Addr
  imports Lluma_Prelude
begin

text \<open>
  \<open>std::net::IpAddr\<close> as far as the address policy of the registry uses it:
  the standard library's parser for address literals and the range predicates.
  A parser takes the remaining characters and returns a value and the rest, or
  \<open>None\<close> with nothing consumed. Parsing an address must consume all input.
\<close>

datatype IpAddr = V4 "u8 list" | V6 "u16 list"

definition digit_val :: "nat \<Rightarrow> char \<Rightarrow> nat option" where
  "digit_val radix c =
     (let n = (of_char c :: nat);
          d = (if 48 \<le> n \<and> n \<le> 57 then Some (n - 48)
               else if 97 \<le> n \<and> n \<le> 122 then Some (n - 87)
               else if 65 \<le> n \<and> n \<le> 90 then Some (n - 55) else None) in
      case d of None \<Rightarrow> None | Some v \<Rightarrow> if v < radix then Some v else None)"

text \<open>The digit loop of \<open>read_number\<close>: value, digit count, rest.\<close>

fun read_digits :: "nat \<Rightarrow> nat \<Rightarrow> nat \<Rightarrow> nat \<Rightarrow> string \<Rightarrow> (nat \<times> nat \<times> string) option" where
  "read_digits radix max_digits count result [] = Some (result, count, [])"
| "read_digits radix max_digits count result (c # cs) =
     (case digit_val radix c of
        None \<Rightarrow> Some (result, count, c # cs)
      | Some d \<Rightarrow> if count + 1 > max_digits then None
                  else read_digits radix max_digits (count + 1) (result * radix + d) cs)"

definition read_number :: "nat \<Rightarrow> nat \<Rightarrow> bool \<Rightarrow> nat \<Rightarrow> string \<Rightarrow> (nat \<times> string) option" where
  "read_number radix max_digits allow_zero_prefix bound cs =
     (case read_digits radix max_digits 0 0 cs of None \<Rightarrow> None
      | Some (v, n, rest) \<Rightarrow>
          if n = 0 then None
          else if \<not> allow_zero_prefix \<and> take 1 cs = ''0'' \<and> n > 1 then None
          else if v < bound then Some (v, rest) else None)"

definition read_given_char :: "char \<Rightarrow> string \<Rightarrow> string option" where
  "read_given_char c cs = (case cs of [] \<Rightarrow> None | x # xs \<Rightarrow> if x = c then Some xs else None)"

definition read_separator ::
  "char \<Rightarrow> nat \<Rightarrow> (string \<Rightarrow> ('a \<times> string) option) \<Rightarrow> string \<Rightarrow> ('a \<times> string) option" where
  "read_separator sep i inner cs =
     (if i > 0 then (case read_given_char sep cs of None \<Rightarrow> None | Some cs' \<Rightarrow> inner cs') else inner cs)"

fun read_octets :: "nat \<Rightarrow> nat \<Rightarrow> string \<Rightarrow> (u8 list \<times> string) option" where
  "read_octets i 0 cs = Some ([], cs)"
| "read_octets i (Suc k) cs =
     (case read_separator (CHR ''.'') i (read_number 10 3 False 256) cs of None \<Rightarrow> None
      | Some (v, cs') \<Rightarrow>
          (case read_octets (Suc i) k cs' of None \<Rightarrow> None
           | Some (os, cs'') \<Rightarrow> Some (of_nat v # os, cs'')))"

definition read_ipv4_addr :: "string \<Rightarrow> (u8 list \<times> string) option" where
  "read_ipv4_addr cs = read_octets 0 4 cs"

definition seg_of_octets :: "u8 \<Rightarrow> u8 \<Rightarrow> u16" where
  "seg_of_octets hi lo = push_bit 8 (ucast hi) OR ucast lo"

text \<open>
  \<open>read_groups\<close>: \<open>i\<close> groups have been read and \<open>k\<close> slots are left.
  Returns the groups read, whether an embedded IPv4 address ended them, and the
  rest.
\<close>

fun read_groups :: "nat \<Rightarrow> nat \<Rightarrow> string \<Rightarrow> u16 list \<times> bool \<times> string" where
  "read_groups i 0 cs = ([], False, cs)"
| "read_groups i (Suc k) cs =
     (case (if k \<ge> 1 then read_separator (CHR '':'') i read_ipv4_addr cs else None) of
        Some (os, cs') \<Rightarrow> ([seg_of_octets (os ! 0) (os ! 1), seg_of_octets (os ! 2) (os ! 3)], True, cs')
      | None \<Rightarrow>
          (case read_separator (CHR '':'') i (read_number 16 4 True 65536) cs of
             None \<Rightarrow> ([], False, cs)
           | Some (v, cs') \<Rightarrow>
               let (gs, v4, cs'') = read_groups (Suc i) k cs' in (of_nat v # gs, v4, cs'')))"

definition read_ipv6_addr :: "string \<Rightarrow> (u16 list \<times> string) option" where
  "read_ipv6_addr cs =
     (let (head, head_ipv4, cs1) = read_groups 0 8 cs in
      if length head = 8 then Some (head, cs1)
      else if head_ipv4 then None
      else case read_given_char (CHR '':'') cs1 of None \<Rightarrow> None
           | Some cs2 \<Rightarrow>
               (case read_given_char (CHR '':'') cs2 of None \<Rightarrow> None
                | Some cs3 \<Rightarrow>
                    let (tail, _, cs4) = read_groups 0 (8 - (length head + 1)) cs3 in
                    Some (head @ replicate (8 - length head - length tail) 0 @ tail, cs4)))"

definition parse_ip :: "string \<Rightarrow> IpAddr option" where
  "parse_ip cs =
     (case read_ipv4_addr cs of
        Some (os, rest) \<Rightarrow> if rest = [] then Some (V4 os) else None
      | None \<Rightarrow>
          (case read_ipv6_addr cs of
             Some (gs, rest) \<Rightarrow> if rest = [] then Some (V6 gs) else None
           | None \<Rightarrow> None))"

section \<open>Range predicates\<close>

definition v4_is_loopback :: "u8 list \<Rightarrow> bool" where
  "v4_is_loopback os \<longleftrightarrow> os ! 0 = 127"

definition v4_is_private :: "u8 list \<Rightarrow> bool" where
  "v4_is_private os \<longleftrightarrow>
     os ! 0 = 10 \<or> (os ! 0 = 172 \<and> 16 \<le> os ! 1 \<and> os ! 1 \<le> 31) \<or> (os ! 0 = 192 \<and> os ! 1 = 168)"

definition v4_is_link_local :: "u8 list \<Rightarrow> bool" where
  "v4_is_link_local os \<longleftrightarrow> os ! 0 = 169 \<and> os ! 1 = 254"

definition v4_is_unspecified :: "u8 list \<Rightarrow> bool" where
  "v4_is_unspecified os \<longleftrightarrow> os = [0, 0, 0, 0]"

definition octets_of_seg :: "u16 \<Rightarrow> u8 list" where
  "octets_of_seg s = [ucast (drop_bit 8 s), ucast s]"

definition to_ipv4_mapped :: "u16 list \<Rightarrow> u8 list option" where
  "to_ipv4_mapped gs =
     (if take 6 gs = [0, 0, 0, 0, 0, 0xFFFF] then Some (octets_of_seg (gs ! 6) @ octets_of_seg (gs ! 7)) else None)"

definition to_ipv4 :: "u16 list \<Rightarrow> u8 list option" where
  "to_ipv4 gs =
     (if take 5 gs = [0, 0, 0, 0, 0] \<and> (gs ! 5 = 0 \<or> gs ! 5 = 0xFFFF)
      then Some (octets_of_seg (gs ! 6) @ octets_of_seg (gs ! 7)) else None)"

definition v6_is_loopback :: "u16 list \<Rightarrow> bool" where
  "v6_is_loopback gs \<longleftrightarrow> gs = [0, 0, 0, 0, 0, 0, 0, 1]"

definition v6_is_unspecified :: "u16 list \<Rightarrow> bool" where
  "v6_is_unspecified gs \<longleftrightarrow> gs = [0, 0, 0, 0, 0, 0, 0, 0]"

section \<open>Facts\<close>

lemma read_octets_length: "read_octets i k cs = Some (os, cs') \<Longrightarrow> length os = k"
  by (induction i k cs arbitrary: os cs' rule: read_octets.induct) (auto split: option.splits)

lemma read_groups_length: "read_groups i k cs = (gs, v4, cs') \<Longrightarrow> length gs \<le> k"
proof (induction i k cs arbitrary: gs v4 cs' rule: read_groups.induct)
  case (2 i k cs)
  show ?case
  proof (cases "if k \<ge> 1 then read_separator (CHR '':'') i read_ipv4_addr cs else None")
    case None
    with 2 show ?thesis by (auto split: option.splits prod.splits)
  next
    case (Some r)
    with 2(2) show ?thesis by (auto split: if_splits prod.splits)
  qed
qed simp

lemma parse_ip_wf:
  "parse_ip cs = Some (V4 os) \<Longrightarrow> length os = 4"
  "parse_ip cs = Some (V6 gs) \<Longrightarrow> length gs = 8"
proof -
  assume "parse_ip cs = Some (V4 os)"
  then show "length os = 4"
    using read_octets_length [of 0 4 cs os] by (auto simp: parse_ip_def read_ipv4_addr_def split: option.splits if_splits)
next
  assume "parse_ip cs = Some (V6 gs)"
  then obtain rest where r: "read_ipv6_addr cs = Some (gs, rest)"
    by (auto simp: parse_ip_def split: option.splits if_splits)
  obtain head b cs1 where h: "read_groups 0 8 cs = (head, b, cs1)" by (metis surj_pair)
  have len: "length head \<le> 8" using read_groups_length [OF h] .
  show "length gs = 8"
  proof (cases "length head = 8")
    case False
    with len have "length tail + length head \<le> 7"
      if "read_groups 0 (8 - (length head + 1)) cs3 = (tail, b', cs4)" for cs3 tail b' cs4
      using read_groups_length [OF that] by simp
    with r h False len show ?thesis
      by (fastforce simp: read_ipv6_addr_def Let_def split: option.splits if_splits prod.splits)
  qed (use r h in \<open>simp add: read_ipv6_addr_def\<close>)
qed

end
