(* ===== verification/Broker_Registry.thy ===== *)
theory Broker_Registry
  imports Broker_Store Net_Addr
begin

text \<open>
  The host registry: \<open>lluma-broker/src/registry.rs\<close>. Registration gated by
  signature, proof of work and the ingress-address policy; replay-proof
  heartbeats with slow admission; eviction of stale hosts. URL parsing
  (\<open>reqwest::Url::parse\<close>) is the parameter \<open>UP\<close>: it returns the
  scheme and the optional host string.
\<close>

type_synonym url_parser = "string \<Rightarrow> (string \<times> string option) option"

datatype RegisterOutcome = Registered | Updated | BadSignature | BadPow | BadAddress

datatype HeartbeatOutcome = Accepted bool | UnknownHost | BadSignature | Replay

definition host_pow_ok :: "prims \<Rightarrow> BrokerConfig \<Rightarrow> bytes \<Rightarrow> bytes \<Rightarrow> bool" where
  "host_pow_ok P cfg account_pk nonce \<longleftrightarrow>
     pow_verify P POW_HOST_DOMAIN account_pk nonce (cfg_epoch_salt cfg) (cfg_pow_difficulty cfg)
     \<or> (case cfg_epoch_salt_prev cfg of None \<Rightarrow> False
        | Some prev \<Rightarrow> pow_verify P POW_HOST_DOMAIN account_pk nonce prev (cfg_pow_difficulty cfg))"

section \<open>Ingress address policy\<close>

definition trim_start_matches :: "char \<Rightarrow> string \<Rightarrow> string" where
  "trim_start_matches c s = dropWhile (\<lambda>x. x = c) s"

definition trim_end_matches :: "char \<Rightarrow> string \<Rightarrow> string" where
  "trim_end_matches c s = rev (dropWhile (\<lambda>x. x = c) (rev s))"

definition v4_forbidden :: "u8 list \<Rightarrow> bool" where
  "v4_forbidden v4 \<longleftrightarrow>
     v4_is_loopback v4 \<or> v4_is_private v4 \<or> v4_is_link_local v4 \<or> v4_is_unspecified v4"

definition ip_ok :: "IpAddr \<Rightarrow> bool" where
  "ip_ok ip =
     (case ip of
        V4 v4 \<Rightarrow> \<not> v4_forbidden v4
      | V6 v6 \<Rightarrow>
          (case to_ipv4_mapped v6 of
             Some v4 \<Rightarrow> \<not> v4_forbidden v4
           | None \<Rightarrow>
               if v6_is_loopback v6 \<or> v6_is_unspecified v6 then False
               else if to_ipv4 v6 \<noteq> None then False
               else let seg0 = v6 ! 0 in seg0 AND 0xFE00 \<noteq> 0xFC00 \<and> seg0 AND 0xFFC0 \<noteq> 0xFE80))"

definition ingress_addr_ok :: "url_parser \<Rightarrow> string \<Rightarrow> bool \<Rightarrow> bool" where
  "ingress_addr_ok UP addr allow_loopback =
     (case UP addr of None \<Rightarrow> False
      | Some (scheme, host_str) \<Rightarrow>
          if scheme \<noteq> ''http'' \<and> scheme \<noteq> ''https'' then False
          else case host_str of None \<Rightarrow> False
               | Some host_raw \<Rightarrow>
                   if allow_loopback then True
                   else
                     let host = trim_end_matches (CHR '']'') (trim_start_matches (CHR ''['') host_raw) in
                     (case parse_ip host of Some ip \<Rightarrow> ip_ok ip | None \<Rightarrow> True))"

section \<open>Register\<close>

definition register_txn :: "HostRegisterBody \<Rightarrow> u64 \<Rightarrow> RegisterOutcome txn" where
  "register_txn body now_unix_s =
     andthen (open_table HOSTS) (\<lambda>_.
     andthen (get HOSTS (hr_host_account body)) (\<lambda>existing.
     andthen (case existing of
         Some bytes \<Rightarrow> andthen (decode bytes) (\<lambda>r.
           ret (r\<lparr>h_hpke_pk := hr_hpke_pk body, h_ingress_addr := hr_ingress_addr body,
                   h_models := hr_models body\<rparr>, Updated))
       | None \<Rightarrow> ret (\<lparr>h_hpke_pk = hr_hpke_pk body, h_ingress_addr = hr_ingress_addr body,
                   h_models = hr_models body, h_status = HOST_PENDING, h_hb_counter = 0,
                   h_last_hb = now_unix_s, h_load_bucket = 0, h_admit_progress = 0\<rparr>, Registered))
       (\<lambda>ro.
     andthen (encode (fst ro)) (\<lambda>bytes.
     andthen (put HOSTS_update (hr_host_account body) bytes) (\<lambda>_.
     ret (snd ro))))))"

definition register ::
  "prims \<Rightarrow> url_parser \<Rightarrow> faults \<Rightarrow> HostRegisterRequest \<Rightarrow> BrokerConfig \<Rightarrow> u64 \<Rightarrow> store \<Rightarrow>
   (BrokerError + RegisterOutcome) \<times> store" where
  "register P UP flt req cfg now_unix_s st =
     (if \<not> is_ok (HostRegisterRequest_validate req) then (Inr BadAddress, st)
      else
        let body = hrr_body req in
        if \<not> is_ok (host_register_verify P (hr_host_account body) body (hrr_sig req))
        then (Inr RegisterOutcome.BadSignature, st)
        else if length (hrr_pow_nonce req) \<noteq> 8 then (Inr BadPow, st)
        else if \<not> host_pow_ok P cfg (hr_host_account body) (hrr_pow_nonce req) then (Inr BadPow, st)
        else if \<not> ingress_addr_ok UP (hr_ingress_addr body) (cfg_allow_loopback_ingress cfg)
        then (Inr BadAddress, st)
        else with_write flt (register_txn body now_unix_s) st)"

section \<open>Heartbeat\<close>

text \<open>The read-only prefilter and the write transaction meet faults of their own.\<close>

definition heartbeat_txn :: "HeartbeatBody \<Rightarrow> u64 \<Rightarrow> BrokerConfig \<Rightarrow> HeartbeatOutcome txn" where
  "heartbeat_txn body now_unix_s cfg =
     andthen (open_table HOSTS) (\<lambda>_.
     andthen (get HOSTS (hb_host_account body)) (\<lambda>r.
     case r of None \<Rightarrow> ret UnknownHost
     | Some row_bytes \<Rightarrow>
         andthen (decode row_bytes) (\<lambda>row0.
         if hb_hb_counter body \<le> h_hb_counter row0 then ret Replay
         else
           let elapsed = sat_sub now_unix_s (h_last_hb row0);
               row1 = row0\<lparr>h_hb_counter := hb_hb_counter body, h_load_bucket := hb_load_bucket body\<rparr>;
               row2 = (if cfg_heartbeat_interval_s cfg \<le> elapsed
                       then let row' = row1\<lparr>h_admit_progress := sat_add (h_admit_progress row1) 1\<rparr> in
                            if cfg_admission_m cfg \<le> h_admit_progress row'
                            then row'\<lparr>h_status := HOST_ACTIVE\<rparr> else row'
                       else row1);
               row = row2\<lparr>h_last_hb := now_unix_s\<rparr>;
               active = (h_status row = HOST_ACTIVE) in
           andthen (encode row) (\<lambda>bytes.
           andthen (put HOSTS_update (hb_host_account body) bytes) (\<lambda>_.
           ret (Accepted active))))))"

definition known_txn :: "bytes \<Rightarrow> bool txn" where
  "known_txn key =
     andthen (open_table HOSTS) (\<lambda>_. andthen (get HOSTS key) (\<lambda>r. ret (r \<noteq> None)))"

definition heartbeat ::
  "prims \<Rightarrow> faults \<Rightarrow> faults \<Rightarrow> HeartbeatRequest \<Rightarrow> u64 \<Rightarrow> BrokerConfig \<Rightarrow> store \<Rightarrow>
   (BrokerError + HeartbeatOutcome) \<times> store" where
  "heartbeat P flt_r flt_w req now_unix_s cfg st =
     (if \<not> is_ok (HeartbeatRequest_validate req) then (Inr HeartbeatOutcome.BadSignature, st)
      else
        let body = hbr_body req in
        case with_read flt_r (known_txn (hb_host_account body)) st of
          Inl e \<Rightarrow> (Inl e, st)
        | Inr known \<Rightarrow>
            if \<not> known then (Inr UnknownHost, st)
            else if \<not> is_ok (heartbeat_verify P (hb_host_account body) body (hbr_sig req))
            then (Inr HeartbeatOutcome.BadSignature, st)
            else with_write flt_w (heartbeat_txn body now_unix_s cfg) st)"

section \<open>Eviction\<close>

fun evict_scan :: "u64 \<Rightarrow> u64 \<Rightarrow> (bytes \<times> HostRow) list \<Rightarrow> (bytes \<times> HostRow) list txn" where
  "evict_scan now threshold [] = ret []"
| "evict_scan now threshold ((k, v) # rest) =
     andthen (decode ()) (\<lambda>_.
     if length k \<noteq> 32 then evict_scan now threshold rest
     else andthen (decode v) (\<lambda>row.
       let stale_now = threshold < sat_sub now (h_last_hb row) in
       if stale_now \<and> (h_status row = HOST_ACTIVE \<or> 0 < h_admit_progress row)
       then andthen (evict_scan now threshold rest) (\<lambda>stale.
              ret ((k, row\<lparr>h_status := HOST_PENDING, h_admit_progress := 0\<rparr>) # stale))
       else evict_scan now threshold rest))"

fun evict_write :: "(bytes \<times> HostRow) list \<Rightarrow> unit txn" where
  "evict_write [] = ret ()"
| "evict_write ((k, row) # rest) =
     andthen (encode row) (\<lambda>bytes. andthen (put HOSTS_update k bytes) (\<lambda>_. evict_write rest))"

definition evict_txn :: "u64 \<Rightarrow> u64 \<Rightarrow> nat txn" where
  "evict_txn now threshold =
     andthen (open_table HOSTS) (\<lambda>_.
     andthen (iter HOSTS) (\<lambda>rows.
     andthen (evict_scan now threshold rows) (\<lambda>stale.
     andthen (evict_write stale) (\<lambda>_.
     ret (length stale)))))"

definition evict_stale :: "faults \<Rightarrow> u64 \<Rightarrow> BrokerConfig \<Rightarrow> store \<Rightarrow> (BrokerError + nat) \<times> store" where
  "evict_stale flt now_unix_s cfg st =
     with_write flt (evict_txn now_unix_s (sat_mul (cfg_heartbeat_interval_s cfg) 3)) st"

section \<open>Fault safety\<close>

lemma fault_safe_register [txn_safe]: "fault_safe (register_txn body now)"
  unfolding register_txn_def by (intro txn_safe)

lemma fault_safe_heartbeat [txn_safe]: "fault_safe (heartbeat_txn body now cfg)"
  unfolding heartbeat_txn_def by (intro txn_safe)

lemma fault_safe_known [txn_safe]: "fault_safe (known_txn k)"
  unfolding known_txn_def by (intro txn_safe)

lemma fault_safe_evict_scan [txn_safe]: "fault_safe (evict_scan now th rows)"
proof (induction rows)
  case (Cons kv rows)
  then show ?case
    by (cases kv) (simp only: evict_scan.simps, intro txn_safe)
qed (simp add: txn_safe)

lemma fault_safe_evict_write [txn_safe]: "fault_safe (evict_write rows)"
proof (induction rows)
  case (Cons kv rows)
  then show ?case
    by (cases kv) (simp only: evict_write.simps, intro txn_safe)
qed (simp add: txn_safe)

lemma fault_safe_evict [txn_safe]: "fault_safe (evict_txn now th)"
  unfolding evict_txn_def by (intro txn_safe)

section \<open>What each operation does to the table\<close>

definition refreshed_row :: "HostRegisterBody \<Rightarrow> u64 \<Rightarrow> HostRow option \<Rightarrow> HostRow" where
  "refreshed_row body now r =
     (case r of
        Some row \<Rightarrow> row\<lparr>h_hpke_pk := hr_hpke_pk body, h_ingress_addr := hr_ingress_addr body, h_models := hr_models body\<rparr>
      | None \<Rightarrow> \<lparr>h_hpke_pk = hr_hpke_pk body, h_ingress_addr = hr_ingress_addr body,
                 h_models = hr_models body, h_status = HOST_PENDING, h_hb_counter = 0,
                 h_last_hb = now, h_load_bucket = 0, h_admit_progress = 0\<rparr>)"

lemma register_cases:
  obtains (Kept) res where "register P UP flt req cfg now st = (res, st)" "res \<noteq> Inr Registered" "res \<noteq> Inr Updated"
  | (Written) "register P UP flt req cfg now st =
        (Inr (if tbl_get (HOSTS st) (hr_host_account (hrr_body req)) = None then Registered else Updated),
         st\<lparr>HOSTS := tbl_insert (hr_host_account (hrr_body req))
             (refreshed_row (hrr_body req) now (tbl_get (HOSTS st) (hr_host_account (hrr_body req)))) (HOSTS st)\<rparr>)"
      "ingress_addr_ok UP (hr_ingress_addr (hrr_body req)) (cfg_allow_loopback_ingress cfg)"
      "host_pow_ok P cfg (hr_host_account (hrr_body req)) (hrr_pow_nonce req)"
      "is_ok (host_register_verify P (hr_host_account (hrr_body req)) (hrr_body req) (hrr_sig req))"
proof (cases "is_ok (HostRegisterRequest_validate req)
    \<and> is_ok (host_register_verify P (hr_host_account (hrr_body req)) (hrr_body req) (hrr_sig req))
    \<and> length (hrr_pow_nonce req) = 8 \<and> host_pow_ok P cfg (hr_host_account (hrr_body req)) (hrr_pow_nonce req)
    \<and> ingress_addr_ok UP (hr_ingress_addr (hrr_body req)) (cfg_allow_loopback_ingress cfg)")
  case True
  then have eq: "register P UP flt req cfg now st = with_write flt (register_txn (hrr_body req) now) st"
    by (simp add: register_def)
  show ?thesis
  proof (rule with_write_cases [OF fault_safe_register, of flt "hrr_body req" now st])
    assume "with_write flt (register_txn (hrr_body req) now) st = with_write ok_faults (register_txn (hrr_body req) now) st"
    then show ?thesis
      using True eq
      by (intro Written)
        (auto simp: with_write_def register_txn_def txn_defs ok_faults_def refreshed_row_def split: option.splits)
  qed (use eq Kept in auto)
next
  case False
  then have "\<exists>res. register P UP flt req cfg now st = (res, st) \<and> res \<noteq> Inr Registered \<and> res \<noteq> Inr Updated"
    by (auto simp: register_def Let_def)
  then show ?thesis using Kept by blast
qed

definition beaten_row :: "HeartbeatBody \<Rightarrow> u64 \<Rightarrow> BrokerConfig \<Rightarrow> HostRow \<Rightarrow> HostRow" where
  "beaten_row body now cfg row =
     (let p = (if cfg_heartbeat_interval_s cfg \<le> sat_sub now (h_last_hb row)
               then sat_add (h_admit_progress row) 1 else h_admit_progress row);
          act = (cfg_heartbeat_interval_s cfg \<le> sat_sub now (h_last_hb row) \<and> cfg_admission_m cfg \<le> p) in
      row\<lparr>h_hb_counter := hb_hb_counter body, h_load_bucket := hb_load_bucket body,
          h_admit_progress := p, h_status := (if act then HOST_ACTIVE else h_status row), h_last_hb := now\<rparr>)"

lemma heartbeat_cases:
  obtains (Kept) res where "heartbeat P flt_r flt_w req now cfg st = (res, st)" "\<And>a. res \<noteq> Inr (Accepted a)"
  | (Beaten) row where "tbl_get (HOSTS st) (hb_host_account (hbr_body req)) = Some row"
      "h_hb_counter row < hb_hb_counter (hbr_body req)"
      "heartbeat P flt_r flt_w req now cfg st =
         (Inr (Accepted (h_status (beaten_row (hbr_body req) now cfg row) = HOST_ACTIVE)),
          st\<lparr>HOSTS := tbl_insert (hb_host_account (hbr_body req)) (beaten_row (hbr_body req) now cfg row) (HOSTS st)\<rparr>)"
      "is_ok (heartbeat_verify P (hb_host_account (hbr_body req)) (hbr_body req) (hbr_sig req))"
proof (cases "is_ok (HeartbeatRequest_validate req) \<and> with_read flt_r (known_txn (hb_host_account (hbr_body req))) st = Inr True
    \<and> is_ok (heartbeat_verify P (hb_host_account (hbr_body req)) (hbr_body req) (hbr_sig req))")
  case True
  let ?w = "with_write flt_w (heartbeat_txn (hbr_body req) now cfg) st"
  from True have eq: "heartbeat P flt_r flt_w req now cfg st = ?w"
    by (simp add: heartbeat_def)
  show ?thesis
  proof (rule with_write_cases [OF fault_safe_heartbeat, of flt_w "hbr_body req" now cfg st])
    assume c: "?w = with_write ok_faults (heartbeat_txn (hbr_body req) now cfg) st"
    show ?thesis
    proof (cases "tbl_get (HOSTS st) (hb_host_account (hbr_body req))")
      case None
      then show ?thesis
        using eq c Kept [of "Inr UnknownHost"] by (simp add: with_write_def heartbeat_txn_def txn_defs ok_faults_def)
    next
      case (Some row)
      show ?thesis
      proof (cases "hb_hb_counter (hbr_body req) \<le> h_hb_counter row")
        case True
        with Some show ?thesis
          using eq c Kept [of "Inr Replay"] by (simp add: with_write_def heartbeat_txn_def txn_defs ok_faults_def)
      next
        case False
        have "?w = (Inr (Accepted (h_status (beaten_row (hbr_body req) now cfg row) = HOST_ACTIVE)),
            st\<lparr>HOSTS := tbl_insert (hb_host_account (hbr_body req)) (beaten_row (hbr_body req) now cfg row) (HOSTS st)\<rparr>)"
          using False Some c
          by (auto simp: with_write_def heartbeat_txn_def txn_defs ok_faults_def Let_def beaten_row_def)
        with Some False True eq show ?thesis by (intro Beaten) auto
      qed
    qed
  qed (use eq Kept in auto)
next
  case False
  then have "\<exists>res. heartbeat P flt_r flt_w req now cfg st = (res, st) \<and> (\<forall>a. res \<noteq> Inr (Accepted a))"
    by (auto simp: heartbeat_def Let_def split: sum.splits)
  then show ?thesis using Kept by blast
qed

definition demoted_row :: "u64 \<Rightarrow> u64 \<Rightarrow> bytes \<Rightarrow> HostRow \<Rightarrow> HostRow" where
  "demoted_row now th k row =
     (if length k = 32 \<and> th < sat_sub now (h_last_hb row) \<and> (h_status row = HOST_ACTIVE \<or> 0 < h_admit_progress row)
      then row\<lparr>h_status := HOST_PENDING, h_admit_progress := 0\<rparr> else row)"

definition stale_rows :: "u64 \<Rightarrow> u64 \<Rightarrow> (bytes \<times> HostRow) list \<Rightarrow> (bytes \<times> HostRow) list" where
  "stale_rows now th rows =
     map (\<lambda>(k, row). (k, demoted_row now th k row))
       (filter (\<lambda>(k, row). length k = 32 \<and> th < sat_sub now (h_last_hb row)
          \<and> (h_status row = HOST_ACTIVE \<or> 0 < h_admit_progress row)) rows)"

lemma evict_scan_clean:
  "\<exists>n'. evict_scan now th rows ok_faults (n, st) = Inr (stale_rows now th rows, n', st)"
proof (induction rows arbitrary: n)
  case Nil
  then show ?case by (simp add: ret_def stale_rows_def)
next
  case (Cons kv rows)
  obtain k row where kv: "kv = (k, row)" by fastforce
  from Cons.IH [of "Suc n"] Cons.IH [of "Suc (Suc n)"] show ?case
    by (auto simp: kv andthen_def decode_def db_call_def ok_faults_def ret_def stale_rows_def demoted_row_def)
qed

lemma HOSTS_update_const: "HOSTS_update f st = st\<lparr>HOSTS := f (HOSTS st)\<rparr>"
  by (cases st) simp

lemma evict_write_clean:
  "\<exists>n'. evict_write rows ok_faults (n, st)
     = Inr ((), n', st\<lparr>HOSTS := fold (\<lambda>(k, r). tbl_insert k r) rows (HOSTS st)\<rparr>)"
proof (induction rows arbitrary: n st)
  case (Cons kv rows)
  obtain k row where kv: "kv = (k, row)" by fastforce
  from Cons.IH [of "Suc (Suc n)" "st\<lparr>HOSTS := tbl_insert k row (HOSTS st)\<rparr>"] show ?case
    by (auto simp: kv andthen_def encode_def put_def db_call_def ok_faults_def HOSTS_update_const [of "tbl_insert k row"])
qed (simp add: ret_def)

lemma tbl_get_fold_insert:
  "distinct (map fst rows) \<Longrightarrow>
     tbl_get (fold (\<lambda>(k, r). tbl_insert k r) rows t) k
       = (case map_of rows k of None \<Rightarrow> tbl_get t k | Some r \<Rightarrow> Some r)"
proof (induction rows arbitrary: t)
  case (Cons kv rows)
  obtain k' r' where kv: "kv = (k', r')" by fastforce
  have "k = k' \<Longrightarrow> map_of rows k = None"
    using Cons.prems by (simp add: kv map_of_eq_None_iff)
  moreover have "tbl_get (fold (\<lambda>(k, r). tbl_insert k r) rows (tbl_insert k' r' t)) k
      = (case map_of rows k of None \<Rightarrow> tbl_get (tbl_insert k' r' t) k | Some r \<Rightarrow> Some r)"
    using Cons.prems by (intro Cons.IH) simp
  ultimately show ?case by (cases "k = k'"; cases "map_of rows k") (simp_all add: kv)
qed simp

lemma in_stale_rows:
  "(k, r) \<in> set (stale_rows now th rows) \<longleftrightarrow>
     (\<exists>row. (k, row) \<in> set rows \<and> r = demoted_row now th k row \<and> length k = 32
        \<and> th < sat_sub now (h_last_hb row) \<and> (h_status row = HOST_ACTIVE \<or> 0 < h_admit_progress row))"
  by (force simp: stale_rows_def)

lemma stale_rows_get:
  fixes t :: "(bytes, HostRow) otable"
  assumes "distinct (map fst (stale_rows now th (tbl_iter t)))"
  shows "tbl_get (fold (\<lambda>(k, r). tbl_insert k r) (stale_rows now th (tbl_iter t)) t) k
    = map_option (demoted_row now th k) (tbl_get t k)"
proof (cases "map_of (stale_rows now th (tbl_iter t)) k")
  case None
  then have "\<forall>r. (k, r) \<notin> set (stale_rows now th (tbl_iter t))"
    by (force simp: map_of_eq_None_iff)
  then have "tbl_get t k = Some row \<Longrightarrow> demoted_row now th k row = row" for row
    by (auto simp: in_stale_rows tbl_get_iter demoted_row_def)
  with None show ?thesis
    by (cases "tbl_get t k") (simp_all add: tbl_get_fold_insert [OF assms])
next
  case (Some r)
  then have "(k, r) \<in> set (stale_rows now th (tbl_iter t))" by (rule map_of_SomeD)
  then obtain row where "tbl_get t k = Some row" and "r = demoted_row now th k row"
    by (auto simp: in_stale_rows tbl_get_iter)
  with Some show ?thesis by (simp add: tbl_get_fold_insert [OF assms])
qed

lemma evict_cases:
  obtains (Failed) "evict_stale flt now cfg st = (Inl Storage, st)"
  | (Evicted) n hosts where "evict_stale flt now cfg st = (Inr n, st\<lparr>HOSTS := hosts\<rparr>)"
      "\<And>k. tbl_get hosts k = map_option (demoted_row now (sat_mul (cfg_heartbeat_interval_s cfg) 3) k) (tbl_get (HOSTS st) k)"
proof (rule with_write_cases [OF fault_safe_evict, of flt now "sat_mul (cfg_heartbeat_interval_s cfg) 3" st])
  let ?th = "sat_mul (cfg_heartbeat_interval_s cfg) 3"
  let ?rows = "tbl_iter (HOSTS st)"
  assume c: "with_write flt (evict_txn now ?th) st = with_write ok_faults (evict_txn now ?th) st"
  obtain n1 where s: "evict_scan now ?th ?rows ok_faults (3, st) = Inr (stale_rows now ?th ?rows, n1, st)"
    using evict_scan_clean by blast
  obtain n2 where w: "evict_write (stale_rows now ?th ?rows) ok_faults (n1, st)
      = Inr ((), n2, st\<lparr>HOSTS := fold (\<lambda>(k, r). tbl_insert k r) (stale_rows now ?th ?rows) (HOSTS st)\<rparr>)"
    using evict_write_clean by blast
  have d: "distinct (map fst (stale_rows now ?th ?rows))"
    using distinct_keys_iter [of "HOSTS st"]
    by (simp add: stale_rows_def comp_def case_prod_beta distinct_map_filter)
  note get = stale_rows_get [OF d]
  from s w show ?thesis
    using c get
    by (intro Evicted [of "length (stale_rows now ?th ?rows)"])
      (simp_all add: evict_stale_def with_write_def evict_txn_def andthen_def open_table_def iter_def db_call_def
        ret_def ok_faults_def numeral_eq_Suc)
qed (use Failed in \<open>simp add: evict_stale_def\<close>)

section \<open>The address policy as address ranges\<close>

text \<open>
  The ranges as CIDR blocks on the address read as one number: 127.0.0.0/8,
  10.0.0.0/8, 172.16.0.0/12, 192.168.0.0/16, 169.254.0.0/16 and 0.0.0.0/32 for
  IPv4; ::/96 (with :: and ::1), IPv4-mapped ::ffff:0:0/96 by its embedded
  address, fc00::/7 and fe80::/10 for IPv6.
\<close>

definition v4_num :: "u8 list \<Rightarrow> nat" where
  "v4_num os = foldl (\<lambda>acc b. acc * 256 + unat b) 0 os"

definition v6_num :: "u16 list \<Rightarrow> nat" where
  "v6_num gs = foldl (\<lambda>acc s. acc * 65536 + unat s) 0 gs"

definition internal_v4 :: "nat \<Rightarrow> bool" where
  "internal_v4 n \<longleftrightarrow> n div 2 ^ 24 = 127 \<or> n div 2 ^ 24 = 10 \<or> n div 2 ^ 20 = 172 * 16 + 1
     \<or> n div 2 ^ 16 = 192 * 256 + 168 \<or> n div 2 ^ 16 = 169 * 256 + 254 \<or> n = 0"

definition internal_v6 :: "nat \<Rightarrow> bool" where
  "internal_v6 n \<longleftrightarrow> n div 2 ^ 32 = 0 \<or> (n div 2 ^ 32 = 0xFFFF \<and> internal_v4 (n mod 2 ^ 32))
     \<or> n div 2 ^ 121 = 0x7E \<or> n div 2 ^ 118 = 0x3FA"

definition internal_ip :: "IpAddr \<Rightarrow> bool" where
  "internal_ip ip = (case ip of V4 os \<Rightarrow> internal_v4 (v4_num os) | V6 gs \<Rightarrow> internal_v6 (v6_num gs))"

lemma digits_eq:
  fixes x y u v k :: nat
  assumes "y < k" and "v < k"
  shows "x * k + y = u * k + v \<longleftrightarrow> x = u \<and> y = v"
proof
  assume eq: "x * k + y = u * k + v"
  have "(x * k + y) div k = x" using assms(1) by simp
  moreover have "(u * k + v) div k = u" using assms(2) by simp
  ultimately have "x = u" using eq by simp
  with eq show "x = u \<and> y = v" by simp
qed simp

lemma v4_forbidden_range:
  assumes "length os = 4"
  shows "v4_forbidden os \<longleftrightarrow> internal_v4 (v4_num os)"
proof -
  obtain a b c d where os: "os = [a, b, c, d]"
    using assms by (auto simp: numeral_eq_Suc length_Suc_conv)
  define a' b' c' d' where d: "a' = unat a" "b' = unat b" "c' = unat c" "d' = unat d"
  have lt: "a' < 256" "b' < 256" "c' < 256" "d' < 256"
    using unsigned_less [of a] unsigned_less [of b] unsigned_less [of c] unsigned_less [of d] by (simp_all add: d)
  have n: "v4_num os = ((a' * 256 + b') * 256 + c') * 256 + d'" by (simp add: os v4_num_def d)
  have 1: "v4_num os div 2 ^ 24 = a'" using lt unfolding n by (intro div_nat_eqI) simp_all
  have 2: "v4_num os div 2 ^ 16 = a' * 256 + b'" using lt unfolding n by (intro div_nat_eqI) simp_all
  have "v4_num os div 2 ^ 20 = v4_num os div 2 ^ 16 div 2 ^ 4"
    by (simp flip: div_mult2_eq)
  then have "v4_num os div 2 ^ 20 = a' * 16 + b' div 16" using 2 by simp
  moreover have "b' div 16 < 16" using lt by (simp add: div_less_iff_less_mult)
  ultimately have 3: "v4_num os div 2 ^ 20 = 172 * 16 + 1 \<longleftrightarrow> a' = 172 \<and> b' div 16 = 1"
    using digits_eq [of "b' div 16" 16 1 a' 172] by simp
  have 4: "b' div 16 = 1 \<longleftrightarrow> 16 \<le> b' \<and> b' \<le> 31"
    by presburger
  have 5: "a' * 256 + b' = 192 * 256 + 168 \<longleftrightarrow> a' = 192 \<and> b' = 168"
    using lt by (intro digits_eq) simp_all
  have 6: "a' * 256 + b' = 169 * 256 + 254 \<longleftrightarrow> a' = 169 \<and> b' = 254"
    using lt by (intro digits_eq) simp_all
  have 7: "v4_num os = 0 \<longleftrightarrow> a' = 0 \<and> b' = 0 \<and> c' = 0 \<and> d' = 0" by (simp add: n)
  have e: "v4_forbidden os \<longleftrightarrow> a' = 127 \<or> a' = 10 \<or> (a' = 172 \<and> 16 \<le> b' \<and> b' \<le> 31)
      \<or> (a' = 192 \<and> b' = 168) \<or> (a' = 169 \<and> b' = 254) \<or> (a' = 0 \<and> b' = 0 \<and> c' = 0 \<and> d' = 0)"
    unfolding v4_forbidden_def v4_is_loopback_def v4_is_private_def v4_is_link_local_def
      v4_is_unspecified_def os d
    by (simp add: word_le_nat_alt word_unat_eq_iff)
  show ?thesis
    unfolding e internal_v4_def 1 2 3 4 5 6 7 by blast
qed

lemma high_bits:
  fixes s :: u16
  assumes "n \<le> 16"
  shows "unat (s AND NOT (mask n)) = unat s div 2 ^ n * 2 ^ n"
proof -
  have "s AND NOT (mask n) = push_bit n (drop_bit n s)"
    by (rule bit_word_eqI) (auto simp: bit_simps)
  moreover have "unat s div 2 ^ n * 2 ^ n < 2 ^ 16"
    using unsigned_less [of s] by (auto intro: le_less_trans [OF div_times_less_eq_dividend])
  moreover have "take_bit 16 (unat s) = unat s"
    using unat_bound [of s] by (simp add: take_bit_nat_eq_self_iff)
  then have "unat (push_bit n (drop_bit n s)) = take_bit 16 (push_bit n (drop_bit n (unat s)))"
    by (simp add: unsigned_push_bit_eq unsigned_drop_bit_eq)
  ultimately show ?thesis
    by (simp add: push_bit_eq_mult drop_bit_eq_div take_bit_eq_mod)
qed

lemma ula_mask: "(s :: u16) AND 0xFE00 = 0xFC00 \<longleftrightarrow> unat s div 2 ^ 9 = 0x7E"
proof -
  have m: "(0xFE00 :: u16) = NOT (mask 9)" by code_simp
  have "unat (s AND 0xFE00) = unat s div 2 ^ 9 * 2 ^ 9" unfolding m by (rule high_bits) simp
  then show ?thesis by (simp add: word_unat_eq_iff)
qed

lemma link_local_mask: "(s :: u16) AND 0xFFC0 = 0xFE80 \<longleftrightarrow> unat s div 2 ^ 6 = 0x3FA"
proof -
  have m: "(0xFFC0 :: u16) = NOT (mask 6)" by code_simp
  have "unat (s AND 0xFFC0) = unat s div 2 ^ 6 * 2 ^ 6" unfolding m by (rule high_bits) simp
  then show ?thesis by (simp add: word_unat_eq_iff)
qed

lemma octets_of_seg_num: "unat s = unat (octets_of_seg s ! 0) * 256 + unat (octets_of_seg s ! 1)"
proof -
  have "take_bit 16 (unat s) = unat s"
    using unat_bound [of s] by (simp add: take_bit_nat_eq_self_iff)
  then have "unat (drop_bit 8 s) = unat s div 256"
    by (simp add: unsigned_drop_bit_eq drop_bit_eq_div [of 8 "unat s"])
  then have "unat (ucast (drop_bit 8 s) :: u8) = unat s div 256"
    using unat_bound [of s] by (simp add: unsigned_ucast_eq take_bit_eq_mod)
  moreover have "unat (ucast s :: u8) = unat s mod 256" by (simp add: unsigned_ucast_eq take_bit_eq_mod)
  ultimately show ?thesis by (simp add: octets_of_seg_def)
qed

lemma octets_pair: "\<exists>x y. octets_of_seg s = [x, y]"
  by (simp add: octets_of_seg_def)

lemma v6_num_split:
  assumes "length gs = 8"
  shows "v6_num gs div 2 ^ 112 = unat (gs ! 0)"
    and "v6_num gs mod 2 ^ 32 = unat (gs ! 6) * 65536 + unat (gs ! 7)"
    and "v6_num gs div 2 ^ 32 = v6_num (take 6 gs)"
proof -
  obtain a b c d e f g h where gs: "gs = [a, b, c, d, e, f, g, h]"
    using assms by (auto simp: numeral_eq_Suc length_Suc_conv)
  have lt: "unat x < 65536" for x :: u16 using unsigned_less [of x] by simp
  define m where "m = ((((unat a * 65536 + unat b) * 65536 + unat c) * 65536 + unat d) * 65536 + unat e) * 65536 + unat f"
  have n: "v6_num gs = (m * 65536 + unat g) * 65536 + unat h" by (simp add: gs v6_num_def m_def)
  have lo: "unat g * 65536 + unat h < 2 ^ 32" using lt [of g] lt [of h] by simp
  have split: "v6_num gs = m * 2 ^ 32 + (unat g * 65536 + unat h)" by (simp add: n)
  show "v6_num gs mod 2 ^ 32 = unat (gs ! 6) * 65536 + unat (gs ! 7)"
    unfolding split using lo by (simp add: gs)
  have "v6_num gs div 2 ^ 32 = m" unfolding split using lo by simp
  then show "v6_num gs div 2 ^ 32 = v6_num (take 6 gs)" by (simp add: gs v6_num_def m_def)
  show "v6_num gs div 2 ^ 112 = unat (gs ! 0)"
    using lt [of b] lt [of c] lt [of d] lt [of e] lt [of f] lt [of g] lt [of h]
    unfolding n m_def by (intro div_nat_eqI) (simp_all add: gs)
qed

lemma v6_num_prefix:
  assumes "length gs = 6"
  shows "v6_num gs = 0 \<longleftrightarrow> gs = [0, 0, 0, 0, 0, 0]"
    and "v6_num gs = 0xFFFF \<longleftrightarrow> gs = [0, 0, 0, 0, 0, 0xFFFF]"
proof -
  obtain a b c d e f where gs: "gs = [a, b, c, d, e, f]"
    using assms by (auto simp: numeral_eq_Suc length_Suc_conv)
  have lt: "unat x < 65536" for x :: u16 using unsigned_less [of x] by simp
  show "v6_num gs = 0 \<longleftrightarrow> gs = [0, 0, 0, 0, 0, 0]"
    by (auto simp: gs v6_num_def unat_eq_zero)
  have "v6_num gs = 0xFFFF \<longleftrightarrow> unat a = 0 \<and> unat b = 0 \<and> unat c = 0 \<and> unat d = 0 \<and> unat e = 0 \<and> unat f = 0xFFFF"
    using digits_eq [OF lt [of f], of "0xFFFF" "v6_num [a, b, c, d, e]" 0] by (auto simp: gs v6_num_def)
  then show "v6_num gs = 0xFFFF \<longleftrightarrow> gs = [0, 0, 0, 0, 0, 0xFFFF]"
    by (auto simp: gs word_unat_eq_iff)
qed

lemma ip_ok_range:
  assumes "parse_ip host = Some ip"
  shows "ip_ok ip \<longleftrightarrow> \<not> internal_ip ip"
proof (cases ip)
  case (V4 os)
  then have "length os = 4" using assms parse_ip_wf(1) by blast
  with V4 show ?thesis by (simp add: ip_ok_def internal_ip_def v4_forbidden_range)
next
  case (V6 gs)
  then have len: "length gs = 8" using assms parse_ip_wf(2) by blast
  let ?v4 = "octets_of_seg (gs ! 6) @ octets_of_seg (gs ! 7)"
  have lo: "v6_num gs mod 2 ^ 32 = v4_num ?v4"
    using v6_num_split(2) [OF len] octets_of_seg_num [of "gs ! 6"] octets_of_seg_num [of "gs ! 7"]
    by (simp add: octets_of_seg_def v4_num_def)
  have v4: "v4_forbidden ?v4 \<longleftrightarrow> internal_v4 (v6_num gs mod 2 ^ 32)"
    unfolding lo by (rule v4_forbidden_range) (simp add: octets_of_seg_def)
  have len6: "length (take 6 gs) = 6" using len by simp
  have hi: "v6_num gs div 2 ^ 121 = unat (gs ! 0) div 2 ^ 9" "v6_num gs div 2 ^ 118 = unat (gs ! 0) div 2 ^ 6"
    unfolding v6_num_split(1) [OF len, symmetric] by (simp_all flip: div_mult2_eq)
  have take6: "take 6 gs = take 5 gs @ [gs ! 5]"
    using len by (simp add: take_Suc_conv_app_nth numeral_eq_Suc)
  have ula: "gs ! 0 AND 0xFE00 = 0xFC00 \<longleftrightarrow> v6_num gs div 2 ^ 121 = 0x7E"
    and ll: "gs ! 0 AND 0xFFC0 = 0xFE80 \<longleftrightarrow> v6_num gs div 2 ^ 118 = 0x3FA"
    by (simp_all only: ula_mask link_local_mask hi)
  show ?thesis
  proof (cases "take 6 gs = [0, 0, 0, 0, 0, 0xFFFF]")
    case True
    then have "gs ! 0 = 0" using len by (metis len6 nth_Cons_0 nth_take zero_less_numeral)
    then have "v6_num gs div 2 ^ 121 = 0" "v6_num gs div 2 ^ 118 = 0" by (simp_all only: hi) simp_all
    with True show ?thesis
      using v6_num_prefix [OF len6] v6_num_split(3) [OF len] v4
      by (simp add: V6 ip_ok_def internal_ip_def internal_v6_def to_ipv4_mapped_def)
  next
    case False
    have zero: "take 6 gs = [0, 0, 0, 0, 0, 0] \<longleftrightarrow> to_ipv4 gs \<noteq> None"
      using False take6 len by (auto simp: to_ipv4_def)
    have "v6_is_loopback gs \<or> v6_is_unspecified gs \<Longrightarrow> take 6 gs = [0, 0, 0, 0, 0, 0]"
      by (auto simp: v6_is_loopback_def v6_is_unspecified_def)
    then have "ip_ok ip \<longleftrightarrow> take 6 gs \<noteq> [0, 0, 0, 0, 0, 0] \<and> v6_num gs div 2 ^ 121 \<noteq> 0x7E \<and> v6_num gs div 2 ^ 118 \<noteq> 0x3FA"
      using False zero ula ll by (auto simp: V6 ip_ok_def to_ipv4_mapped_def Let_def)
    then show ?thesis
      using False v6_num_prefix [OF len6] v6_num_split(3) [OF len]
      by (simp add: V6 internal_ip_def internal_v6_def)
  qed
qed


section \<open>Admission takes time\<close>

text \<open>
  What holds of every host row, with \<open>g\<close> the time its host registered: the
  clock has passed its last heartbeat, every counted step of its admission took
  one heartbeat interval since registration, an active row has counted the
  required number of steps, and its address passed the policy.
\<close>

definition row_ok :: "url_parser \<Rightarrow> BrokerConfig \<Rightarrow> u64 \<Rightarrow> u64 \<Rightarrow> HostRow \<Rightarrow> bool" where
  "row_ok UP cfg now g row \<longleftrightarrow>
     h_last_hb row \<le> now
     \<and> unat g + unat (h_admit_progress row) * unat (cfg_heartbeat_interval_s cfg) \<le> unat (h_last_hb row)
     \<and> (h_status row = HOST_ACTIVE \<longrightarrow> cfg_admission_m cfg \<le> h_admit_progress row)
     \<and> ingress_addr_ok UP (h_ingress_addr row) (cfg_allow_loopback_ingress cfg)"

lemma row_ok_later: "row_ok UP cfg now g row \<Longrightarrow> now \<le> now' \<Longrightarrow> row_ok UP cfg now' g row"
  by (auto simp: row_ok_def)

lemma row_ok_refreshed:
  assumes "ingress_addr_ok UP (hr_ingress_addr body) (cfg_allow_loopback_ingress cfg)"
    and "case r of None \<Rightarrow> g = now | Some row \<Rightarrow> row_ok UP cfg now g row"
  shows "row_ok UP cfg now g (refreshed_row body now r)"
  using assms by (cases r) (auto simp: row_ok_def refreshed_row_def HOST_PENDING_def HOST_ACTIVE_def)

lemma row_ok_beaten:
  assumes "row_ok UP cfg now g row"
  shows "row_ok UP cfg now g (beaten_row body now cfg row)"
proof (cases "cfg_heartbeat_interval_s cfg \<le> sat_sub now (h_last_hb row)")
  case True
  let ?i = "unat (cfg_heartbeat_interval_s cfg)" and ?p = "unat (h_admit_progress row)"
  have "?i + unat (h_last_hb row) \<le> unat now"
    using True assms by (simp add: word_le_nat_alt sat_simps row_ok_def) linarith
  moreover have "unat (sat_add (h_admit_progress row) 1) * ?i \<le> (?p + 1) * ?i"
    using unat_sat_add_le [of "h_admit_progress row" 1] by (intro mult_le_mono1) simp
  moreover have "unat g + ?p * ?i \<le> unat (h_last_hb row)" using assms by (simp add: row_ok_def)
  moreover have "h_admit_progress row \<le> sat_add (h_admit_progress row) 1" by (rule sat_add_mono)
  ultimately show ?thesis
    using True assms by (auto simp: row_ok_def beaten_row_def Let_def)
next
  case False
  with assms show ?thesis by (auto simp: row_ok_def beaten_row_def Let_def word_le_nat_alt)
qed

lemma row_ok_demoted: "row_ok UP cfg now g row \<Longrightarrow> row_ok UP cfg now g (demoted_row now' th k row)"
  by (auto simp: row_ok_def demoted_row_def HOST_PENDING_def HOST_ACTIVE_def)

section \<open>Spaced heartbeats\<close>

lemma heartbeat_accepts:
  assumes "tbl_get (HOSTS st) (hb_host_account (hbr_body req)) = Some row"
    and "is_ok (HeartbeatRequest_validate req)"
    and "is_ok (heartbeat_verify P (hb_host_account (hbr_body req)) (hbr_body req) (hbr_sig req))"
    and "h_hb_counter row < hb_hb_counter (hbr_body req)"
  shows "heartbeat P ok_faults ok_faults req now cfg st =
     (Inr (Accepted (h_status (beaten_row (hbr_body req) now cfg row) = HOST_ACTIVE)),
      st\<lparr>HOSTS := tbl_insert (hb_host_account (hbr_body req)) (beaten_row (hbr_body req) now cfg row) (HOSTS st)\<rparr>)"
proof -
  have "with_read ok_faults (known_txn (hb_host_account (hbr_body req))) st = Inr True"
    using assms(1) by (simp add: with_read_def known_txn_def txn_defs ok_faults_def)
  then show ?thesis
    using assms by (auto simp: heartbeat_def with_write_def heartbeat_txn_def txn_defs ok_faults_def Let_def beaten_row_def)
qed

fun beat_run :: "prims \<Rightarrow> BrokerConfig \<Rightarrow> (HeartbeatRequest \<times> u64) list \<Rightarrow> store \<Rightarrow> store" where
  "beat_run P cfg [] st = st"
| "beat_run P cfg ((req, now) # beats) st = beat_run P cfg beats (snd (heartbeat P ok_faults ok_faults req now cfg st))"

text \<open>
  Valid heartbeats of one host, with increasing counters, each at least the
  interval \<open>i\<close> after the one before; \<open>l\<close> and \<open>c\<close> are the time and counter before the first.
\<close>

fun spaced :: "prims \<Rightarrow> bytes \<Rightarrow> u64 \<Rightarrow> u64 \<Rightarrow> u64 \<Rightarrow> (HeartbeatRequest \<times> u64) list \<Rightarrow> bool" where
  "spaced P h i l c [] = True"
| "spaced P h i l c ((req, now) # beats) \<longleftrightarrow>
     hb_host_account (hbr_body req) = h \<and> is_ok (HeartbeatRequest_validate req)
     \<and> is_ok (heartbeat_verify P h (hbr_body req) (hbr_sig req))
     \<and> c < hb_hb_counter (hbr_body req) \<and> i \<le> sat_sub now l \<and> spaced P h i now (hb_hb_counter (hbr_body req)) beats"

lemma spaced_beats_activate:
  assumes "tbl_get (HOSTS st) h = Some row" and "spaced P h (cfg_heartbeat_interval_s cfg) (h_last_hb row) (h_hb_counter row) beats"
    and "beats \<noteq> []" and "unat (cfg_admission_m cfg) \<le> unat (h_admit_progress row) + length beats"
  shows "\<exists>row'. tbl_get (HOSTS (beat_run P cfg beats st)) h = Some row' \<and> h_status row' = HOST_ACTIVE"
  using assms
proof (induction beats arbitrary: st row)
  case (Cons b beats)
  obtain req now where b: "b = (req, now)" by fastforce
  let ?row = "beaten_row (hbr_body req) now cfg row"
  let ?st = "st\<lparr>HOSTS := tbl_insert h ?row (HOSTS st)\<rparr>"
  have h: "hb_host_account (hbr_body req) = h" using Cons.prems(2) b by simp
  have run: "beat_run P cfg (b # beats) st = beat_run P cfg beats ?st"
    using heartbeat_accepts [of st req row P now cfg] Cons.prems(1,2) b h by simp
  have row: "h_admit_progress ?row = sat_add (h_admit_progress row) 1" "h_last_hb ?row = now"
      "h_hb_counter ?row = hb_hb_counter (hbr_body req)"
      "cfg_admission_m cfg \<le> sat_add (h_admit_progress row) 1 \<Longrightarrow> h_status ?row = HOST_ACTIVE"
    using Cons.prems(2) b by (simp_all add: beaten_row_def Let_def)
  have p: "unat (sat_add (h_admit_progress row) 1) = min (unat (h_admit_progress row) + 1) (2 ^ 32 - 1)"
    using unat_sat_add [of "h_admit_progress row" 1] by simp
  have M: "unat (cfg_admission_m cfg) \<le> 2 ^ 32 - 1" using unat_bound [of "cfg_admission_m cfg"] by simp
  show ?case
  proof (cases "beats = []")
    case True
    then show ?thesis using run row(4) Cons.prems(4) p M by (simp add: word_le_nat_alt)
  next
    case False
    have "unat (cfg_admission_m cfg) \<le> unat (h_admit_progress ?row) + length beats"
      unfolding row(1) p using Cons.prems(4) M by simp
    then show ?thesis
      using Cons.IH [of ?st ?row] Cons.prems(2) False b row(2,3) run by simp
  qed
qed simp

section \<open>Properties\<close>

text \<open>
  C32: the ingress-address policy is exactly the address ranges it means. With
  loopback not allowed, an address is accepted exactly when its URL parses with
  scheme http or https and a host, and a host that is an IP literal (brackets
  stripped) lies in none of the loopback, private, link-local, unspecified,
  unique-local, IPv4-mapped-internal or IPv4-compatible ranges, as CIDR blocks.
\<close>

theorem ingress_policy_exact:
  "ingress_addr_ok UP addr False \<longleftrightarrow>
     (\<exists>scheme host. UP addr = Some (scheme, Some host) \<and> (scheme = ''http'' \<or> scheme = ''https'') \<and>
        (\<forall>ip. parse_ip (trim_end_matches (CHR '']'') (trim_start_matches (CHR ''['') host)) = Some ip
           \<longrightarrow> \<not> internal_ip ip))"
proof (cases "UP addr")
  case (Some sh)
  obtain scheme h where sh: "sh = (scheme, h)" by fastforce
  show ?thesis
  proof (cases h)
    case (Some host)
    let ?ip = "parse_ip (trim_end_matches (CHR '']'') (trim_start_matches (CHR ''['') host))"
    show ?thesis
      using \<open>UP addr = Some sh\<close> sh Some ip_ok_range
      by (cases ?ip) (auto simp: ingress_addr_ok_def Let_def)
  qed (use \<open>UP addr = Some sh\<close> sh in \<open>simp add: ingress_addr_ok_def\<close>)
qed (simp add: ingress_addr_ok_def)

theorem ingress_policy_exact_witness:
  "\<not> ingress_addr_ok (\<lambda>_. Some (''http'', Some ''10.0.0.1'')) ''http://10.0.0.1'' False"
proof -
  have "parse_ip (trim_end_matches (CHR '']'') (trim_start_matches (CHR ''['') ''10.0.0.1'')) = Some (V4 [10, 0, 0, 1])"
    by (simp add: trim_end_matches_def trim_start_matches_def parse_ip_def read_ipv4_addr_def
      read_separator_def read_number_def digit_val_def read_given_char_def numeral_eq_Suc)
  moreover have "internal_ip (V4 [10, 0, 0, 1])"
    by (simp add: internal_ip_def internal_v4_def v4_num_def)
  ultimately show ?thesis by (simp add: ingress_policy_exact)
qed

text \<open>
  Heartbeats are replay-proof. Once a heartbeat was accepted, the same
  heartbeat presented again, at any later time and under any storage faults, is
  never accepted and changes nothing.
\<close>

lemma heartbeat_replay_refused:
  assumes "heartbeat P flt_r flt_w req now cfg st = (Inr (Accepted a), st')"
    and "heartbeat P flt_r' flt_w' req now' cfg st' = (res, st'')"
  shows "st'' = st' \<and> (\<forall>b. res \<noteq> Inr (Accepted b))"
proof -
  have "\<exists>row. tbl_get (HOSTS st') (hb_host_account (hbr_body req)) = Some row
      \<and> h_hb_counter row = hb_hb_counter (hbr_body req)"
    by (rule heartbeat_cases [of P flt_r flt_w req now cfg st])
      (use assms(1) in \<open>auto simp: beaten_row_def Let_def\<close>)
  then obtain row where row: "tbl_get (HOSTS st') (hb_host_account (hbr_body req)) = Some row"
      "h_hb_counter row = hb_hb_counter (hbr_body req)" by blast
  show ?thesis
  proof (rule heartbeat_cases [of P flt_r' flt_w' req now' cfg st'])
    fix r
    assume "heartbeat P flt_r' flt_w' req now' cfg st' = (r, st')" and "\<And>a. r \<noteq> Inr (Accepted a)"
    then show ?thesis using assms(2) by simp
  qed (use row in simp)
qed

definition demo_heartbeat :: HeartbeatRequest where
  "demo_heartbeat = \<lparr>hbr_body = \<lparr>hb_version = 1, hb_host_account = replicate 32 4, hb_hb_counter = 1,
       hb_load_bucket = 0, hb_models = []\<rparr>,
     hbr_sig = demo_sig (replicate 32 4) (HEARTBEAT_DOMAIN @ replicate 32 4 @ to_le_bytes 8 (1 :: u64))\<rparr>"

definition demo_host :: HostRow where
  "demo_host = \<lparr>h_hpke_pk = [1], h_ingress_addr = ''http://h'', h_models = [''m''], h_status = HOST_PENDING,
     h_hb_counter = 0, h_last_hb = 100, h_load_bucket = 0, h_admit_progress = 0\<rparr>"

definition demo_store :: store where
  "demo_store = empty_store\<lparr>HOSTS := tbl_insert (replicate 32 4) demo_host tbl_empty\<rparr>"

lemma demo_heartbeat_accepted:
  "heartbeat demo_prims ok_faults ok_faults demo_heartbeat 130 BrokerConfig_default demo_store =
     (Inr (Accepted False), demo_store\<lparr>HOSTS := tbl_insert (replicate 32 4)
        (demo_host\<lparr>h_hb_counter := 1, h_last_hb := 130, h_admit_progress := 1\<rparr>) (HOSTS demo_store)\<rparr>)"
proof -
  have v: "is_ok (HeartbeatRequest_validate demo_heartbeat)"
    by (simp add: HeartbeatRequest_validate_def demo_heartbeat_def demo_sig_def)
  have s: "is_ok (heartbeat_verify demo_prims (replicate 32 4) (hbr_body demo_heartbeat) (hbr_sig demo_heartbeat))"
    by (simp add: heartbeat_verify_def verify_msg_def verifying_key_def heartbeat_canonical_def with_domain_def
      demo_prims_def demo_heartbeat_def demo_sig_def)
  have a: "hb_host_account (hbr_body demo_heartbeat) = replicate 32 4" by (simp add: demo_heartbeat_def)
  have g: "tbl_get (HOSTS demo_store) (replicate 32 4) = Some demo_host"
    by (simp add: demo_store_def)
  have "h_hb_counter demo_host < hb_hb_counter (hbr_body demo_heartbeat)" by (simp add: demo_host_def demo_heartbeat_def)
  moreover have "beaten_row (hbr_body demo_heartbeat) 130 BrokerConfig_default demo_host
      = demo_host\<lparr>h_hb_counter := 1, h_last_hb := 130, h_admit_progress := 1\<rparr>"
    by (simp add: beaten_row_def demo_heartbeat_def demo_host_def BrokerConfig_default_def sat_sub_def sat_add_def
      word_le_nat_alt Let_def)
  ultimately show ?thesis
    using heartbeat_accepts [of demo_store demo_heartbeat demo_host demo_prims 130 BrokerConfig_default] g v s
    by (simp add: a) (simp add: demo_host_def HOST_PENDING_def HOST_ACTIVE_def)
qed

text \<open>
  C33: admission is reached. A registered host that sends valid heartbeats with
  increasing counters, each at least one interval after the previous one, is
  active after as many of them as the configuration asks for, whatever its
  earlier progress, when no storage call fails.
\<close>

theorem spaced_heartbeats_admit:
  assumes "tbl_get (HOSTS st) h = Some row" and "spaced P h (cfg_heartbeat_interval_s cfg) (h_last_hb row) (h_hb_counter row) beats"
    and "beats \<noteq> []" and "unat (cfg_admission_m cfg) \<le> length beats"
  shows "\<exists>row'. tbl_get (HOSTS (beat_run P cfg beats st)) h = Some row' \<and> h_status row' = HOST_ACTIVE"
  using spaced_beats_activate [OF assms(1-3)] assms(4) by simp

theorem spaced_heartbeats_admit_witness:
  "\<exists>row'. tbl_get (HOSTS (beat_run demo_prims (BrokerConfig_default\<lparr>cfg_admission_m := 1\<rparr>) [(demo_heartbeat, 130)] demo_store))
     (replicate 32 4) = Some row' \<and> h_status row' = HOST_ACTIVE"
proof (rule spaced_heartbeats_admit)
  show "tbl_get (HOSTS demo_store) (replicate 32 4) = Some demo_host" by (simp add: demo_store_def)
  have "is_ok (HeartbeatRequest_validate demo_heartbeat)"
    by (simp add: HeartbeatRequest_validate_def demo_heartbeat_def demo_sig_def)
  moreover have "is_ok (heartbeat_verify demo_prims (replicate 32 4) (hbr_body demo_heartbeat) (hbr_sig demo_heartbeat))"
    by (simp add: heartbeat_verify_def verify_msg_def verifying_key_def heartbeat_canonical_def with_domain_def
      demo_prims_def demo_heartbeat_def demo_sig_def)
  ultimately show "spaced demo_prims (replicate 32 4) (cfg_heartbeat_interval_s (BrokerConfig_default\<lparr>cfg_admission_m := 1\<rparr>))
      (h_last_hb demo_host) (h_hb_counter demo_host) [(demo_heartbeat, 130)]"
    by (simp, simp add: demo_heartbeat_def demo_host_def BrokerConfig_default_def sat_sub_def word_le_nat_alt)
qed simp_all

end
