(* ===== verification/Broker_Credits.thy ===== *)
theory Broker_Credits
  imports Broker_Store
begin

text \<open>
  The two ways credits enter the ledger besides an operator grant:
  \<open>lluma-broker/src/receipts.rs\<close> (a host is credited for a served request)
  and \<open>lluma-broker/src/trial.rs\<close> (the one-time trial allowance).
\<close>

section \<open>Receipts\<close>

datatype IngestOutcome =
    Credited
  | AlreadyCredited
  | UnknownHost
  | BadRequest
  | BadSignature
  | NoBurnedSpend
  | WrongHost
  | OverCap

definition receipt_row :: "ReceiptSubmit \<Rightarrow> ReceiptRow" where
  "receipt_row submit =
     (let body = rs_body submit in
      \<lparr>r_host_account = ur_host_account body, r_model_id = ur_model_id body, r_tier = ur_tier body,
       r_units = ur_units body, r_epoch = ucast (ur_epoch body), r_timestamp_h = ur_timestamp_h body,
       r_sig = rs_sig submit\<rparr>)"

definition ingest_txn :: "ReceiptSubmit \<Rightarrow> AccountId \<Rightarrow> IngestOutcome txn" where
  "ingest_txn submit account_id =
     (let body = rs_body submit; spend_key = ur_spend_id body in
      andthen (open_table HOSTS) (\<lambda>_.
      andthen (get HOSTS (ur_host_account body)) (\<lambda>h.
      if h = None then ret UnknownHost
      else
        andthen (open_table SPENT) (\<lambda>_.
        andthen (get SPENT spend_key) (\<lambda>s.
        if s = None then ret NoBurnedSpend
        else
          andthen (open_table SPEND_HOST) (\<lambda>_.
          andthen (get SPEND_HOST spend_key) (\<lambda>bound.
          if bound \<noteq> Some (ur_host_account body) then ret WrongHost
          else
            andthen (open_table RECEIPTS) (\<lambda>_.
            andthen (get RECEIPTS spend_key) (\<lambda>r.
            if r \<noteq> None then ret AlreadyCredited
            else
              andthen (encode (receipt_row submit)) (\<lambda>rb.
              andthen (put RECEIPTS_update spend_key rb) (\<lambda>_.
              andthen (open_table LEDGER) (\<lambda>_.
              andthen (get LEDGER account_id) (\<lambda>l.
              andthen (decode_or LedgerRow_default l) (\<lambda>lrow.
              andthen (encode (lrow\<lparr>l_balance := sat_add (l_balance lrow) 1,
                                    l_earned := sat_add (l_earned lrow) 1\<rparr>)) (\<lambda>lb.
              andthen (put LEDGER_update account_id lb) (\<lambda>_.
              ret Credited))))))))))))))))"

definition ingest ::
  "prims \<Rightarrow> faults \<Rightarrow> ReceiptSubmit \<Rightarrow> BrokerConfig \<Rightarrow> store \<Rightarrow> (BrokerError + IngestOutcome) \<times> store" where
  "ingest P flt submit cfg st =
     (if \<not> is_ok (ReceiptSubmit_validate submit) then (Inr IngestOutcome.BadRequest, st)
      else
        let body = rs_body submit; host_pk = ur_host_account body in
        if \<not> is_ok (receipt_verify P host_pk body (rs_sig submit)) then (Inr IngestOutcome.BadSignature, st)
        else if cfg_units_audit_cap cfg < ur_units body then (Inr OverCap, st)
        else with_write flt (ingest_txn submit (account_fingerprint P host_pk)) st)"

section \<open>Trial grants\<close>

datatype TrialOutcome = Granted | AlreadyGranted | BudgetExhausted | BadPow | BadRequest

definition trial_pow_ok :: "prims \<Rightarrow> BrokerConfig \<Rightarrow> bytes \<Rightarrow> bytes \<Rightarrow> bool" where
  "trial_pow_ok P cfg account_pk nonce \<longleftrightarrow>
     pow_verify P POW_TRIAL_DOMAIN account_pk nonce (cfg_epoch_salt cfg) (cfg_pow_difficulty cfg)
     \<or> (case cfg_epoch_salt_prev cfg of None \<Rightarrow> False
        | Some prev \<Rightarrow> pow_verify P POW_TRIAL_DOMAIN account_pk nonce prev (cfg_pow_difficulty cfg))"

definition trial_txn :: "bytes \<Rightarrow> AccountId \<Rightarrow> BrokerConfig \<Rightarrow> u64 \<Rightarrow> TrialOutcome txn" where
  "trial_txn account account_id cfg day =
     andthen (open_table TRIAL_ACCTS) (\<lambda>_.
     andthen (get TRIAL_ACCTS account) (\<lambda>a.
     if a \<noteq> None then ret AlreadyGranted
     else
       andthen (open_table TRIAL_BUDGET) (\<lambda>_.
       andthen (get TRIAL_BUDGET day) (\<lambda>got.
       let granted_today = (case got of None \<Rightarrow> 0 | Some v \<Rightarrow> v) in
       if cfg_daily_trial_budget cfg < sat_add granted_today (cfg_trial_grant cfg) then ret BudgetExhausted
       else
         andthen (open_table TRIAL_ACCTS) (\<lambda>_.
         andthen (put TRIAL_ACCTS_update account day) (\<lambda>_.
         andthen (open_table TRIAL_BUDGET) (\<lambda>_.
         andthen (put TRIAL_BUDGET_update day (sat_add granted_today (cfg_trial_grant cfg))) (\<lambda>_.
         andthen (open_table LEDGER) (\<lambda>_.
         andthen (get LEDGER account_id) (\<lambda>l.
         andthen (decode_or LedgerRow_default l) (\<lambda>lrow.
         andthen (encode (lrow\<lparr>l_balance := sat_add (l_balance lrow) (cfg_trial_grant cfg),
                               l_earned := sat_add (l_earned lrow) (cfg_trial_grant cfg)\<rparr>)) (\<lambda>lb.
         andthen (put LEDGER_update account_id lb) (\<lambda>_.
         andthen (open_table COUNTERS) (\<lambda>_.
         andthen (get COUNTERS (cfg_epoch cfg)) (\<lambda>c.
         andthen (decode_or CounterRow_default c) (\<lambda>crow.
         andthen (encode (crow\<lparr>c_trial_granted := sat_add (c_trial_granted crow) (cfg_trial_grant cfg)\<rparr>)) (\<lambda>cb.
         andthen (put COUNTERS_update (cfg_epoch cfg) cb) (\<lambda>_.
         ret Granted))))))))))))))))))"

definition grant_trial ::
  "prims \<Rightarrow> faults \<Rightarrow> TrialRegisterRequest \<Rightarrow> BrokerConfig \<Rightarrow> u64 \<Rightarrow> store \<Rightarrow>
   (BrokerError + TrialOutcome) \<times> store" where
  "grant_trial P flt req cfg day st =
     (if \<not> is_ok (TrialRegisterRequest_validate req) then (Inr TrialOutcome.BadRequest, st)
      else
        let account = tr_account (trr_body req) in
        if length (trr_pow_nonce req) \<noteq> 8 then (Inr BadPow, st)
        else if \<not> trial_pow_ok P cfg account (trr_pow_nonce req) then (Inr BadPow, st)
        else with_write flt (trial_txn account (account_fingerprint P account) cfg day) st)"

section \<open>What each operation does to the tables\<close>

lemma fault_safe_ingest [txn_safe]: "fault_safe (ingest_txn submit a)"
  unfolding ingest_txn_def by (intro txn_safe)

lemma fault_safe_trial [txn_safe]: "fault_safe (trial_txn account a cfg day)"
  unfolding trial_txn_def by (intro txn_safe)

definition credit_row :: "u64 \<Rightarrow> LedgerRow \<Rightarrow> LedgerRow" where
  "credit_row n row = row\<lparr>l_balance := sat_add (l_balance row) n, l_earned := sat_add (l_earned row) n\<rparr>"

lemma ingest_txn_clean:
  "with_write ok_faults (ingest_txn submit a) st =
     (let b = rs_body submit; k = ur_spend_id b; h = ur_host_account b in
      if tbl_get (HOSTS st) h = None then (Inr UnknownHost, st)
      else if tbl_get (SPENT st) k = None then (Inr NoBurnedSpend, st)
      else if tbl_get (SPEND_HOST st) k \<noteq> Some h then (Inr WrongHost, st)
      else if tbl_get (RECEIPTS st) k \<noteq> None then (Inr AlreadyCredited, st)
      else (Inr Credited, st\<lparr>RECEIPTS := tbl_insert k (receipt_row submit) (RECEIPTS st),
              LEDGER := tbl_insert a (credit_row 1 (ledger_row st a)) (LEDGER st)\<rparr>))"
  by (simp add: with_write_def ingest_txn_def txn_defs ok_faults_def ledger_row_def credit_row_def Let_def)

definition spent_today :: "store \<Rightarrow> u64 \<Rightarrow> u64" where
  "spent_today st day = (case tbl_get (TRIAL_BUDGET st) day of None \<Rightarrow> 0 | Some v \<Rightarrow> v)"

definition trial_store :: "bytes \<Rightarrow> AccountId \<Rightarrow> BrokerConfig \<Rightarrow> u64 \<Rightarrow> store \<Rightarrow> store" where
  "trial_store account a cfg day st =
     st\<lparr>TRIAL_ACCTS := tbl_insert account day (TRIAL_ACCTS st),
        TRIAL_BUDGET := tbl_insert day (sat_add (spent_today st day) (cfg_trial_grant cfg)) (TRIAL_BUDGET st),
        LEDGER := tbl_insert a (credit_row (cfg_trial_grant cfg) (ledger_row st a)) (LEDGER st),
        COUNTERS := tbl_insert (cfg_epoch cfg) ((counter st (cfg_epoch cfg))\<lparr>c_trial_granted :=
          sat_add (c_trial_granted (counter st (cfg_epoch cfg))) (cfg_trial_grant cfg)\<rparr>) (COUNTERS st)\<rparr>"

lemma trial_txn_clean:
  "with_write ok_faults (trial_txn account a cfg day) st =
     (if tbl_get (TRIAL_ACCTS st) account \<noteq> None then (Inr AlreadyGranted, st)
      else if cfg_daily_trial_budget cfg < sat_add (spent_today st day) (cfg_trial_grant cfg)
      then (Inr BudgetExhausted, st)
      else (Inr Granted, trial_store account a cfg day st))"
  by (simp add: with_write_def trial_txn_def txn_defs ok_faults_def spent_today_def trial_store_def
    ledger_row_def credit_row_def counter_def Let_def)

lemma ingest_cases:
  obtains (Kept) res where "ingest P flt submit cfg st = (res, st)" "res \<noteq> Inr Credited"
  | (Credited) a where "a = account_fingerprint P (ur_host_account (rs_body submit))"
      "ingest P flt submit cfg st = (Inr Credited,
         st\<lparr>RECEIPTS := tbl_insert (ur_spend_id (rs_body submit)) (receipt_row submit) (RECEIPTS st),
            LEDGER := tbl_insert a (credit_row 1 (ledger_row st a)) (LEDGER st)\<rparr>)"
      "tbl_get (HOSTS st) (ur_host_account (rs_body submit)) \<noteq> None"
      "tbl_get (SPENT st) (ur_spend_id (rs_body submit)) \<noteq> None"
      "tbl_get (SPEND_HOST st) (ur_spend_id (rs_body submit)) = Some (ur_host_account (rs_body submit))"
      "tbl_get (RECEIPTS st) (ur_spend_id (rs_body submit)) = None"
      "is_ok (receipt_verify P (ur_host_account (rs_body submit)) (rs_body submit) (rs_sig submit))"
proof (cases "is_ok (ReceiptSubmit_validate submit)
    \<and> is_ok (receipt_verify P (ur_host_account (rs_body submit)) (rs_body submit) (rs_sig submit))
    \<and> ur_units (rs_body submit) \<le> cfg_units_audit_cap cfg")
  case True
  define a where "a = account_fingerprint P (ur_host_account (rs_body submit))"
  have eq: "ingest P flt submit cfg st = with_write flt (ingest_txn submit a) st"
    using True by (auto simp: ingest_def Let_def a_def dest: leD)
  show ?thesis
  proof (rule with_write_cases [OF fault_safe_ingest, of flt submit a st])
    assume c: "with_write flt (ingest_txn submit a) st = with_write ok_faults (ingest_txn submit a) st"
    show ?thesis
      using eq [unfolded c ingest_txn_clean Let_def] Kept Credited [OF a_def] True
      by (simp split: if_splits)
  qed (use eq Kept in auto)
next
  case False
  then have "\<exists>res. ingest P flt submit cfg st = (res, st) \<and> res \<noteq> Inr IngestOutcome.Credited"
    by (auto simp: ingest_def Let_def not_less)
  with Kept show ?thesis by blast
qed

lemma trial_cases:
  obtains (Kept) res where "grant_trial P flt req cfg day st = (res, st)" "res \<noteq> Inr Granted"
  | (Granted) account a where "account = tr_account (trr_body req)" "a = account_fingerprint P account"
      "grant_trial P flt req cfg day st = (Inr Granted, trial_store account a cfg day st)"
      "tbl_get (TRIAL_ACCTS st) account = None"
      "sat_add (spent_today st day) (cfg_trial_grant cfg) \<le> cfg_daily_trial_budget cfg"
      "trial_pow_ok P cfg account (trr_pow_nonce req)"
proof (cases "is_ok (TrialRegisterRequest_validate req) \<and> length (trr_pow_nonce req) = 8
    \<and> trial_pow_ok P cfg (tr_account (trr_body req)) (trr_pow_nonce req)")
  case True
  define account where "account = tr_account (trr_body req)"
  define a where "a = account_fingerprint P account"
  have eq: "grant_trial P flt req cfg day st = with_write flt (trial_txn account a cfg day) st"
    using True by (simp add: grant_trial_def Let_def account_def a_def)
  show ?thesis
  proof (rule with_write_cases [OF fault_safe_trial, of flt account a cfg day st])
    assume c: "with_write flt (trial_txn account a cfg day) st = with_write ok_faults (trial_txn account a cfg day) st"
    show ?thesis
      using eq [unfolded c trial_txn_clean] Kept Granted [OF account_def a_def] True
      by (simp add: not_less account_def split: if_splits)
  qed (use eq Kept in auto)
next
  case False
  then have "\<exists>res. grant_trial P flt req cfg day st = (res, st) \<and> res \<noteq> Inr Granted"
    by (auto simp: grant_trial_def Let_def)
  with Kept show ?thesis by blast
qed

section \<open>Properties\<close>

text \<open>
  C25: a receipt credits exactly one credit, once, and only the host the spend was
  forwarded to. An accepted receipt adds one credit to the ledger of the host
  bound to the spend (its claimed units play no part), leaves every other balance
  alone, and from then on no submission naming that spend, by anyone, changes
  anything.
\<close>

theorem receipt_credits_exactly_one:
  assumes "ingest P flt submit cfg st = (Inr Credited, st')"
  shows "tbl_get (SPEND_HOST st) (ur_spend_id (rs_body submit)) = Some (ur_host_account (rs_body submit))
    \<and> (\<forall>b. balance_of st' b =
         (if b = account_fingerprint P (ur_host_account (rs_body submit))
          then sat_add (balance_of st b) 1 else balance_of st b))
    \<and> (\<forall>P' flt' again cfg'. ur_spend_id (rs_body again) = ur_spend_id (rs_body submit)
         \<longrightarrow> snd (ingest P' flt' again cfg' st') = st')"
proof (rule ingest_cases [of P flt submit cfg st])
  fix a
  assume a: "a = account_fingerprint P (ur_host_account (rs_body submit))"
    and eq: "ingest P flt submit cfg st = (Inr Credited,
         st\<lparr>RECEIPTS := tbl_insert (ur_spend_id (rs_body submit)) (receipt_row submit) (RECEIPTS st),
            LEDGER := tbl_insert a (credit_row 1 (ledger_row st a)) (LEDGER st)\<rparr>)"
    and host: "tbl_get (SPEND_HOST st) (ur_spend_id (rs_body submit)) = Some (ur_host_account (rs_body submit))"
  have recorded: "tbl_get (RECEIPTS st') (ur_spend_id (rs_body submit)) \<noteq> None"
    using assms eq by auto
  have "snd (ingest P' flt' again cfg' st') = st'"
    if "ur_spend_id (rs_body again) = ur_spend_id (rs_body submit)" for P' flt' again cfg'
    by (rule ingest_cases [of P' flt' again cfg' st']) (use recorded that in auto)
  moreover have "balance_of st' b = (if b = a then sat_add (balance_of st b) 1 else balance_of st b)" for b
    using assms eq by (auto simp: balance_of_def ledger_row_def credit_row_def)
  ultimately show ?thesis using host a by blast
qed (use assms in simp)

definition demo_receipt :: ReceiptSubmit where
  "demo_receipt = \<lparr>rs_body = \<lparr>ur_version = 1, ur_host_account = replicate 32 4, ur_model_id = ''m'', ur_tier = 0,
       ur_units = 3, ur_spend_id = replicate 32 7, ur_epoch = 1, ur_timestamp_h = 0\<rparr>,
     rs_sig = demo_sig (replicate 32 4) (RECEIPT_DOMAIN @ replicate 32 4 @ replicate 32 7)\<rparr>"

definition demo_spent_store :: store where
  "demo_spent_store = empty_store\<lparr>
     HOSTS := tbl_insert (replicate 32 4) \<lparr>h_hpke_pk = [1], h_ingress_addr = ''http://h'', h_models = [''m''],
       h_status = HOST_ACTIVE, h_hb_counter = 3, h_last_hb = 100, h_load_bucket = 0, h_admit_progress = 3\<rparr> tbl_empty,
     SPENT := tbl_insert (replicate 32 7) 1 tbl_empty,
     SPEND_HOST := tbl_insert (replicate 32 7) (replicate 32 4) tbl_empty\<rparr>"

lemma demo_receipt_credited:
  "ingest demo_prims ok_faults demo_receipt BrokerConfig_default demo_spent_store =
     (Inr Credited, demo_spent_store\<lparr>
        RECEIPTS := tbl_insert (replicate 32 7) (receipt_row demo_receipt) tbl_empty,
        LEDGER := tbl_insert (replicate 32 4) \<lparr>l_balance = 1, l_earned = 1, l_spent = 0\<rparr> tbl_empty\<rparr>)"
proof -
  have "is_ok (ReceiptSubmit_validate demo_receipt)"
    by (simp add: ReceiptSubmit_validate_def demo_receipt_def demo_sig_def)
  moreover have "is_ok (receipt_verify demo_prims (replicate 32 4) (rs_body demo_receipt) (rs_sig demo_receipt))"
    by (simp add: receipt_verify_def verify_msg_def verifying_key_def canonical_def with_domain_def
      demo_prims_def demo_receipt_def demo_sig_def)
  moreover have "ur_host_account (rs_body demo_receipt) = replicate 32 4"
    "ur_spend_id (rs_body demo_receipt) = replicate 32 7" "ur_units (rs_body demo_receipt) = 3"
    by (simp_all add: demo_receipt_def)
  moreover have "account_fingerprint demo_prims (replicate 32 4) = replicate 32 4"
    by (simp add: account_fingerprint_def demo_prims_def)
  ultimately show ?thesis
    by (simp add: ingest_def ingest_txn_clean BrokerConfig_default_def)
      (simp add: demo_spent_store_def empty_store_def ledger_row_def LedgerRow_default_def credit_row_def sat_add_def Let_def)
qed

theorem receipt_credits_exactly_one_witness:
  "tbl_get (SPEND_HOST demo_spent_store) (replicate 32 7) = Some (replicate 32 4)
   \<and> balance_of (snd (ingest demo_prims ok_faults demo_receipt BrokerConfig_default demo_spent_store))
       (account_fingerprint demo_prims (replicate 32 4))
     = sat_add (balance_of demo_spent_store (account_fingerprint demo_prims (replicate 32 4))) 1"
  using receipt_credits_exactly_one [OF demo_receipt_credited]
  by (simp add: demo_receipt_credited) (simp add: demo_receipt_def)

end
