(* ===== verification/Broker_Snapshot.thy ===== *)
theory Broker_Snapshot
  imports Broker_Store
begin

text \<open>
  The signed registry snapshot: \<open>lluma-broker/src/snapshot.rs\<close>. The body is
  built from the active hosts in key order, encoded, length-prefixed, padded to
  a fixed bucket and signed whole. The postcard codec of the body is the record
  \<open>snapshot_codec\<close>.
\<close>

record snapshot_codec =
  snap_enc :: "SnapshotBody \<Rightarrow> bytes option"
  snap_dec :: "bytes \<Rightarrow> SnapshotBody option"

definition SNAPSHOT_BUCKET :: nat where
  "SNAPSHOT_BUCKET = 65536"

definition LEN_PREFIX :: nat where
  "LEN_PREFIX = 4"

fun build_scan :: "(bytes \<times> HostRow) list \<Rightarrow> SnapshotHostEntry list txn" where
  "build_scan [] = ret []"
| "build_scan ((k, v) # rest) =
     andthen (decode ()) (\<lambda>_.
     if length k \<noteq> 32 then build_scan rest
     else andthen (decode v) (\<lambda>row.
       if h_status row \<noteq> HOST_ACTIVE then build_scan rest
       else andthen (build_scan rest) (\<lambda>out.
         ret (\<lparr>se_host_account = k, se_hpke_pk = h_hpke_pk row, se_models = h_models row,
               se_tier_flags = 0, se_load_bucket = h_load_bucket row, se_freshness_bucket = 0\<rparr> # out))))"

definition build :: "faults \<Rightarrow> SnapshotHeader \<Rightarrow> store \<Rightarrow> BrokerError + SnapshotBody" where
  "build flt header st =
     (case with_read flt
         (andthen (open_table HOSTS) (\<lambda>_. andthen (iter HOSTS) (\<lambda>rows. build_scan rows))) st of
        Inl e \<Rightarrow> Inl e
      | Inr hosts \<Rightarrow> Inr \<lparr>sb_header = header, sb_hosts = hosts\<rparr>)"

definition encode_and_pad :: "snapshot_codec \<Rightarrow> SnapshotBody \<Rightarrow> BrokerError + bytes" where
  "encode_and_pad C body =
     (case snap_enc C body of None \<Rightarrow> Inl Storage
      | Some enc \<Rightarrow>
          if LEN_PREFIX + length enc > SNAPSHOT_BUCKET then Inl SnapshotTooLarge
          else
            let out = replicate SNAPSHOT_BUCKET 0;
                len = (of_nat (length enc) :: u32);
                out1 = to_le_bytes 4 len @ drop LEN_PREFIX out;
                out2 = take LEN_PREFIX out1 @ enc @ drop (LEN_PREFIX + length enc) out1 in
            Inr out2)"

definition publish ::
  "prims \<Rightarrow> snapshot_codec \<Rightarrow> faults \<Rightarrow> SnapshotHeader \<Rightarrow> AccountSecretKey \<Rightarrow> store \<Rightarrow> BrokerError + SnapshotResponse" where
  "publish P C flt header registry_sk st =
     (case build flt header st of Inl e \<Rightarrow> Inl e
      | Inr body \<Rightarrow>
          (case encode_and_pad C body of Inl e \<Rightarrow> Inl e
           | Inr padded \<Rightarrow>
               (case snapshot_sign P registry_sk padded of Inl _ \<Rightarrow> Inl Storage
                | Inr sig \<Rightarrow> Inr \<lparr>sr_body = padded, sr_sig = sig\<rparr>)))"

definition snapshot_open :: "prims \<Rightarrow> snapshot_codec \<Rightarrow> AccountPublicKey \<Rightarrow> SnapshotResponse \<Rightarrow> BrokerError + SnapshotBody" where
  "snapshot_open P C registry_pk resp =
     (if \<not> is_ok (SnapshotResponse_validate resp) then Inl SnapshotInvalid
      else if \<not> is_ok (snapshot_verify P registry_pk (sr_body resp) (sr_sig resp)) then Inl SnapshotInvalid
      else if length (sr_body resp) < LEN_PREFIX then Inl SnapshotInvalid
      else
        let len = unat (from_le_bytes (take 4 (sr_body resp)) :: u32);
            end' = LEN_PREFIX + len in
        if end' \<le> length (sr_body resp)
        then (case snap_dec C (subslice LEN_PREFIX end' (sr_body resp)) of
                None \<Rightarrow> Inl SnapshotInvalid | Some body \<Rightarrow> Inr body)
        else Inl SnapshotInvalid)"

section \<open>Facts\<close>

lemma fault_safe_build_scan [txn_safe]: "fault_safe (build_scan rows)"
proof (induction rows)
  case (Cons kv rows)
  then show ?case by (cases kv) (simp only: build_scan.simps, intro txn_safe)
qed (simp add: txn_safe)

text \<open>The entry a row contributes, and the list the scan returns.\<close>

definition host_entry :: "bytes \<Rightarrow> HostRow \<Rightarrow> SnapshotHostEntry" where
  "host_entry k row = \<lparr>se_host_account = k, se_hpke_pk = h_hpke_pk row, se_models = h_models row,
     se_tier_flags = 0, se_load_bucket = h_load_bucket row, se_freshness_bucket = 0\<rparr>"

definition active_entries :: "(bytes \<times> HostRow) list \<Rightarrow> SnapshotHostEntry list" where
  "active_entries rows = map (\<lambda>(k, row). host_entry k row)
     (filter (\<lambda>(k, row). length k = 32 \<and> h_status row = HOST_ACTIVE) rows)"

lemma build_scan_clean: "\<exists>n'. build_scan rows ok_faults (n, st) = Inr (active_entries rows, n', st)"
proof (induction rows arbitrary: n)
  case (Cons kv rows)
  obtain k row where kv: "kv = (k, row)" by fastforce
  from Cons.IH [of "Suc n"] Cons.IH [of "Suc (Suc n)"] show ?case
    by (auto simp: kv andthen_def decode_def db_call_def ok_faults_def ret_def active_entries_def host_entry_def)
qed (simp add: ret_def active_entries_def)

lemma build_cases:
  obtains (Failed) "build flt header st = Inl Storage"
  | (Built) "build flt header st = Inr \<lparr>sb_header = header, sb_hosts = active_entries (tbl_iter (HOSTS st))\<rparr>"
proof -
  let ?p = "andthen (open_table HOSTS) (\<lambda>_. andthen (iter HOSTS) (\<lambda>rows. build_scan rows))"
  have s: "fault_safe ?p" by (intro txn_safe)
  obtain n' where c: "build_scan (tbl_iter (HOSTS st)) ok_faults (3, st) = Inr (active_entries (tbl_iter (HOSTS st)), n', st)"
    using build_scan_clean by blast
  have clean: "with_read ok_faults ?p st = Inr (active_entries (tbl_iter (HOSTS st)))"
    using c by (simp add: with_read_def andthen_def open_table_def iter_def db_call_def ok_faults_def numeral_eq_Suc)
  from s show ?thesis
    by (rule with_read_cases [of ?p flt st]) (use clean Failed Built in \<open>simp_all add: build_def\<close>)
qed

lemma encode_and_pad_parts:
  assumes "encode_and_pad C body = Inr padded"
  obtains enc where "snap_enc C body = Some enc" "4 + length enc \<le> SNAPSHOT_BUCKET"
    "padded = to_le_bytes 4 (of_nat (length enc) :: u32) @ enc @ replicate (SNAPSHOT_BUCKET - 4 - length enc) 0"
  using assms
  by (auto simp: encode_and_pad_def Let_def LEN_PREFIX_def not_less drop_replicate split: option.splits if_splits)

lemma padded_length: "encode_and_pad C body = Inr padded \<Longrightarrow> length padded = SNAPSHOT_BUCKET"
  by (erule encode_and_pad_parts) simp

lemma len_prefix_round_trip:
  assumes "4 + n \<le> SNAPSHOT_BUCKET"
  shows "unat (from_le_bytes (to_le_bytes 4 (of_nat n :: u32)) :: u32) = n"
proof -
  have "from_le_bytes (to_le_bytes 4 (of_nat n :: u32)) = (of_nat n :: u32)"
    by (rule from_to_le_bytes) simp
  then show ?thesis using assms by (simp add: unat_of_nat SNAPSHOT_BUCKET_def)
qed

lemma open_padded:
  assumes "snap_dec C enc = Some body" and "4 + length enc \<le> SNAPSHOT_BUCKET"
    and "sr_body resp = to_le_bytes 4 (of_nat (length enc) :: u32) @ enc @ pad"
    and "is_ok (SnapshotResponse_validate resp)"
    and "is_ok (snapshot_verify P pk (sr_body resp) (sr_sig resp))"
  shows "snapshot_open P C pk resp = Inr body"
  using assms len_prefix_round_trip [OF assms(2)]
  by (simp add: snapshot_open_def LEN_PREFIX_def subslice_def)

section \<open>Properties\<close>

text \<open>
  C30: the snapshot has a fixed size and verifies to the active hosts. Whatever the
  registry holds, a published snapshot is exactly 65536 bytes (so its size tells
  nothing about the number of hosts), and under the matching registry key it opens
  to the given header and exactly the active hosts in ascending account order, for
  every codec that decodes what it encodes and every correct signature scheme.
\<close>

theorem snapshot_round_trip:
  assumes "publish P C flt header sk st = Inr resp"
    and "account_public_from_secret P sk = Inr pk" and "ed_correct P sk"
    and "\<And>b enc. snap_enc C b = Some enc \<Longrightarrow> snap_dec C enc = Some b"
  shows "length (sr_body resp) = 65536 \<and>
    snapshot_open P C pk resp = Inr \<lparr>sb_header = header, sb_hosts = active_entries (tbl_iter (HOSTS st))\<rparr>"
proof (rule build_cases [of flt header st])
  assume b: "build flt header st = Inr \<lparr>sb_header = header, sb_hosts = active_entries (tbl_iter (HOSTS st))\<rparr>"
  let ?body = "\<lparr>sb_header = header, sb_hosts = active_entries (tbl_iter (HOSTS st))\<rparr>"
  obtain padded sig where p: "encode_and_pad C ?body = Inr padded"
    and s: "snapshot_sign P sk padded = Inr sig" and r: "resp = \<lparr>sr_body = padded, sr_sig = sig\<rparr>"
    using assms(1) b by (auto simp: publish_def split: sum.splits)
  obtain enc where e: "snap_enc C ?body = Some enc" "4 + length enc \<le> SNAPSHOT_BUCKET"
    "padded = to_le_bytes 4 (of_nat (length enc) :: u32) @ enc @ replicate (SNAPSHOT_BUCKET - 4 - length enc) 0"
    using encode_and_pad_parts [OF p] by blast
  have v: "snapshot_verify P pk padded sig = Inr ()"
    using s sign_msg_verify [OF assms(3,2)] by (simp add: snapshot_sign_def snapshot_verify_def)
  then have "length sig = 64" by (simp add: snapshot_verify_def verify_msg_Inr)
  then have "is_ok (SnapshotResponse_validate resp)"
    using padded_length [OF p] by (simp add: r SnapshotResponse_validate_def SNAPSHOT_BUCKET_def)
  then have "snapshot_open P C pk resp = Inr ?body"
    using e v by (intro open_padded [OF assms(4) [OF e(1)]]) (simp_all add: r)
  then show ?thesis using padded_length [OF p] by (simp add: r SNAPSHOT_BUCKET_def)
qed (use assms(1) in \<open>simp add: publish_def\<close>)

definition demo_header :: SnapshotHeader where
  "demo_header = \<lparr>sh_epoch = 1, sh_issued_at_h = 0, sh_issuer_key_id = replicate 32 0\<rparr>"

definition demo_snapshot_codec :: snapshot_codec where
  "demo_snapshot_codec = \<lparr>
     snap_enc = (\<lambda>b. if b = \<lparr>sb_header = demo_header, sb_hosts = []\<rparr> then Some [5] else None),
     snap_dec = (\<lambda>_. Some \<lparr>sb_header = demo_header, sb_hosts = []\<rparr>)\<rparr>"

theorem snapshot_round_trip_witness:
  "\<exists>resp. publish demo_prims demo_snapshot_codec ok_faults demo_header (replicate 32 1) empty_store = Inr resp
     \<and> length (sr_body resp) = 65536
     \<and> snapshot_open demo_prims demo_snapshot_codec (replicate 32 1) resp
         = Inr \<lparr>sb_header = demo_header, sb_hosts = active_entries (tbl_iter (HOSTS empty_store))\<rparr>"
proof -
  have "build ok_faults demo_header empty_store = Inr \<lparr>sb_header = demo_header, sb_hosts = []\<rparr>"
    by (simp add: build_def with_read_def txn_defs ok_faults_def empty_store_def)
  moreover obtain padded where "encode_and_pad demo_snapshot_codec \<lparr>sb_header = demo_header, sb_hosts = []\<rparr> = Inr padded"
    by (simp add: encode_and_pad_def demo_snapshot_codec_def LEN_PREFIX_def SNAPSHOT_BUCKET_def Let_def)
  moreover obtain sig where "snapshot_sign demo_prims (replicate 32 1) padded = Inr sig"
    by (simp add: snapshot_sign_def sign_msg_def signing_key_def)
  ultimately have p: "publish demo_prims demo_snapshot_codec ok_faults demo_header (replicate 32 1) empty_store
      = Inr \<lparr>sr_body = padded, sr_sig = sig\<rparr>"
    by (simp add: publish_def)
  have k: "account_public_from_secret demo_prims (replicate 32 1) = Inr (replicate 32 1)"
    by (simp add: account_public_from_secret_def signing_key_def demo_prims_def)
  have c: "snap_enc demo_snapshot_codec b = Some enc \<Longrightarrow> snap_dec demo_snapshot_codec enc = Some b" for b enc
    by (simp add: demo_snapshot_codec_def split: if_splits)
  from p snapshot_round_trip [OF p k demo_ed_correct c] show ?thesis by simp
qed

end
