(* ===== verification/Broker_Tunnel.thy ===== *)
theory Broker_Tunnel
  imports Broker_Store "HOL-Library.AList"
begin

text \<open>
  The reverse tunnel: \<open>lluma-broker/src/tunnel.rs\<close>. A socket shared through
  \<open>Arc\<close> is a cell of a heap; the directory maps an account to a cell, and
  an in-flight guard is a reference to a cell. A oneshot channel is a cell too:
  waiting, resolved with a response, or dropped. Each critical section under a
  mutex and each atomic read-modify-write is one function (the compare-exchange
  loop of \<open>try_reserve\<close> retries until its one atomic update succeeds or the
  cap is seen). Timeouts and peer behaviour are arguments.
\<close>

definition TUNNEL_SENTINEL_ADDR :: string where
  "TUNNEL_SENTINEL_ADDR = ''https://tunnel.invalid''"

definition MAX_HANDSHAKE_BYTES :: nat where
  "MAX_HANDSHAKE_BYTES = 1024"

definition MAX_FRAME_BYTES :: nat where
  "MAX_FRAME_BYTES = 2 * 1024 * 1024"

definition MAX_MISSED_PONGS :: u8 where
  "MAX_MISSED_PONGS = 2"

definition MAX_INFLIGHT_PER_SOCKET :: u64 where
  "MAX_INFLIGHT_PER_SOCKET = 16"

definition MAX_SOCKETS :: nat where
  "MAX_SOCKETS = 4096"

datatype oneshot = Waiting | Resolved ExecResponse | Dropped

record HostSocket =
  hs_generation :: u64
  hs_closed :: bool
  hs_jobs :: "TunnelFrame list"
  hs_pending :: "u64 \<rightharpoonup> nat"
  hs_inflight :: u64
  hs_next_request_id :: u64

text \<open>
  \<open>tg_heap\<close> and \<open>tg_oneshots\<close> are the cells; \<open>tg_sockets\<close> (the hash
  map, as an association list with one pair per account) and
  \<open>tg_next_generation\<close> are the fields of the source's struct.
\<close>

record TunnelRegistry =
  tg_sockets :: "(bytes \<times> nat) list"
  tg_next_generation :: u64
  tg_heap :: "nat \<rightharpoonup> HostSocket"
  tg_oneshots :: "nat \<rightharpoonup> oneshot"

section \<open>One socket\<close>

definition upd_sock :: "nat \<Rightarrow> (HostSocket \<Rightarrow> HostSocket) \<Rightarrow> TunnelRegistry \<Rightarrow> TunnelRegistry" where
  "upd_sock a f T =
     (case tg_heap T a of None \<Rightarrow> T | Some s \<Rightarrow> T\<lparr>tg_heap := (tg_heap T)(a \<mapsto> f s)\<rparr>)"

definition try_reserve :: "nat \<Rightarrow> TunnelRegistry \<Rightarrow> bool \<times> TunnelRegistry" where
  "try_reserve a T =
     (case tg_heap T a of None \<Rightarrow> (False, T)
      | Some s \<Rightarrow>
          if MAX_INFLIGHT_PER_SOCKET \<le> hs_inflight s then (False, T)
          else (True, upd_sock a (\<lambda>s. s\<lparr>hs_inflight := hs_inflight s + 1\<rparr>) T))"

definition release :: "nat \<Rightarrow> TunnelRegistry \<Rightarrow> TunnelRegistry" where
  "release a T = upd_sock a (\<lambda>s. s\<lparr>hs_inflight := hs_inflight s - 1\<rparr>) T"

definition drop_sender :: "nat \<Rightarrow> TunnelRegistry \<Rightarrow> TunnelRegistry" where
  "drop_sender w T =
     (if tg_oneshots T w = Some Waiting then T\<lparr>tg_oneshots := (tg_oneshots T)(w \<mapsto> Dropped)\<rparr> else T)"

definition fail_all_pending :: "nat \<Rightarrow> TunnelRegistry \<Rightarrow> TunnelRegistry" where
  "fail_all_pending a T =
     (case tg_heap T a of None \<Rightarrow> T
      | Some s \<Rightarrow>
          (upd_sock a (\<lambda>s. s\<lparr>hs_pending := Map.empty\<rparr>) T)\<lparr>tg_oneshots :=
             (\<lambda>w. if tg_oneshots T w = Some Waiting \<and> w \<in> ran (hs_pending s) then Some Dropped
                  else tg_oneshots T w)\<rparr>)"

section \<open>The directory\<close>

definition tunnels_new :: TunnelRegistry where
  "tunnels_new = \<lparr>tg_sockets = [], tg_next_generation = 0, tg_heap = Map.empty, tg_oneshots = Map.empty\<rparr>"

definition next_generation :: "TunnelRegistry \<Rightarrow> u64 \<times> TunnelRegistry" where
  "next_generation T = (tg_next_generation T, T\<lparr>tg_next_generation := tg_next_generation T + 1\<rparr>)"

definition tunnel_get :: "bytes \<Rightarrow> TunnelRegistry \<Rightarrow> nat option" where
  "tunnel_get account T = map_of (tg_sockets T) account"

definition tunnel_insert :: "bytes \<Rightarrow> nat \<Rightarrow> TunnelRegistry \<Rightarrow> (unit + nat option) \<times> TunnelRegistry" where
  "tunnel_insert account a T =
     (let m = tg_sockets T in
      if map_of m account = None \<and> MAX_SOCKETS \<le> length m then (Inl (), T)
      else (Inr (map_of m account), T\<lparr>tg_sockets := AList.update account a m\<rparr>))"

definition remove_if_current :: "bytes \<Rightarrow> u64 \<Rightarrow> TunnelRegistry \<Rightarrow> TunnelRegistry" where
  "remove_if_current account generation T =
     (case map_of (tg_sockets T) account of None \<Rightarrow> T
      | Some a \<Rightarrow>
          if map_option hs_generation (tg_heap T a) = Some generation
          then T\<lparr>tg_sockets := AList.delete account (tg_sockets T)\<rparr> else T)"

definition socket_count :: "TunnelRegistry \<Rightarrow> nat" where
  "socket_count T = length (tg_sockets T)"

section \<open>Reserving and dispatching\<close>

datatype Reservation = NoSocket | AtCapacity | Reserved nat

definition reserve_tunnel :: "bytes \<Rightarrow> TunnelRegistry \<Rightarrow> Reservation \<times> TunnelRegistry" where
  "reserve_tunnel account T =
     (case tunnel_get account T of None \<Rightarrow> (NoSocket, T)
      | Some a \<Rightarrow>
          if (case tg_heap T a of None \<Rightarrow> True | Some s \<Rightarrow> hs_closed s) then (NoSocket, T)
          else (case try_reserve a T of
                  (True, T') \<Rightarrow> (Reserved a, T') | (False, T') \<Rightarrow> (AtCapacity, T')))"

text \<open>
  The first half of \<open>dispatch\<close>: allocate a request id, register the waiter
  \<open>w\<close> (a fresh oneshot cell), queue the job. \<open>json_ok\<close> is whether the job
  serialises, \<open>send_ok\<close> whether the bounded queue accepts it; a job that does
  not serialise leaves its waiter registered.
\<close>

definition dispatch_send ::
  "nat \<Rightarrow> nat \<Rightarrow> SpendId \<Rightarrow> SealedRequest \<Rightarrow> bool \<Rightarrow> bool \<Rightarrow> TunnelRegistry \<Rightarrow> u64 option \<times> TunnelRegistry" where
  "dispatch_send a w spend_id sealed json_ok send_ok T =
     (case tg_heap T a of None \<Rightarrow> (None, T)
      | Some s \<Rightarrow>
          let request_id = hs_next_request_id s;
              T1 = (upd_sock a (\<lambda>s. s\<lparr>hs_next_request_id := request_id + 1,
                       hs_pending := (hs_pending s)(request_id \<mapsto> w)\<rparr>) T)
                     \<lparr>tg_oneshots := (tg_oneshots T)(w \<mapsto> Waiting)\<rparr> in
          if \<not> json_ok then (None, T1)
          else if \<not> send_ok
          then (None, drop_sender w (upd_sock a (\<lambda>s. s\<lparr>hs_pending := (hs_pending s)(request_id := None)\<rparr>) T1))
          else (Some request_id, upd_sock a (\<lambda>s. s\<lparr>hs_jobs := hs_jobs s @ [Job 1 request_id spend_id sealed]\<rparr>) T1))"

text \<open>The second half: the waiter looks at its oneshot; a timeout forgets the request.\<close>

definition dispatch_finish :: "nat \<Rightarrow> nat \<Rightarrow> u64 \<Rightarrow> TunnelRegistry \<Rightarrow> (unit + ExecResponse) \<times> TunnelRegistry" where
  "dispatch_finish a w request_id T =
     (case tg_oneshots T w of
        Some (Resolved resp) \<Rightarrow> (Inr resp, T)
      | _ \<Rightarrow> (Inl (), upd_sock a (\<lambda>s. s\<lparr>hs_pending := (hs_pending s)(request_id := None)\<rparr>) T))"

definition deliver :: "nat \<Rightarrow> u64 \<Rightarrow> ExecResponse option \<Rightarrow> TunnelRegistry \<Rightarrow> TunnelRegistry" where
  "deliver a request_id resp T =
     (case tg_heap T a of None \<Rightarrow> T
      | Some s \<Rightarrow>
          (case hs_pending s request_id of None \<Rightarrow> T
           | Some w \<Rightarrow>
               let T1 = upd_sock a (\<lambda>s. s\<lparr>hs_pending := (hs_pending s)(request_id := None)\<rparr>) T in
               (case resp of
                  Some r \<Rightarrow> (if tg_oneshots T1 w = Some Waiting
                             then T1\<lparr>tg_oneshots := (tg_oneshots T1)(w \<mapsto> Resolved r)\<rparr> else T1)
                | None \<Rightarrow> drop_sender w T1)))"

text \<open>
  What the reader loop does with one parsed text frame: only version-1
  \<open>Done\<close> and \<open>Fail\<close> frames act, and a \<open>Done\<close> whose parts break the size
  bounds counts as a failure.
\<close>

definition on_text_frame :: "nat \<Rightarrow> TunnelFrame \<Rightarrow> TunnelRegistry \<Rightarrow> TunnelRegistry" where
  "on_text_frame a frame T =
     (case frame of
        TunnelFrame.Done v request_id preamble chunk \<Rightarrow>
          if v = 1
          then let resp = \<lparr>er_preamble = preamble, er_chunk = chunk\<rparr> in
               deliver a request_id (if is_ok (ExecResponse_validate resp) then Some resp else None) T
          else T
      | Fail v request_id \<Rightarrow> if v = 1 then deliver a request_id None T else T
      | _ \<Rightarrow> T)"

text \<open>
  The registration of an authenticated connection in \<open>handle_socket\<close>: a new
  cell with a new generation, the directory insert, the failing of a replaced
  socket's requests; and its teardown.
\<close>

definition open_socket :: "bytes \<Rightarrow> nat \<Rightarrow> TunnelRegistry \<Rightarrow> bool \<times> TunnelRegistry" where
  "open_socket account a T =
     (let (generation, T1) = next_generation T;
          sock = \<lparr>hs_generation = generation, hs_closed = False, hs_jobs = [], hs_pending = Map.empty,
                  hs_inflight = 0, hs_next_request_id = 0\<rparr>;
          T2 = T1\<lparr>tg_heap := (tg_heap T1)(a \<mapsto> sock)\<rparr> in
      case tunnel_insert account a T2 of
        (Inr (Some old), T3) \<Rightarrow> (True, fail_all_pending old T3)
      | (Inr None, T3) \<Rightarrow> (True, T3)
      | (Inl _, T3) \<Rightarrow> (False, T3))"

definition close_socket :: "bytes \<Rightarrow> nat \<Rightarrow> TunnelRegistry \<Rightarrow> TunnelRegistry" where
  "close_socket account a T =
     (case tg_heap T a of None \<Rightarrow> T
      | Some s \<Rightarrow>
          fail_all_pending a
            (remove_if_current account (hs_generation s)
               (upd_sock a (\<lambda>s. s\<lparr>hs_closed := True\<rparr>) T)))"

text \<open>
  The writer task's liveness counter: a ping tick that finds
  \<open>MAX_MISSED_PONGS\<close> unanswered pings tears the socket down; any inbound
  frame resets the counter.
\<close>

definition ping_tick :: "u8 \<Rightarrow> bool \<times> u8" where
  "ping_tick missed = (missed < MAX_MISSED_PONGS, missed + 1)"

section \<open>The handshake\<close>

datatype ws_message = Text bytes | Ping | Pong | Binary | Close | RecvError

fun recv_frame :: "(bytes \<Rightarrow> TunnelFrame option) \<Rightarrow> nat \<Rightarrow> ws_message list \<Rightarrow> (TunnelFrame \<times> ws_message list) option" where
  "recv_frame json mx [] = None"
| "recv_frame json mx (m # ms) =
     (case m of
        Text s \<Rightarrow> if length s > mx then None
                  else (case json s of None \<Rightarrow> None | Some f \<Rightarrow> Some (f, ms))
      | Ping \<Rightarrow> recv_frame json mx ms
      | Pong \<Rightarrow> recv_frame json mx ms
      | _ \<Rightarrow> None)"

definition account_registered :: "faults \<Rightarrow> bytes \<Rightarrow> store \<Rightarrow> bool" where
  "account_registered flt account st =
     (case with_read flt (andthen (open_table HOSTS) (\<lambda>_. andthen (get HOSTS account) (\<lambda>r. ret (r \<noteq> None)))) st of
        Inl _ \<Rightarrow> False | Inr b \<Rightarrow> b)"

definition handshake ::
  "prims \<Rightarrow> (bytes \<Rightarrow> TunnelFrame option) \<Rightarrow> faults \<Rightarrow> bytes \<Rightarrow> bytes \<Rightarrow> bool \<Rightarrow> ws_message list \<Rightarrow> store \<Rightarrow> bytes option" where
  "handshake P json flt registry_pk challenge send_ok msgs st =
     (case recv_frame json MAX_HANDSHAKE_BYTES msgs of
        Some (Hello v host_account, msgs1) \<Rightarrow>
          if v \<noteq> 1 then None
          else if \<not> send_ok then None
          else (case recv_frame json MAX_HANDSHAKE_BYTES msgs1 of
                  Some (Auth v' sig, _) \<Rightarrow>
                    if v' \<noteq> 1 then None
                    else if \<not> is_ok (tunnel_auth_verify P host_account challenge host_account registry_pk sig) then None
                    else if \<not> account_registered flt host_account st then None
                    else Some host_account
                | _ \<Rightarrow> None)
      | _ \<Rightarrow> None)"

section \<open>Interleavings\<close>

text \<open>
  Everything that can happen to the tunnel state, in any order: connections
  open and close, jobs are reserved, queued, answered, given up and their guards
  dropped. The second component is the list of live guards (the references held
  by running \<open>exec\<close> tasks), each released exactly once.
\<close>

inductive tunnel_step :: "TunnelRegistry \<times> nat list \<Rightarrow> TunnelRegistry \<times> nat list \<Rightarrow> bool" where
  opened: "tg_heap T a = None \<Longrightarrow> open_socket account a T = (ok, T') \<Longrightarrow> tunnel_step (T, gs) (T', gs)"
| closed: "tunnel_step (T, gs) (close_socket account a T, gs)"
| reserved: "reserve_tunnel account T = (Reserved a, T') \<Longrightarrow> tunnel_step (T, gs) (T', a # gs)"
| refused: "reserve_tunnel account T = (r, T') \<Longrightarrow> \<forall>a. r \<noteq> Reserved a \<Longrightarrow> tunnel_step (T, gs) (T', gs)"
| sent: "a \<in> set gs \<Longrightarrow> tg_oneshots T w = None \<Longrightarrow>
    tunnel_step (T, gs) (snd (dispatch_send a w i s json_ok send_ok T), gs)"
| frame: "tunnel_step (T, gs) (on_text_frame a f T, gs)"
| finished: "tunnel_step (T, gs) (snd (dispatch_finish a w rid T), gs)"
| dropped: "a \<in> set gs \<Longrightarrow> tunnel_step (T, gs) (release a T, remove1 a gs)"

definition tunnel_reach :: "TunnelRegistry \<times> nat list \<Rightarrow> bool" where
  "tunnel_reach s \<longleftrightarrow> tunnel_step\<^sup>*\<^sup>* (tunnels_new, []) s"

definition tunnel_inv :: "TunnelRegistry \<times> nat list \<Rightarrow> bool" where
  "tunnel_inv s \<longleftrightarrow>
     (\<forall>a sock. tg_heap (fst s) a = Some sock \<longrightarrow>
        unat (hs_inflight sock) = count_list (snd s) a \<and> hs_inflight sock \<le> MAX_INFLIGHT_PER_SOCKET)
     \<and> (\<forall>a \<in> set (snd s). tg_heap (fst s) a \<noteq> None)
     \<and> distinct (map fst (tg_sockets (fst s))) \<and> length (tg_sockets (fst s)) \<le> MAX_SOCKETS
     \<and> (\<forall>acct a. map_of (tg_sockets (fst s)) acct = Some a \<longrightarrow> tg_heap (fst s) a \<noteq> None)"

text \<open>Operations that touch no in-flight counter keep the invariant.\<close>

definition same_load :: "TunnelRegistry \<Rightarrow> TunnelRegistry \<Rightarrow> bool" where
  "same_load T T' \<longleftrightarrow>
     (\<forall>a. map_option hs_inflight (tg_heap T' a) = map_option hs_inflight (tg_heap T a)) \<and> tg_sockets T' = tg_sockets T"

lemma same_load_refl [simp]: "same_load T T"
  by (simp add: same_load_def)

lemma same_load_trans: "same_load T T' \<Longrightarrow> same_load T' T'' \<Longrightarrow> same_load T T''"
  by (simp add: same_load_def)

lemma same_load_upd:
  "(\<And>s. hs_inflight (f s) = hs_inflight s) \<Longrightarrow> same_load T (upd_sock a f T)"
  by (simp add: same_load_def upd_sock_def split: option.splits)

lemma same_load_oneshots [simp]: "same_load T (T'\<lparr>tg_oneshots := x\<rparr>) \<longleftrightarrow> same_load T T'"
  by (simp add: same_load_def)

lemma same_load_drop_sender: "same_load T T' \<Longrightarrow> same_load T (drop_sender w T')"
  by (simp add: drop_sender_def)

lemma same_load_fail_all: "same_load T (fail_all_pending a T)"
  by (simp add: fail_all_pending_def same_load_upd split: option.splits)

lemma same_load_deliver: "same_load T (deliver a rid resp T)"
  by (auto simp: deliver_def Let_def same_load_upd same_load_drop_sender split: option.splits)

lemma same_load_send: "same_load T (snd (dispatch_send a w i s j k T))"
proof (cases "tg_heap T a")
  case (Some sock)
  have "same_load T (upd_sock a f (T2\<lparr>tg_oneshots := x\<rparr>))"
    if "\<And>s. hs_inflight (f s) = hs_inflight s" and "same_load T T2" for f T2 x
    using that by (intro same_load_trans [OF _ same_load_upd]) simp_all
  with Some show ?thesis
    by (auto simp: dispatch_send_def Let_def same_load_upd same_load_drop_sender)
qed (simp add: dispatch_send_def)

lemma same_load_finish: "same_load T (snd (dispatch_finish a w rid T))"
  by (auto simp: dispatch_finish_def same_load_upd split: option.splits oneshot.splits)

lemma same_load_frame: "same_load T (on_text_frame a f T)"
  by (auto simp: on_text_frame_def Let_def same_load_deliver split: TunnelFrame.splits)

lemma tunnel_inv_same_load:
  assumes "tunnel_inv (T, gs)" and "same_load T T'"
  shows "tunnel_inv (T', gs)"
proof -
  have "\<exists>sock. tg_heap T a = Some sock \<and> hs_inflight sock = hs_inflight sock'"
    if "tg_heap T' a = Some sock'" for a sock'
    using assms(2) that unfolding same_load_def by (metis map_option_eq_Some)
  moreover have "tg_heap T' a = None \<longleftrightarrow> tg_heap T a = None" for a
    using assms(2) unfolding same_load_def by (metis map_option_is_None)
  ultimately show ?thesis
    using assms unfolding tunnel_inv_def same_load_def by (auto, metis+)
qed

lemma tunnel_inv_load:
  "tunnel_inv (T, gs) \<Longrightarrow> tg_heap T a = Some s \<Longrightarrow> unat (hs_inflight s) = count_list gs a \<and> count_list gs a \<le> 16"
  by (force simp: tunnel_inv_def MAX_INFLIGHT_PER_SOCKET_def word_le_nat_alt)

lemma length_update:
  "length (AList.update k v al) = (if map_of al k = None then Suc (length al) else length al)"
  by (induction al) auto

lemma tunnel_inv_try_reserve:
  assumes "tunnel_inv (T, gs)" and "try_reserve a T = (True, T')"
  shows "tunnel_inv (T', a # gs)"
proof -
  obtain s where s: "tg_heap T a = Some s" "hs_inflight s < MAX_INFLIGHT_PER_SOCKET"
    and T': "T' = T\<lparr>tg_heap := (tg_heap T)(a \<mapsto> s\<lparr>hs_inflight := hs_inflight s + 1\<rparr>)\<rparr>"
    using assms(2) by (auto simp: try_reserve_def upd_sock_def not_le split: option.splits if_splits)
  then have lt: "unat (hs_inflight s) < 16"
    by (simp add: MAX_INFLIGHT_PER_SOCKET_def word_less_nat_alt)
  then have "unat (hs_inflight s + 1) = unat (hs_inflight s) + 1"
    by (simp add: unat_word_ariths)
  with assms(1) s lt tunnel_inv_load [OF assms(1)] show ?thesis
    by (auto simp: T' tunnel_inv_def MAX_INFLIGHT_PER_SOCKET_def word_le_nat_alt)
qed

lemma tunnel_inv_release:
  assumes "tunnel_inv (T, gs)" and "a \<in> set gs"
  shows "tunnel_inv (release a T, remove1 a gs)"
proof -
  obtain s where s: "tg_heap T a = Some s" using assms by (auto simp: tunnel_inv_def)
  have c: "unat (hs_inflight s) = count_list gs a" using assms(1) s by (auto simp: tunnel_inv_def)
  moreover have "count_list gs a \<noteq> 0" using assms(2) by (simp add: count_list_0_iff)
  ultimately have one: "1 \<le> hs_inflight s" by (simp add: word_le_nat_alt)
  then have u: "unat (hs_inflight s - 1) = unat (hs_inflight s) - 1" by (simp add: unat_sub_le)
  have cnt: "count_list (remove1 a gs) b = count_list gs b - (if b = a then 1 else 0)" for b
    by (induction gs) auto
  have le: "hs_inflight s - 1 \<le> MAX_INFLIGHT_PER_SOCKET"
    using tunnel_inv_load [OF assms(1) s] u by (simp add: MAX_INFLIGHT_PER_SOCKET_def word_le_nat_alt) linarith
  show ?thesis
    using assms(1) s u c cnt le set_remove1_subset [of a gs]
    by (auto simp: tunnel_inv_def release_def upd_sock_def)
qed

lemma tunnel_inv_open:
  assumes "tunnel_inv (T, gs)" and "tg_heap T a = None" and "open_socket account a T = (ok, T')"
  shows "tunnel_inv (T', gs)"
proof -
  define sock where "sock = \<lparr>hs_generation = tg_next_generation T, hs_closed = False, hs_jobs = [],
    hs_pending = Map.empty, hs_inflight = 0, hs_next_request_id = 0\<rparr>"
  define T2 where "T2 = T\<lparr>tg_next_generation := tg_next_generation T + 1, tg_heap := (tg_heap T)(a \<mapsto> sock)\<rparr>"
  have "a \<notin> set gs" using assms(1,2) by (auto simp: tunnel_inv_def)
  then have "count_list gs a = 0" by (simp add: count_list_0_iff)
  then have inv2: "tunnel_inv (T2, gs)"
    using assms(1,2) by (auto simp: tunnel_inv_def T2_def sock_def MAX_INFLIGHT_PER_SOCKET_def)
  define T3 where "T3 = T2\<lparr>tg_sockets := AList.update account a (tg_sockets T2)\<rparr>"
  have inv3: "tunnel_inv (T3, gs)" if "map_of (tg_sockets T2) account \<noteq> None \<or> length (tg_sockets T2) < MAX_SOCKETS"
  proof -
    have "length (AList.update account a (tg_sockets T2)) \<le> MAX_SOCKETS"
      using inv2 that by (auto simp: tunnel_inv_def length_update)
    then show ?thesis
      using inv2 unfolding tunnel_inv_def T3_def
      by (auto simp: distinct_update update_conv' T2_def)
  qed
  have "open_socket account a T = (case tunnel_insert account a T2 of
      (Inr (Some old), T3) \<Rightarrow> (True, fail_all_pending old T3) | (Inr None, T3) \<Rightarrow> (True, T3) | (Inl _, T3) \<Rightarrow> (False, T3))"
    by (simp add: open_socket_def next_generation_def T2_def sock_def Let_def)
  then show ?thesis
    using assms(3) inv2 inv3 tunnel_inv_same_load [OF _ same_load_fail_all]
    by (auto simp: tunnel_insert_def Let_def T3_def split: if_splits option.splits)
qed

lemma tunnel_inv_delete:
  assumes "tunnel_inv (T, gs)"
  shows "tunnel_inv (T\<lparr>tg_sockets := AList.delete k (tg_sockets T)\<rparr>, gs)"
proof -
  have "length (AList.delete k (tg_sockets T)) \<le> MAX_SOCKETS"
    using assms length_delete_le [of k "tg_sockets T"] by (auto simp: tunnel_inv_def)
  moreover have "\<forall>acct a. map_of (AList.delete k (tg_sockets T)) acct = Some a \<longrightarrow> tg_heap T a \<noteq> None"
    using assms unfolding tunnel_inv_def delete_conv' fst_conv by (metis fun_upd_apply option.distinct(1))
  ultimately show ?thesis
    using assms unfolding tunnel_inv_def by (simp add: distinct_delete)
qed

lemma tunnel_inv_close:
  assumes "tunnel_inv (T, gs)"
  shows "tunnel_inv (close_socket account a T, gs)"
proof (cases "tg_heap T a")
  case (Some s)
  let ?T1 = "upd_sock a (\<lambda>s. s\<lparr>hs_closed := True\<rparr>) T"
  have "tunnel_inv (?T1, gs)"
    by (rule tunnel_inv_same_load [OF assms same_load_upd]) simp
  then have "tunnel_inv (remove_if_current account (hs_generation s) ?T1, gs)"
    by (simp add: remove_if_current_def tunnel_inv_delete split: option.splits)
  then show ?thesis
    using Some tunnel_inv_same_load [OF _ same_load_fail_all] by (simp add: close_socket_def)
qed (use assms in \<open>simp add: close_socket_def\<close>)

lemma tunnel_inv_reserve:
  assumes "tunnel_inv (T, gs)" and "reserve_tunnel account T = (r, T')"
  shows "case r of Reserved a \<Rightarrow> tunnel_inv (T', a # gs) | _ \<Rightarrow> T' = T"
proof -
  have "try_reserve a T = (False, T'') \<Longrightarrow> T'' = T" for a T''
    by (auto simp: try_reserve_def split: option.splits if_splits)
  with assms tunnel_inv_try_reserve show ?thesis
    by (auto simp: reserve_tunnel_def split: option.splits if_splits prod.splits bool.splits)
qed

lemma tunnel_inv_step: "tunnel_step s s' \<Longrightarrow> tunnel_inv s \<Longrightarrow> tunnel_inv s'"
proof (induction rule: tunnel_step.induct)
  case (opened T a account ok T' gs)
  then show ?case by (blast intro: tunnel_inv_open)
next
  case (reserved account T a T' gs)
  then show ?case using tunnel_inv_reserve [of T gs account "Reserved a" T'] by simp
next
  case (refused account T r T' gs)
  then show ?case using tunnel_inv_reserve [of T gs account r T'] by (cases r) auto
qed (blast intro: tunnel_inv_close tunnel_inv_release tunnel_inv_same_load same_load_send same_load_frame same_load_finish)+

lemma tunnel_inv_reach: "tunnel_reach s \<Longrightarrow> tunnel_inv s"
  unfolding tunnel_reach_def
proof (induction rule: rtranclp_induct)
  case base
  then show ?case by (simp add: tunnel_inv_def tunnels_new_def)
next
  case (step s s')
  then show ?case by (blast intro: tunnel_inv_step)
qed

section \<open>Properties\<close>

text \<open>
  C26: tunnel capacity. However connections, requests, answers, timeouts and guard
  releases interleave, the in-flight counter of every socket is exactly the
  number of guards held on it (so it never wraps below zero), it never exceeds 16,
  there is one socket per account, and never more than 4096 accounts have one.
\<close>

theorem tunnel_capacity:
  assumes "tunnel_reach (T, gs)"
  shows "(\<forall>a s. tg_heap T a = Some s \<longrightarrow> unat (hs_inflight s) = count_list gs a \<and> count_list gs a \<le> 16)
    \<and> distinct (map fst (tg_sockets T)) \<and> socket_count T \<le> 4096"
proof -
  have inv: "tunnel_inv (T, gs)" by (rule tunnel_inv_reach [OF assms])
  then have "distinct (map fst (tg_sockets T)) \<and> socket_count T \<le> 4096"
    unfolding tunnel_inv_def socket_count_def MAX_SOCKETS_def by simp
  with tunnel_inv_load [OF inv] show ?thesis by blast
qed

theorem tunnel_capacity_witness:
  "let T = snd (reserve_tunnel [1] (snd (open_socket [1] 0 tunnels_new))) in
   (\<forall>a s. tg_heap T a = Some s \<longrightarrow> unat (hs_inflight s) = count_list [0] a \<and> count_list [0] a \<le> 16)"
proof -
  define T where "T = snd (reserve_tunnel [1] (snd (open_socket [1] 0 tunnels_new)))"
  have "tunnel_step (tunnels_new, []) (snd (open_socket [1] 0 tunnels_new), [])"
    by (rule tunnel_step.opened [of _ 0 "[1]" "fst (open_socket [1] 0 tunnels_new)"]) (simp_all add: tunnels_new_def)
  moreover have "reserve_tunnel [1] (snd (open_socket [1] 0 tunnels_new)) = (Reserved 0, T)"
    by (simp add: T_def open_socket_def next_generation_def tunnel_insert_def tunnels_new_def MAX_SOCKETS_def
      reserve_tunnel_def tunnel_get_def try_reserve_def MAX_INFLIGHT_PER_SOCKET_def)
  then have "tunnel_step (snd (open_socket [1] 0 tunnels_new), []) (T, [0])"
    by (rule tunnel_step.reserved)
  ultimately have "tunnel_reach (T, [0])"
    unfolding tunnel_reach_def by (meson rtranclp.rtrancl_into_rtrancl rtranclp.rtrancl_refl)
  then show ?thesis using tunnel_capacity [of T "[0]"] by (simp add: T_def Let_def)
qed

text \<open>
  An answer reaches the request it belongs to. A dispatched job is queued last
  on its socket under a request id; a well-sized version-1 \<open>Done\<close> frame with
  that id makes the waiting task return exactly its contents, a \<open>Fail\<close> or an
  ill-sized \<open>Done\<close> makes it fail, and either way the id is forgotten so a
  second answer has no effect.
\<close>

lemma dispatch_answered:
  assumes "dispatch_send a w i sealed True True T = (Some rid, T1)"
    and "resp = \<lparr>er_preamble = pre, er_chunk = chunk\<rparr>"
  shows "(\<exists>s. tg_heap T1 a = Some s \<and> last (hs_jobs s) = Job 1 rid i sealed \<and> hs_pending s rid = Some w)
    \<and> fst (dispatch_finish a w rid (on_text_frame a (TunnelFrame.Done 1 rid pre chunk) T1))
        = (if is_ok (ExecResponse_validate resp) then Inr resp else Inl ())
    \<and> fst (dispatch_finish a w rid (on_text_frame a (Fail 1 rid) T1)) = Inl ()
    \<and> on_text_frame a (Fail 1 rid) (on_text_frame a (TunnelFrame.Done 1 rid pre chunk) T1)
        = on_text_frame a (TunnelFrame.Done 1 rid pre chunk) T1"
proof -
  obtain s where s: "tg_heap T a = Some s" and rid: "rid = hs_next_request_id s"
    and T1: "T1 = T\<lparr>tg_oneshots := (tg_oneshots T)(w \<mapsto> Waiting),
       tg_heap := (tg_heap T)(a \<mapsto> s\<lparr>hs_next_request_id := rid + 1, hs_pending := (hs_pending s)(rid \<mapsto> w),
          hs_jobs := hs_jobs s @ [Job 1 rid i sealed]\<rparr>)\<rparr>"
    using assms(1) by (cases "tg_heap T a") (auto simp: dispatch_send_def Let_def upd_sock_def)
  show ?thesis
    by (simp add: T1 assms(2) on_text_frame_def deliver_def dispatch_finish_def drop_sender_def upd_sock_def Let_def)
qed

text \<open>
  C27: the tunnel handshake authenticates and authorises. An account it returns has a
  registry row, and its holder signed this connection's challenge together with
  the account and the broker's key under the tunnel domain.
\<close>

theorem handshake_authenticates:
  assumes "handshake P json flt registry_pk challenge send_ok msgs st = Some account"
  shows "tbl_get (HOSTS st) account \<noteq> None
    \<and> (\<exists>sig. length sig = 64 \<and> ed_verify P account (TUNNEL_AUTH_DOMAIN @ challenge @ account @ registry_pk) sig)"
proof -
  obtain sig where v: "is_ok (tunnel_auth_verify P account challenge account registry_pk sig)"
    and r: "account_registered flt account st"
    using assms by (auto simp: handshake_def split: option.splits prod.splits TunnelFrame.splits if_splits)
  have "tunnel_auth_verify P account challenge account registry_pk sig = Inr ()"
    using v by (cases "tunnel_auth_verify P account challenge account registry_pk sig") simp_all
  then have "length sig = 64 \<and> ed_verify P account (TUNNEL_AUTH_DOMAIN @ challenge @ account @ registry_pk) sig"
    by (simp add: tunnel_auth_verify_def verify_msg_Inr tunnel_auth_canonical_def)
  moreover have "tbl_get (HOSTS st) account \<noteq> None"
    using r by (auto simp: account_registered_def with_read_def txn_defs split: if_splits sum.splits)
  ultimately show ?thesis by blast
qed

definition demo_ws_json :: "bytes \<Rightarrow> TunnelFrame option" where
  "demo_ws_json s = (if s = [1] then Some (Hello 1 (replicate 32 4))
     else if s = [2] then Some (Auth 1 (demo_sig (replicate 32 4) (TUNNEL_AUTH_DOMAIN @ [9] @ replicate 32 4 @ [8])))
     else None)"

definition demo_tunnel_store :: store where
  "demo_tunnel_store = empty_store\<lparr>HOSTS := tbl_insert (replicate 32 4) \<lparr>h_hpke_pk = [1],
     h_ingress_addr = TUNNEL_SENTINEL_ADDR, h_models = [], h_status = HOST_PENDING, h_hb_counter = 0,
     h_last_hb = 0, h_load_bucket = 0, h_admit_progress = 0\<rparr> tbl_empty\<rparr>"

theorem handshake_authenticates_witness:
  "tbl_get (HOSTS demo_tunnel_store) (replicate 32 4) \<noteq> None
   \<and> (\<exists>sig. length sig = 64 \<and> ed_verify demo_prims (replicate 32 4) (TUNNEL_AUTH_DOMAIN @ [9] @ replicate 32 4 @ [8]) sig)"
proof (rule handshake_authenticates [of _ demo_ws_json ok_faults _ _ True "[Ping, Text [1], Pong, Text [2]]"])
  have "is_ok (tunnel_auth_verify demo_prims (replicate 32 4) [9] (replicate 32 4) [8]
      (demo_sig (replicate 32 4) (TUNNEL_AUTH_DOMAIN @ [9] @ replicate 32 4 @ [8])))"
    by (simp add: tunnel_auth_verify_def verify_msg_def verifying_key_def tunnel_auth_canonical_def
      demo_prims_def demo_sig_def)
  moreover have "account_registered ok_faults (replicate 32 4) demo_tunnel_store"
    by (simp add: account_registered_def with_read_def txn_defs ok_faults_def demo_tunnel_store_def)
  ultimately show "handshake demo_prims demo_ws_json ok_faults [8] [9] True [Ping, Text [1], Pong, Text [2]]
      demo_tunnel_store = Some (replicate 32 4)"
    by (simp add: handshake_def demo_ws_json_def MAX_HANDSHAKE_BYTES_def)
qed

end
