(* ===== verification/Broker_Service.thy ===== *)
theory Broker_Service
  imports Broker_Registry Broker_Credits Broker_Snapshot Broker_Tunnel
begin

text \<open>
  The broker's HTTP surface: \<open>lluma-broker/src/service.rs\<close>. Each handler
  takes the request body, the environment it meets (storage faults, what the
  peer answers, the clock) and the state (the tunnel directory and the durable
  store) and returns its HTTP answer and the new state.
\<close>

section \<open>State and environment\<close>

record BrokerState =
  bs_issuer_pk :: IssuerPublicKey
  bs_key_id :: bytes
  bs_cfg :: BrokerConfig
  bs_registry_sk :: AccountSecretKey
  bs_registry_pk :: bytes
  bs_admin_secret :: string

definition BrokerState_new ::
  "prims \<Rightarrow> IssuerPublicKey \<Rightarrow> BrokerConfig \<Rightarrow> AccountSecretKey \<Rightarrow> string \<Rightarrow> BrokerState" where
  "BrokerState_new P issuer_pk cfg registry_sk admin_secret =
     \<lparr>bs_issuer_pk = issuer_pk, bs_key_id = blake3 P issuer_pk, bs_cfg = cfg, bs_registry_sk = registry_sk,
      bs_registry_pk = (case account_public_from_secret P registry_sk of
          Inl _ \<Rightarrow> replicate 32 0
        | Inr pk \<Rightarrow> if length pk = 32 then pk else replicate 32 0),
      bs_admin_secret = admin_secret\<rparr>"

record broker_ext =
  bx_prims :: prims
  bx_rsa :: rsa_prims
  bx_url :: url_parser
  bx_snap :: snapshot_codec
  bx_parse_exec :: "bytes \<Rightarrow> ExecRequest option"
  bx_parse_register :: "bytes \<Rightarrow> HostRegisterRequest option"
  bx_parse_heartbeat :: "bytes \<Rightarrow> HeartbeatRequest option"
  bx_parse_receipt :: "bytes \<Rightarrow> ReceiptSubmit option"
  bx_parse_trial :: "bytes \<Rightarrow> TrialRegisterRequest option"
  bx_json_exec :: "ExecResponse \<Rightarrow> bytes option"
  bx_json_host_exec :: "HostExecRequest \<Rightarrow> bytes option"
  bx_json_snapshot :: "SnapshotResponse \<Rightarrow> bytes option"

text \<open>
  What one \<open>exec\<close> meets: the faults of its two transactions, whether its job
  serialises and is queued, the oneshot cell it allocates, the frames the host
  sends on its socket before the request timeout, and what dialling a host's
  address returns (no answer, or a status with a body that may fail to arrive).
\<close>

record exec_env =
  ee_flt_read :: faults
  ee_flt_write :: faults
  ee_json_ok :: bool
  ee_send_ok :: bool
  ee_waiter :: nat
  ee_frames :: "TunnelFrame list"
  ee_http :: "string \<Rightarrow> bytes \<Rightarrow> (u16 \<times> bytes option) option"

datatype response = Err u16 string | OkCode string | OkBody bytes | OkInvariant u64 CounterRow bool

section \<open>Redeem and forward\<close>

datatype SpendOutcome = Spent | AlreadySpent

definition resolve_active_host :: "faults \<Rightarrow> bytes \<Rightarrow> store \<Rightarrow> BrokerError + string option" where
  "resolve_active_host flt host_account st = with_read flt
     (andthen (open_table HOSTS) (\<lambda>_.
      andthen (get HOSTS host_account) (\<lambda>r.
      case r of None \<Rightarrow> ret None
      | Some b \<Rightarrow> andthen (decode b) (\<lambda>row.
          ret (if h_status row = HOST_ACTIVE then Some (h_ingress_addr row) else None))))) st"

definition spend_txn :: "SpendId \<Rightarrow> bytes \<Rightarrow> u64 \<Rightarrow> SpendOutcome txn" where
  "spend_txn spend_id host_account epoch =
     andthen (open_table SPENT) (\<lambda>_.
     andthen (get SPENT spend_id) (\<lambda>r.
     if r \<noteq> None then ret AlreadySpent
     else
       andthen (put SPENT_update spend_id epoch) (\<lambda>_.
       andthen (open_table SPEND_HOST) (\<lambda>_.
       andthen (put SPEND_HOST_update spend_id host_account) (\<lambda>_.
       andthen (note_redeem_txn epoch) (\<lambda>ok.
       if \<not> ok then fail Storage else ret Spent))))))"

datatype Route = Tunnel nat | Http string

definition exec_dispatch ::
  "exec_env \<Rightarrow> nat \<Rightarrow> SpendId \<Rightarrow> SealedRequest \<Rightarrow> TunnelRegistry \<Rightarrow> (unit + ExecResponse) \<times> TunnelRegistry" where
  "exec_dispatch E a spend_id sealed T =
     (case dispatch_send a (ee_waiter E) spend_id sealed (ee_json_ok E) (ee_send_ok E) T of
        (None, T1) \<Rightarrow> (Inl (), T1)
      | (Some rid, T1) \<Rightarrow> dispatch_finish a (ee_waiter E) rid (fold (on_text_frame a) (ee_frames E) T1))"

definition exec_forward ::
  "broker_ext \<Rightarrow> exec_env \<Rightarrow> Route \<Rightarrow> SpendId \<Rightarrow> SealedRequest \<Rightarrow> TunnelRegistry \<Rightarrow> response \<times> TunnelRegistry" where
  "exec_forward X E route spend_id sealed T =
     (case route of
        Tunnel a \<Rightarrow>
          (case exec_dispatch E a spend_id sealed T of
             (Inr resp, T') \<Rightarrow>
               (case bx_json_exec X resp of Some b \<Rightarrow> (OkBody b, T') | None \<Rightarrow> (Err 500 ''internal'', T'))
           | (Inl _, T') \<Rightarrow> (Err 502 ''upstream'', T'))
      | Http ingress_addr \<Rightarrow>
          (case bx_json_host_exec X \<lparr>he_spend_id = spend_id, he_sealed = sealed\<rparr> of
             None \<Rightarrow> (Err 500 ''internal'', T)
           | Some hbody \<Rightarrow>
               (case ee_http E (ingress_addr @ ''/v1/exec'') hbody of
                  None \<Rightarrow> (Err 502 ''upstream'', T)
                | Some (status, rbytes) \<Rightarrow>
                    if \<not> (200 \<le> status \<and> status < 300) then (Err 502 ''upstream'', T)
                    else (case rbytes of None \<Rightarrow> (Err 502 ''upstream'', T) | Some b \<Rightarrow> (OkBody b, T)))))"

definition exec_route :: "exec_env \<Rightarrow> bytes \<Rightarrow> TunnelRegistry \<times> store \<Rightarrow> (response + Route) \<times> TunnelRegistry" where
  "exec_route E host_account ts =
     (let (T, st) = ts in
      case resolve_active_host (ee_flt_read E) host_account st of
        Inl _ \<Rightarrow> (Inl (Err 500 ''internal''), T)
      | Inr None \<Rightarrow> (Inl (Err 502 ''no_host''), T)
      | Inr (Some addr) \<Rightarrow>
          (case reserve_tunnel host_account T of
             (Reserved a, T') \<Rightarrow> (Inr (Tunnel a), T')
           | (AtCapacity, T') \<Rightarrow> (Inl (Err 502 ''no_host''), T')
           | (NoSocket, T') \<Rightarrow>
               if addr = TUNNEL_SENTINEL_ADDR then (Inl (Err 502 ''no_host''), T')
               else (Inr (Http addr), T')))"

text \<open>The guard of a tunnel route is dropped, releasing its slot, on every way out.\<close>

definition drop_route :: "Route \<Rightarrow> TunnelRegistry \<Rightarrow> TunnelRegistry" where
  "drop_route route T = (case route of Tunnel a \<Rightarrow> release a T | Http _ \<Rightarrow> T)"

definition exec_spend ::
  "broker_ext \<Rightarrow> BrokerState \<Rightarrow> exec_env \<Rightarrow> Route \<Rightarrow> ExecRequest \<Rightarrow> TunnelRegistry \<times> store \<Rightarrow>
   response \<times> TunnelRegistry \<times> store" where
  "exec_spend X S E route req ts =
     (let (T, st) = ts; spend_id = token_spend_id (bx_prims X) (ex_token req) in
      case with_write (ee_flt_write E) (spend_txn spend_id (ex_host_account req) (cfg_epoch (bs_cfg S))) st of
        (Inr Spent, st') \<Rightarrow>
          let (resp, T') = exec_forward X E route spend_id (ex_sealed req) T in (resp, drop_route route T', st')
      | (Inr AlreadySpent, st') \<Rightarrow> (Err 409 ''double_spend'', drop_route route T, st')
      | (Inl _, st') \<Rightarrow> (Err 409 ''refused'', drop_route route T, st'))"

definition exec ::
  "broker_ext \<Rightarrow> BrokerState \<Rightarrow> exec_env \<Rightarrow> bytes \<Rightarrow> TunnelRegistry \<times> store \<Rightarrow> response \<times> TunnelRegistry \<times> store" where
  "exec X S E body ts =
     (case bx_parse_exec X body of None \<Rightarrow> (Err 422 ''bad_request'', ts)
      | Some req \<Rightarrow>
          if \<not> is_ok (ExecRequest_validate req) \<or> ex_key_id req \<noteq> bs_key_id S then (Err 422 ''token_invalid'', ts)
          else if \<not> is_ok (token_verify (bx_rsa X) (bs_issuer_pk S) (ex_token req)) then (Err 422 ''token_invalid'', ts)
          else (case exec_route E (ex_host_account req) ts of
                  (Inl r, T) \<Rightarrow> (r, T, snd ts)
                | (Inr route, T) \<Rightarrow> exec_spend X S E route req (T, snd ts)))"

section \<open>The other handlers\<close>

definition snapshot_get :: "broker_ext \<Rightarrow> BrokerState \<Rightarrow> faults \<Rightarrow> u64 \<Rightarrow> store \<Rightarrow> response" where
  "snapshot_get X S flt now st =
     (let header = \<lparr>sh_epoch = cfg_epoch (bs_cfg S), sh_issued_at_h = ucast (now div 3600),
                    sh_issuer_key_id = bs_key_id S\<rparr> in
      case publish (bx_prims X) (bx_snap X) flt header (bs_registry_sk S) st of
        Inr resp \<Rightarrow> (case bx_json_snapshot X resp of Some b \<Rightarrow> OkBody b | None \<Rightarrow> Err 500 ''internal'')
      | Inl _ \<Rightarrow> Err 500 ''internal'')"

definition host_register :: "broker_ext \<Rightarrow> BrokerState \<Rightarrow> faults \<Rightarrow> u64 \<Rightarrow> bytes \<Rightarrow> store \<Rightarrow> response \<times> store" where
  "host_register X S flt now body st =
     (case bx_parse_register X body of None \<Rightarrow> (Err 422 ''bad_request'', st)
      | Some req \<Rightarrow>
          (case register (bx_prims X) (bx_url X) flt req (bs_cfg S) now st of
             (Inr Registered, st') \<Rightarrow> (OkCode ''registered'', st')
           | (Inr Updated, st') \<Rightarrow> (OkCode ''updated'', st')
           | (Inr _, st') \<Rightarrow> (Err 422 ''rejected'', st')
           | (Inl _, st') \<Rightarrow> (Err 500 ''internal'', st')))"

definition host_heartbeat ::
  "broker_ext \<Rightarrow> BrokerState \<Rightarrow> faults \<Rightarrow> faults \<Rightarrow> u64 \<Rightarrow> bytes \<Rightarrow> store \<Rightarrow> response \<times> store" where
  "host_heartbeat X S flt_r flt_w now body st =
     (case bx_parse_heartbeat X body of None \<Rightarrow> (Err 422 ''bad_request'', st)
      | Some req \<Rightarrow>
          (case heartbeat (bx_prims X) flt_r flt_w req now (bs_cfg S) st of
             (Inr (Accepted _), st') \<Rightarrow> (OkCode ''accepted'', st')
           | (Inr _, st') \<Rightarrow> (Err 422 ''rejected'', st')
           | (Inl _, st') \<Rightarrow> (Err 500 ''internal'', st')))"

definition receipt_submit :: "broker_ext \<Rightarrow> BrokerState \<Rightarrow> faults \<Rightarrow> bytes \<Rightarrow> store \<Rightarrow> response \<times> store" where
  "receipt_submit X S flt body st =
     (case bx_parse_receipt X body of None \<Rightarrow> (Err 422 ''bad_request'', st)
      | Some req \<Rightarrow>
          (case ingest (bx_prims X) flt req (bs_cfg S) st of
             (Inr Credited, st') \<Rightarrow> (OkCode ''credited'', st')
           | (Inr AlreadyCredited, st') \<Rightarrow> (OkCode ''already_credited'', st')
           | (Inr _, st') \<Rightarrow> (Err 422 ''rejected'', st')
           | (Inl _, st') \<Rightarrow> (Err 500 ''internal'', st')))"

definition trial_register :: "broker_ext \<Rightarrow> BrokerState \<Rightarrow> faults \<Rightarrow> u64 \<Rightarrow> bytes \<Rightarrow> store \<Rightarrow> response \<times> store" where
  "trial_register X S flt now body st =
     (case bx_parse_trial X body of None \<Rightarrow> (Err 422 ''bad_request'', st)
      | Some req \<Rightarrow>
          let day = now div 86400 in
          (case grant_trial (bx_prims X) flt req (bs_cfg S) day st of
             (Inr Granted, st') \<Rightarrow> (OkCode ''granted'', st')
           | (Inr _, st') \<Rightarrow> (Err 429 ''unavailable'', st')
           | (Inl _, st') \<Rightarrow> (Err 500 ''internal'', st')))"

definition admin_invariant :: "BrokerState \<Rightarrow> faults \<Rightarrow> string option \<Rightarrow> store \<Rightarrow> response" where
  "admin_invariant S flt secret_header st =
     (let ok = (case secret_header of None \<Rightarrow> False | Some v \<Rightarrow> ct_eq v (bs_admin_secret S)) in
      if \<not> ok then Err 403 ''forbidden''
      else case counters_read flt (cfg_epoch (bs_cfg S)) st of
             Inr c \<Rightarrow> OkInvariant (cfg_epoch (bs_cfg S)) c (c_redeemed c \<le> c_issued c)
           | Inl _ \<Rightarrow> Err 500 ''internal'')"

section \<open>What an exec does\<close>

lemma fault_safe_spend [txn_safe]: "fault_safe (spend_txn i h e)"
  unfolding spend_txn_def by (intro txn_safe)

definition redeemed_row :: "CounterRow \<Rightarrow> CounterRow" where
  "redeemed_row c = c\<lparr>c_redeemed := sat_add (c_redeemed c) 1\<rparr>"

definition spent_store :: "SpendId \<Rightarrow> bytes \<Rightarrow> u64 \<Rightarrow> store \<Rightarrow> store" where
  "spent_store i h epoch st =
     st\<lparr>SPENT := tbl_insert i epoch (SPENT st), SPEND_HOST := tbl_insert i h (SPEND_HOST st),
        COUNTERS := tbl_insert epoch (redeemed_row (counter st epoch)) (COUNTERS st)\<rparr>"

lemma spend_txn_clean:
  "with_write ok_faults (spend_txn i h epoch) st =
     (if tbl_get (SPENT st) i \<noteq> None then (Inr AlreadySpent, st)
      else if c_redeemed (redeemed_row (counter st epoch)) \<le> c_issued (counter st epoch)
      then (Inr Spent, spent_store i h epoch st)
      else (Inl Storage, st))"
  by (simp add: with_write_def spend_txn_def txn_defs ok_faults_def spent_store_def redeemed_row_def counter_def Let_def)

lemma spend_cases:
  obtains (Kept) r where "with_write flt (spend_txn i h epoch) st = (r, st)" "r \<noteq> Inr Spent"
  | (Spent) "with_write flt (spend_txn i h epoch) st = (Inr Spent, spent_store i h epoch st)"
      "tbl_get (SPENT st) i = None"
      "c_redeemed (redeemed_row (counter st epoch)) \<le> c_issued (counter st epoch)"
proof (rule with_write_cases [OF fault_safe_spend, of flt i h epoch st])
  assume c: "with_write flt (spend_txn i h epoch) st = with_write ok_faults (spend_txn i h epoch) st"
  show ?thesis
    using c [unfolded spend_txn_clean] Kept Spent by (simp split: if_splits)
qed (use Kept in auto)

lemma resolve_active_host_active:
  assumes "resolve_active_host flt h st = Inr (Some addr)"
  shows "\<exists>row. tbl_get (HOSTS st) h = Some row \<and> h_status row = HOST_ACTIVE \<and> h_ingress_addr row = addr"
  using assms
  by (auto simp: resolve_active_host_def with_read_def txn_defs split: if_splits sum.splits option.splits)

text \<open>A route that was found has an active host behind it.\<close>

lemma exec_route_active:
  assumes "exec_route E h (T, st) = (Inr route, T')"
  shows "\<exists>row. tbl_get (HOSTS st) h = Some row \<and> h_status row = HOST_ACTIVE
    \<and> (\<forall>addr. route = Http addr \<longrightarrow> addr = h_ingress_addr row \<and> addr \<noteq> TUNNEL_SENTINEL_ADDR)"
  using assms resolve_active_host_active [of "ee_flt_read E" h st]
  by (auto simp: exec_route_def split: sum.splits option.splits prod.splits Reservation.splits if_splits)

lemma exec_cases:
  assumes "exec X S E body (T, st) = (resp, T', st')"
  obtains (Unspent) "st' = st" "\<And>b. resp \<noteq> OkBody b" "\<And>c. resp \<noteq> OkCode c"
  | (Spent) req route T1 where "bx_parse_exec X body = Some req" "ex_key_id req = bs_key_id S"
      "is_ok (token_verify (bx_rsa X) (bs_issuer_pk S) (ex_token req))"
      "exec_route E (ex_host_account req) (T, st) = (Inr route, T1)"
      "tbl_get (SPENT st) (token_spend_id (bx_prims X) (ex_token req)) = None"
      "c_redeemed (redeemed_row (counter st (cfg_epoch (bs_cfg S)))) \<le> c_issued (counter st (cfg_epoch (bs_cfg S)))"
      "st' = spent_store (token_spend_id (bx_prims X) (ex_token req)) (ex_host_account req) (cfg_epoch (bs_cfg S)) st"
proof (cases "\<exists>req route T1. bx_parse_exec X body = Some req \<and> ex_key_id req = bs_key_id S \<and> is_ok (ExecRequest_validate req)
    \<and> is_ok (token_verify (bx_rsa X) (bs_issuer_pk S) (ex_token req))
    \<and> exec_route E (ex_host_account req) (T, st) = (Inr route, T1)")
  case True
  then obtain req route T1 where r: "bx_parse_exec X body = Some req" "ex_key_id req = bs_key_id S"
    "is_ok (ExecRequest_validate req)" "is_ok (token_verify (bx_rsa X) (bs_issuer_pk S) (ex_token req))"
    "exec_route E (ex_host_account req) (T, st) = (Inr route, T1)" by blast
  then have eq: "exec_spend X S E route req (T1, st) = (resp, T', st')"
    using assms by (simp add: exec_def)
  let ?i = "token_spend_id (bx_prims X) (ex_token req)"
  show ?thesis
  proof (rule spend_cases [of "ee_flt_write E" ?i "ex_host_account req" "cfg_epoch (bs_cfg S)" st])
    fix q
    assume "with_write (ee_flt_write E) (spend_txn ?i (ex_host_account req) (cfg_epoch (bs_cfg S))) st = (q, st)"
      and "q \<noteq> Inr Spent"
    then show ?thesis
      using eq Unspent by (cases q) (auto simp: exec_spend_def Let_def split: SpendOutcome.splits)
  next
    assume "with_write (ee_flt_write E) (spend_txn ?i (ex_host_account req) (cfg_epoch (bs_cfg S))) st
        = (Inr Spent, spent_store ?i (ex_host_account req) (cfg_epoch (bs_cfg S)) st)"
      and "tbl_get (SPENT st) ?i = None"
      and "c_redeemed (redeemed_row (counter st (cfg_epoch (bs_cfg S)))) \<le> c_issued (counter st (cfg_epoch (bs_cfg S)))"
    then show ?thesis
      using eq r Spent by (auto simp: exec_spend_def Let_def split: prod.splits)
  qed
next
  case False
  have route_err: "\<exists>e c. r = Err e c" if "exec_route E h (T, st) = (Inl r, T1)" for h r T1
    using that by (auto simp: exec_route_def split: sum.splits option.splits prod.splits Reservation.splits if_splits)
  have "st' = st \<and> (\<exists>e c. resp = Err e c)"
    using assms False route_err
    by (auto simp: exec_def split: option.splits if_splits sum.splits prod.splits)
  then show ?thesis using Unspent by auto
qed

section \<open>Slots\<close>

lemma same_load_frames: "same_load T (fold (on_text_frame a) fs T)"
proof (induction fs arbitrary: T)
  case (Cons f fs)
  show ?case using same_load_trans [OF same_load_frame Cons.IH] by simp
qed simp

lemma same_load_dispatch: "same_load T (snd (exec_dispatch E a i s T))"
proof (cases "dispatch_send a (ee_waiter E) i s (ee_json_ok E) (ee_send_ok E) T")
  case (Pair r T1)
  then have "same_load T T1" using same_load_send [of T a "ee_waiter E" i s "ee_json_ok E" "ee_send_ok E"] by simp
  with Pair show ?thesis
    by (cases r) (auto simp: exec_dispatch_def
      intro: same_load_trans [OF _ same_load_trans [OF same_load_frames same_load_finish]])
qed

lemma same_load_forward: "same_load T (snd (exec_forward X E route i s T))"
proof (cases route)
  case (Tunnel a)
  obtain r T' where d: "exec_dispatch E a i s T = (r, T')" by fastforce
  then have "same_load T T'" using same_load_dispatch [of T E a i s] by simp
  with d Tunnel show ?thesis by (cases r) (simp_all add: exec_forward_def split: option.splits)
next
  case (Http addr)
  then show ?thesis by (simp add: exec_forward_def split: option.splits prod.splits)
qed

lemma release_after_reserve:
  assumes "try_reserve a T = (True, T1)" and "same_load T1 T2"
  shows "same_load T (release a T2)"
proof -
  obtain s where s: "tg_heap T a = Some s"
    and T1: "T1 = T\<lparr>tg_heap := (tg_heap T)(a \<mapsto> s\<lparr>hs_inflight := hs_inflight s + 1\<rparr>)\<rparr>"
    using assms(1) by (auto simp: try_reserve_def upd_sock_def split: option.splits if_splits)
  obtain s2 where s2: "tg_heap T2 a = Some s2" "hs_inflight s2 = hs_inflight s + 1"
  proof -
    have "map_option hs_inflight (tg_heap T2 a) = Some (hs_inflight s + 1)"
      using assms(2) by (simp add: same_load_def T1)
    then show ?thesis using that by auto
  qed
  with assms(2) s show ?thesis
    by (auto simp: same_load_def T1 release_def upd_sock_def)
qed

lemma exec_route_load:
  assumes "exec_route E h (T, st) = (r, T1)" and "same_load T1 T2"
  shows "case r of Inl _ \<Rightarrow> same_load T T1 | Inr route \<Rightarrow> same_load T (drop_route route T2)"
proof -
  have full: "try_reserve a T = (False, T') \<Longrightarrow> T' = T" for a T'
    by (auto simp: try_reserve_def split: option.splits if_splits)
  show ?thesis
    using assms release_after_reserve
    by (auto simp: exec_route_def reserve_tunnel_def drop_route_def dest!: full
      split: sum.splits option.splits prod.splits Reservation.splits if_splits bool.splits)
qed

section \<open>Properties\<close>

text \<open>
  C7: no token is burned without a live route. An \<open>exec\<close> changes the durable
  store only after the token verified, when its spend id was not yet recorded,
  when the chosen host is registered and active and can be reached (a reserved
  tunnel slot, or an address other than the tunnel sentinel), and when the epoch's
  redeemed count stays within its issued count; the change is exactly the spend
  mark, its binding to the host and one more redeemed. Every other outcome leaves
  the store as it was and is an error answer.
\<close>

theorem exec_burns_only_when_served:
  assumes "exec X S E body (T, st) = (resp, T', st')"
  shows "(st' = st \<and> (\<forall>b. resp \<noteq> OkBody b)) \<or>
    (\<exists>req row route T1. bx_parse_exec X body = Some req
       \<and> is_ok (token_verify (bx_rsa X) (bs_issuer_pk S) (ex_token req))
       \<and> tbl_get (SPENT st) (token_spend_id (bx_prims X) (ex_token req)) = None
       \<and> tbl_get (HOSTS st) (ex_host_account req) = Some row \<and> h_status row = HOST_ACTIVE
       \<and> exec_route E (ex_host_account req) (T, st) = (Inr route, T1)
       \<and> (\<forall>addr. route = Http addr \<longrightarrow> addr = h_ingress_addr row \<and> addr \<noteq> TUNNEL_SENTINEL_ADDR)
       \<and> c_redeemed (redeemed_row (counter st (cfg_epoch (bs_cfg S)))) \<le> c_issued (counter st (cfg_epoch (bs_cfg S)))
       \<and> st' = spent_store (token_spend_id (bx_prims X) (ex_token req)) (ex_host_account req)
                 (cfg_epoch (bs_cfg S)) st)"
  using assms
proof (cases rule: exec_cases)
  case (Spent req route T1)
  then show ?thesis using exec_route_active [OF Spent(4)] by blast
qed blast

definition demo_exec :: ExecRequest where
  "demo_exec = \<lparr>ex_key_id = 7 # replicate 31 0, ex_host_account = replicate 32 4, ex_token = demo_token, ex_sealed = [1]\<rparr>"

definition demo_broker_ext :: broker_ext where
  "demo_broker_ext = \<lparr>bx_prims = demo_prims, bx_rsa = demo_rsa, bx_url = (\<lambda>_. Some (''http'', Some ''h'')),
     bx_snap = demo_snapshot_codec,
     bx_parse_exec = (\<lambda>b. if b = [1] then Some demo_exec else None),
     bx_parse_register = (\<lambda>_. None), bx_parse_heartbeat = (\<lambda>b. if b = [2] then Some demo_heartbeat else None),
     bx_parse_receipt = (\<lambda>b. if b = [3] then Some demo_receipt else None), bx_parse_trial = (\<lambda>_. None),
     bx_json_exec = (\<lambda>_. None), bx_json_host_exec = (\<lambda>_. Some [2]), bx_json_snapshot = (\<lambda>_. None)\<rparr>"

definition demo_broker :: BrokerState where
  "demo_broker = BrokerState_new demo_prims [7] BrokerConfig_default (replicate 32 1) ''s''"

definition demo_exec_env :: exec_env where
  "demo_exec_env = \<lparr>ee_flt_read = ok_faults, ee_flt_write = ok_faults, ee_json_ok = True, ee_send_ok = True,
     ee_waiter = 0, ee_frames = [], ee_http = (\<lambda>_ _. Some (200, Some [9]))\<rparr>"

definition demo_serving_store :: store where
  "demo_serving_store = demo_spent_store\<lparr>
     COUNTERS := tbl_insert 1 \<lparr>c_issued = 2, c_redeemed = 1, c_trial_granted = 0\<rparr> tbl_empty\<rparr>"

lemmas demo_broker_defs = demo_exec_def demo_broker_ext_def demo_broker_def demo_exec_env_def demo_serving_store_def
  demo_spent_store_def BrokerState_new_def BrokerConfig_default_def

lemma demo_exec_route:
  "exec_route demo_exec_env (replicate 32 4) (tunnels_new, demo_serving_store) = (Inr (Http ''http://h''), tunnels_new)"
  by (simp add: exec_route_def resolve_active_host_def with_read_def txn_defs ok_faults_def reserve_tunnel_def
    tunnel_get_def tunnels_new_def TUNNEL_SENTINEL_ADDR_def demo_broker_defs)

lemma demo_token_valid: "is_ok (token_verify (bx_rsa demo_broker_ext) (bs_issuer_pk demo_broker) demo_token)"
  by (simp add: token_verify_def split_token_def demo_token_def demo_rsa_def subslice_def sum_list_replicate demo_broker_defs)

lemma demo_spend:
  "with_write ok_faults (spend_txn (token_spend_id demo_prims demo_token) (replicate 32 4) 1) demo_serving_store
     = (Inr Spent, spent_store (token_spend_id demo_prims demo_token) (replicate 32 4) 1 demo_serving_store)"
proof -
  have "tbl_get (SPENT demo_serving_store) (token_spend_id demo_prims demo_token) = None"
    by (auto simp add: token_spend_id_def demo_prims_def demo_token_def demo_broker_defs list_eq_iff_nth_eq intro: exI [of _ 0])
  then show ?thesis
    by (simp add: spend_txn_clean redeemed_row_def counter_def sat_add_def demo_serving_store_def word_le_nat_alt)
qed

lemma demo_exec_served:
  "exec demo_broker_ext demo_broker demo_exec_env [1] (tunnels_new, demo_serving_store)
     = (OkBody [9], tunnels_new,
        spent_store (token_spend_id demo_prims demo_token) (replicate 32 4) 1 demo_serving_store)"
proof -
  have "bx_parse_exec demo_broker_ext [1] = Some demo_exec" by (simp add: demo_broker_ext_def)
  moreover have "is_ok (ExecRequest_validate demo_exec)" "ex_key_id demo_exec = bs_key_id demo_broker"
    by (simp_all add: ExecRequest_validate_def MAX_SEALED_LEN_def demo_token_def demo_prims_def demo_broker_defs)
  moreover have "is_ok (token_verify (bx_rsa demo_broker_ext) (bs_issuer_pk demo_broker) (ex_token demo_exec))"
    using demo_token_valid by (simp add: demo_exec_def)
  moreover have "exec_spend demo_broker_ext demo_broker demo_exec_env (Http ''http://h'') demo_exec (tunnels_new, demo_serving_store)
     = (OkBody [9], tunnels_new,
        spent_store (token_spend_id demo_prims demo_token) (replicate 32 4) 1 demo_serving_store)"
    using demo_spend
    by (simp add: exec_spend_def exec_forward_def drop_route_def Let_def demo_exec_def demo_broker_ext_def demo_broker_def
      demo_exec_env_def BrokerState_new_def BrokerConfig_default_def)
  moreover have "ex_host_account demo_exec = replicate 32 4" by (simp add: demo_exec_def)
  ultimately show ?thesis
    using demo_exec_route by (simp add: exec_def)
qed

theorem exec_burns_only_when_served_witness:
  "tbl_get (SPENT demo_serving_store) (token_spend_id demo_prims demo_token) = None
   \<and> (\<exists>row. tbl_get (HOSTS demo_serving_store) (replicate 32 4) = Some row \<and> h_status row = HOST_ACTIVE)"
  using exec_burns_only_when_served [OF demo_exec_served]
  by (auto simp: demo_broker_ext_def demo_exec_def)

text \<open>
  C29: an in-flight slot is returned on every path. Whatever an \<open>exec\<close> meets
  (refusal, double spend, storage fault, serialisation failure, timeout, answer),
  every socket's in-flight count afterwards is what it was before, and the
  directory of sockets is unchanged.
\<close>

theorem exec_returns_its_slot:
  "same_load T (fst (snd (exec X S E body (T, st))))"
proof (cases "bx_parse_exec X body")
  case (Some req)
  obtain r T1 where r: "exec_route E (ex_host_account req) (T, st) = (r, T1)" by fastforce
  have keep: "same_load T T1" if "r = Inl e" for e
    using exec_route_load [OF r same_load_refl] that by simp
  have freed: "same_load T (drop_route route T2)" if "r = Inr route" "same_load T1 T2" for route T2
    using exec_route_load [OF r that(2)] that(1) by simp
  have "same_load T (fst (snd (exec_spend X S E route req (T1, st))))" if "r = Inr route" for route
    using freed [OF that same_load_refl] freed [OF that same_load_forward]
    by (auto simp: exec_spend_def Let_def case_prod_beta split: prod.splits sum.splits SpendOutcome.splits)
  with r keep Some show ?thesis by (cases r) (auto simp: exec_def)
qed (simp add: exec_def)

end
