(* ===== verification/Broker_System.thy ===== *)
theory Broker_System
  imports Issuer_Concurrency Broker_Service
begin

text \<open>
  The co-located origin of \<open>lluma-broker/src/main.rs\<close>: one durable store
  behind the issuer and the broker, every handler of both services as a step of
  one transition system, with arbitrary requests, interleavings, storage faults
  and crashes, and the invariants that make the credit economy sound.
\<close>

section \<open>Start-up (main.rs)\<close>

record process_env =
  pe_var :: "string \<Rightarrow> string option"
  pe_file :: "string \<Rightarrow> bytes option"
  pe_store_opens :: bool

definition env :: "process_env \<Rightarrow> string \<Rightarrow> string + string" where
  "env E k = (case pe_var E k of None \<Rightarrow> Inl (''missing required env '' @ k) | Some v \<Rightarrow> Inr v)"

definition env_or :: "process_env \<Rightarrow> string \<Rightarrow> string \<Rightarrow> string" where
  "env_or E k d = (case pe_var E k of None \<Rightarrow> d | Some v \<Rightarrow> v)"

definition read_file :: "process_env \<Rightarrow> string \<Rightarrow> string + bytes" where
  "read_file E k =
     (case env E k of Inl e \<Rightarrow> Inl e
      | Inr p \<Rightarrow> (case pe_file E p of None \<Rightarrow> Inl (''cannot read file at '' @ k @ ''='' @ p) | Some b \<Rightarrow> Inr b))"

definition bind_sum :: "'e + 'a \<Rightarrow> ('a \<Rightarrow> 'e + 'b) \<Rightarrow> 'e + 'b" where
  "bind_sum r f = (case r of Inl e \<Rightarrow> Inl e | Inr a \<Rightarrow> f a)"

definition ok_or :: "'a option \<Rightarrow> 'e \<Rightarrow> 'e + 'a" where
  "ok_or r e = (case r of None \<Rightarrow> Inl e | Some a \<Rightarrow> Inr a)"

text \<open>
  What \<open>main\<close> builds before it serves: the issuer's keys, the admin secret
  both services share, and the broker's state.
\<close>

record origin =
  or_keys :: EpochKeys
  or_admin_secret :: string
  or_broker :: BrokerState

definition broker_main :: "prims \<Rightarrow> process_env \<Rightarrow> string + origin" where
  "broker_main P E =
     bind_sum (env E ''LLUMA_DB_PATH'') (\<lambda>db_path.
     bind_sum (env E ''LLUMA_ADMIN_SECRET'') (\<lambda>admin_secret.
     bind_sum (read_file E ''LLUMA_ISSUER_SK_DER_FILE'') (\<lambda>issuer_sk.
     bind_sum (read_file E ''LLUMA_ISSUER_PK_DER_FILE'') (\<lambda>issuer_pk.
     bind_sum (read_file E ''LLUMA_REGISTRY_SK_FILE'') (\<lambda>registry_sk.
     if length registry_sk \<noteq> 32 then Inl ''LLUMA_REGISTRY_SK_FILE must be exactly 32 bytes''
     else
       bind_sum (read_file E ''LLUMA_EPOCH_SALT_FILE'') (\<lambda>salt.
       if length salt \<noteq> 32 then Inl ''LLUMA_EPOCH_SALT_FILE must be exactly 32 bytes''
       else if salt = replicate 32 0 \<and> env_or E ''LLUMA_ALLOW_ZERO_SALT'' ''0'' \<noteq> ''1''
       then Inl ''refusing to start: LLUMA_EPOCH_SALT_FILE is all-zero (set LLUMA_ALLOW_ZERO_SALT=1 only in dev)''
       else
         bind_sum (ok_or (parse_uint 64 (env_or E ''LLUMA_EPOCH'' ''1'')) ''bad LLUMA_EPOCH'') (\<lambda>epoch.
         bind_sum (ok_or (parse_uint 32 (env_or E ''LLUMA_POW_DIFFICULTY'' ''20'')) ''bad LLUMA_POW_DIFFICULTY'') (\<lambda>pow.
         if \<not> pe_store_opens E then Inl ''cannot open redb store''
         else
           let cfg = BrokerConfig_default\<lparr>cfg_pow_difficulty := of_nat pow, cfg_epoch_salt := salt,
                       cfg_epoch_salt_prev := None, cfg_epoch := of_nat epoch,
                       cfg_allow_loopback_ingress := False\<rparr> in
           Inr \<lparr>or_keys = \<lparr>ek_epoch = of_nat epoch, ek_secret = issuer_sk, ek_public = issuer_pk\<rparr>,
                or_admin_secret = admin_secret,
                or_broker = BrokerState_new P issuer_pk cfg registry_sk admin_secret\<rparr>))))))))"

text \<open>
  The issuer's state on the shared store. Its clock and the faults its storage
  calls meet are those of the moment; the observer logs and drops an error.
\<close>

definition colocated :: "EpochKeys \<Rightarrow> string \<Rightarrow> u64 \<Rightarrow> faults \<Rightarrow> store AppState" where
  "colocated keys admin now flt =
     \<lparr>as_keys = keys,
      as_ledger = \<lparr>cl_balance = redb_balance flt, cl_grant = redb_grant flt, cl_debit = redb_debit flt\<rparr>,
      as_spent = redb_spent_insert flt (ek_epoch keys),
      as_admin_secret = admin, as_now_unix_s = now,
      as_issued_observer = Some (\<lambda>ep n st. snd (bump_issued flt ep n st))\<rparr>"

lemma colocated_simps [simp]:
  "as_keys (colocated keys admin now flt) = keys"
  "cl_grant (as_ledger (colocated keys admin now flt)) = redb_grant flt"
  "cl_debit (as_ledger (colocated keys admin now flt)) = redb_debit flt"
  "as_spent (colocated keys admin now flt) = redb_spent_insert flt (ek_epoch keys)"
  "observe_issued (colocated keys admin now flt) n st = snd (bump_issued flt (ek_epoch keys) n st)"
  by (simp_all add: colocated_def observe_issued_def)

lemma balance_bump_issued [simp]: "balance_of (snd (bump_issued flt e n st)) = balance_of st"
  by (rule bump_issued_cases [of flt e n st])
    (auto simp: bump_issued_clean balance_of_def ledger_row_def fun_eq_iff)

interpretation colocated: metered_issuer balance_of "colocated keys admin now flt"
proof unfold_locales
  fix f :: unit and a b n w w' e u
  show "balance_of (cl_grant (as_ledger (colocated keys admin now flt)) a n w) a = sat_add (balance_of w a) n \<or>
    balance_of (cl_grant (as_ledger (colocated keys admin now flt)) a n w) a = balance_of w a"
    using redb_ledger.grant_self by simp
qed (simp_all add: redb_ledger.grant_other redb_ledger.debit_ok redb_ledger.debit_err redb_ledger.debit_other)


section \<open>The system\<close>

text \<open>
  The durable store, the issuer's cache and running tasks, the clock, and two
  histories no code keeps: when each host first registered, and how much the
  operator granted in total.
\<close>

record sys =
  sy_store :: store
  sy_cache :: IssueIdempotencyCache
  sy_tasks :: "issue_task list"
  sy_now :: u64
  sy_registered :: "bytes \<Rightarrow> u64"
  sy_granted :: nat

definition sys_init :: "u64 \<Rightarrow> sys" where
  "sys_init now = \<lparr>sy_store = empty_store, sy_cache = idem_new, sy_tasks = [], sy_now = now,
     sy_registered = (\<lambda>_. 0), sy_granted = 0\<rparr>"

text \<open>A crash loses the cache and every unfinished task; what was charged stays charged.\<close>

fun crashed :: "issue_task \<Rightarrow> issue_task" where
  "crashed (Start body) = Gone"
| "crashed (Holding req) = Gone"
| "crashed (Unpaid e req) = Gone"
| "crashed (Charged req) = Lost req"
| "crashed (Observed req) = Lost req"
| "crashed (Unsigned req) = Lost req"
| "crashed (Signed req resp) = Lost req"
| "crashed (Refunded req) = Failed req"
| "crashed t = t"

definition granted_amount :: "issuer_ext \<Rightarrow> bytes \<Rightarrow> IssuerError + unit \<Rightarrow> nat" where
  "granted_amount X body res =
     (case res of Inl _ \<Rightarrow> 0
      | Inr _ \<Rightarrow> (case ix_parse_grant X body of None \<Rightarrow> 0 | Some g \<Rightarrow> unat (gr_amount g)))"

text \<open>
  \<open>spend\<close> is the part of \<open>exec\<close> that follows a verified token and a route
  found earlier, possibly in an older state: it holds for any route.
\<close>

inductive sys_step :: "issuer_ext \<Rightarrow> broker_ext \<Rightarrow> origin \<Rightarrow> sys \<Rightarrow> sys \<Rightarrow> bool"
  for X :: issuer_ext and B :: broker_ext and D :: origin where
  arrive: "sys_step X B D s (s\<lparr>sy_tasks := sy_tasks s @ [Start body]\<rparr>)"
| advance: "i < length (sy_tasks s) \<Longrightarrow>
    issue_task_step X (colocated (or_keys D) (or_admin_secret D) (sy_now s) flt) r (sy_tasks s ! i)
      (sy_cache s, sy_store s) = (t, c, st) \<Longrightarrow>
    sys_step X B D s (s\<lparr>sy_tasks := (sy_tasks s)[i := t], sy_cache := c, sy_store := st\<rparr>)"
| redeem: "redeem X (colocated (or_keys D) (or_admin_secret D) (sy_now s) flt) body (sy_store s) = (res, st) \<Longrightarrow>
    sys_step X B D s (s\<lparr>sy_store := st\<rparr>)"
| grant: "admin_grant X (colocated (or_keys D) (or_admin_secret D) (sy_now s) flt) hdr body (sy_store s) = (res, st) \<Longrightarrow>
    sys_step X B D s (s\<lparr>sy_store := st, sy_granted := sy_granted s + granted_amount X body res\<rparr>)"
| spend: "bx_parse_exec B body = Some req \<Longrightarrow> is_ok (token_verify (bx_rsa B) (bs_issuer_pk (or_broker D)) (ex_token req)) \<Longrightarrow>
    exec_spend B (or_broker D) E route req (T, sy_store s) = (resp, T', st) \<Longrightarrow>
    sys_step X B D s (s\<lparr>sy_store := st\<rparr>)"
| register: "bx_parse_register B body = Some req \<Longrightarrow>
    host_register B (or_broker D) flt (sy_now s) body (sy_store s) = (resp, st) \<Longrightarrow>
    sys_step X B D s (s\<lparr>sy_store := st,
      sy_registered := (if resp = OkCode ''registered''
        then (sy_registered s)(hr_host_account (hrr_body req) := sy_now s) else sy_registered s)\<rparr>)"
| heartbeat: "host_heartbeat B (or_broker D) flt flt' (sy_now s) body (sy_store s) = (resp, st) \<Longrightarrow>
    sys_step X B D s (s\<lparr>sy_store := st\<rparr>)"
| receipt: "receipt_submit B (or_broker D) flt body (sy_store s) = (resp, st) \<Longrightarrow>
    sys_step X B D s (s\<lparr>sy_store := st\<rparr>)"
| trial: "trial_register B (or_broker D) flt (sy_now s) body (sy_store s) = (resp, st) \<Longrightarrow>
    sys_step X B D s (s\<lparr>sy_store := st\<rparr>)"
| evict: "evict_stale flt (sy_now s) (bs_cfg (or_broker D)) (sy_store s) = (resp, st) \<Longrightarrow>
    sys_step X B D s (s\<lparr>sy_store := st\<rparr>)"
| tick: "sy_now s \<le> now \<Longrightarrow> sys_step X B D s (s\<lparr>sy_now := now\<rparr>)"
| crash: "sys_step X B D s (s\<lparr>sy_cache := idem_new, sy_tasks := map crashed (sy_tasks s)\<rparr>)"

definition sys_reachable :: "issuer_ext \<Rightarrow> broker_ext \<Rightarrow> origin \<Rightarrow> sys \<Rightarrow> bool" where
  "sys_reachable X B D s \<longleftrightarrow> (\<exists>now. (sys_step X B D)\<^sup>*\<^sup>* (sys_init now) s)"

lemma sys_reachable_induct [consumes 1, case_names init step]:
  assumes "sys_reachable X B D s"
    and "\<And>now. Q (sys_init now)"
    and "\<And>s s'. sys_reachable X B D s \<Longrightarrow> Q s \<Longrightarrow> sys_step X B D s s' \<Longrightarrow> Q s'"
  shows "Q s"
proof -
  obtain now where "(sys_step X B D)\<^sup>*\<^sup>* (sys_init now) s" using assms(1) by (auto simp: sys_reachable_def)
  then have "Q s \<and> sys_reachable X B D s"
  proof (induction rule: rtranclp_induct)
    case base
    show ?case using assms(2) by (auto simp: sys_reachable_def)
  next
    case (step s s')
    then show ?case using assms(3) by (auto simp: sys_reachable_def intro: rtranclp.rtrancl_into_rtrancl)
  qed
  then show ?thesis ..
qed

section \<open>What a step does to the store\<close>

definition rebalanced :: "AccountId \<Rightarrow> LedgerRow \<Rightarrow> store \<Rightarrow> store" where
  "rebalanced a row st = st\<lparr>LEDGER := tbl_insert a row (LEDGER st)\<rparr>"

definition bumped :: "u64 \<Rightarrow> u64 \<Rightarrow> store \<Rightarrow> store" where
  "bumped e n st = st\<lparr>COUNTERS := tbl_insert e
     ((counter st e)\<lparr>c_issued := sat_add (c_issued (counter st e)) n\<rparr>) (COUNTERS st)\<rparr>"

definition amount_of :: "IssueRequest option \<Rightarrow> nat" where
  "amount_of r = (case r of None \<Rightarrow> 0 | Some req \<Rightarrow> unat (batch_amount req))"

text \<open>The request whose batch a task has reported, or was about to report, to the observer.\<close>

fun counted_for :: "issue_task \<Rightarrow> IssueRequest option" where
  "counted_for (Refunded req) = Some req"
| "counted_for (Failed req) = Some req"
| "counted_for (Charged req) = None"
| "counted_for t = charged_for t"

lemma task_effect:
  assumes "issue_task_step X (colocated keys admin now flt) r t (c, st) = (t', c', st')"
  obtains (Still) "st' = st" "charged_for t' = charged_for t" "counted_for t' = counted_for t"
  | (Debit) a req row where "st' = rebalanced a row st" "batch_amount req \<le> balance_of st a"
      "l_balance row = balance_of st a - batch_amount req" "charged_for t = None" "charged_for t' = Some req"
      "counted_for t = None" "counted_for t' = None"
  | (Observe) req where "st' = st \<or> st' = bumped (ek_epoch keys) (batch_amount req) st"
      "charged_for t' = charged_for t" "counted_for t = None" "counted_for t' = Some req"
  | (Refund) a req row where "st' = st \<or> st' = rebalanced a row st"
      "l_balance row = sat_add (balance_of st a) (batch_amount req)"
      "charged_for t = Some req" "charged_for t' = None" "counted_for t' = counted_for t"
proof (cases t)
  case (Start body)
  with assms show ?thesis
    by (intro Still) (auto split: sum.splits prod.splits BeginOutcome.splits)
next
  case (Holding req)
  let ?n = "batch_amount req" and ?a = "issue_account X req"
  show ?thesis
    by (rule redb_debit_cases [of flt ?a ?n st])
      (use assms Holding in \<open>auto intro: Still Debit [of ?a _ req, unfolded rebalanced_def]\<close>)
next
  case (Charged req)
  show ?thesis
    by (rule bump_issued_cases [of flt "ek_epoch keys" "batch_amount req" st])
      (use assms Charged in \<open>auto intro!: Observe [of req] simp: bump_issued_clean bumped_def\<close>)
next
  case (Unsigned req)
  let ?n = "batch_amount req" and ?a = "issue_account X req"
  let ?row = "(ledger_row st ?a)\<lparr>l_balance := sat_add (balance_of st ?a) ?n, l_earned := sat_add (l_earned (ledger_row st ?a)) ?n\<rparr>"
  show ?thesis
    by (rule redb_grant_cases [of flt ?a ?n st])
      (use assms Unsigned in \<open>auto intro!: Refund [of ?a ?row req] simp: rebalanced_def\<close>)
next
  case (Observed req)
  with assms show ?thesis by (intro Still) (auto split: sum.splits)
qed (use assms Still in \<open>fastforce+\<close>)


definition total :: "(issue_task \<Rightarrow> IssueRequest option) \<Rightarrow> issue_task list \<Rightarrow> nat" where
  "total f ts = sum_list (map (\<lambda>t. amount_of (f t)) ts)"

lemma total_update:
  "i < length ts \<Longrightarrow> total f (ts[i := t]) + amount_of (f (ts ! i)) = total f ts + amount_of (f t)"
proof (induction ts arbitrary: i)
  case (Cons u us)
  then show ?case by (cases i) (auto simp: total_def)
qed simp

lemma total_crashed:
  "total charged_for (map crashed ts) = total charged_for ts" "total counted_for ts \<le> total counted_for (map crashed ts)"
proof -
  have c: "charged_for (crashed t) = charged_for t" and o: "amount_of (counted_for t) \<le> amount_of (counted_for (crashed t))" for t
    by (cases t; simp add: amount_of_def)+
  show "total charged_for (map crashed ts) = total charged_for ts"
    by (simp add: total_def c comp_def)
  show "total counted_for ts \<le> total counted_for (map crashed ts)"
    unfolding total_def map_map comp_def by (rule sum_list_mono) (rule o)
qed

lemma total_arrive [simp]: "total charged_for (ts @ [Start b]) = total charged_for ts"
  "total counted_for (ts @ [Start b]) = total counted_for ts"
  by (simp_all add: total_def amount_of_def)

text \<open>
  Every step changes the store in one of nine ways, with what that costs or
  adds on the side of the tasks and the operator.
\<close>

abbreviation charged_total :: "sys \<Rightarrow> nat" where
  "charged_total s \<equiv> total charged_for (sy_tasks s)"

abbreviation counted_total :: "sys \<Rightarrow> nat" where
  "counted_total s \<equiv> total counted_for (sy_tasks s)"

definition same_books :: "sys \<Rightarrow> sys \<Rightarrow> bool" where
  "same_books s s' \<longleftrightarrow> charged_total s' = charged_total s \<and> counted_total s' = counted_total s \<and> sy_granted s' = sy_granted s"

lemma same_books_simps [simp]: "same_books s (s\<lparr>sy_store := st\<rparr>)" "same_books s (s\<lparr>sy_store := st, sy_registered := g\<rparr>)"
  by (simp_all add: same_books_def)

inductive effect :: "broker_ext \<Rightarrow> origin \<Rightarrow> sys \<Rightarrow> sys \<Rightarrow> bool"
  for B :: broker_ext and D :: origin and s :: sys where
  idle: "effect B D s s'"
    if "sy_store s' = sy_store s" "charged_total s' = charged_total s" "counted_total s \<le> counted_total s'"
      "sy_granted s \<le> sy_granted s'" for s'
| debit: "effect B D s s'"
    if "sy_store s' = rebalanced a row (sy_store s)" "n \<le> balance_of (sy_store s) a"
      "l_balance row = balance_of (sy_store s) a - n" "charged_total s' = charged_total s + unat n"
      "counted_total s' = counted_total s" "sy_granted s' = sy_granted s" for s' a n row
| count: "effect B D s s'"
    if "sy_store s' = bumped (ek_epoch (or_keys D)) n (sy_store s)" "charged_total s' = charged_total s"
      "counted_total s' = counted_total s + unat n" "sy_granted s' = sy_granted s" for s' n
| credit: "effect B D s s'"
    if "sy_store s' = sy_store s \<or> sy_store s' = rebalanced a row (sy_store s)"
      "l_balance row = sat_add (balance_of (sy_store s) a) n"
      "charged_total s' + unat n + sy_granted s = charged_total s + sy_granted s'"
      "counted_total s' = counted_total s" "charged_total s' = charged_total s \<or> sy_granted s' = sy_granted s" for s' a n row
| mark: "effect B D s s'"
    if "sy_store s' = (sy_store s)\<lparr>SPENT := tbl_insert i e (SPENT (sy_store s))\<rparr>"
      "tbl_get (SPENT (sy_store s)) i = None" "same_books s s'" for s' i e
| spend: "effect B D s s'"
    if "sy_store s' = spent_store i h (cfg_epoch (bs_cfg (or_broker D))) (sy_store s)"
      "tbl_get (SPENT (sy_store s)) i = None"
      "c_redeemed (redeemed_row (counter (sy_store s) (cfg_epoch (bs_cfg (or_broker D)))))
         \<le> c_issued (counter (sy_store s) (cfg_epoch (bs_cfg (or_broker D))))" "same_books s s'" for s' i h
| hosts: "effect B D s s'"
    if "sy_store s' = (sy_store s)\<lparr>HOSTS := hosts\<rparr>" "same_books s s'" for s' hosts
| receipt: "effect B D s s'"
    if "a = account_fingerprint (bx_prims B) (ur_host_account (rs_body submit))"
      "sy_store s' = rebalanced a (credit_row 1 (ledger_row (sy_store s) a))
         ((sy_store s)\<lparr>RECEIPTS := tbl_insert (ur_spend_id (rs_body submit)) (receipt_row submit) (RECEIPTS (sy_store s))\<rparr>)"
      "tbl_get (SPEND_HOST (sy_store s)) (ur_spend_id (rs_body submit)) = Some (ur_host_account (rs_body submit))"
      "tbl_get (RECEIPTS (sy_store s)) (ur_spend_id (rs_body submit)) = None" "same_books s s'" for s' a submit
| trial: "effect B D s s'"
    if "sy_store s' = trial_store account a (bs_cfg (or_broker D)) day (sy_store s)"
      "tbl_get (TRIAL_ACCTS (sy_store s)) account = None"
      "sat_add (spent_today (sy_store s) day) (cfg_trial_grant (bs_cfg (or_broker D)))
         \<le> cfg_daily_trial_budget (bs_cfg (or_broker D))" "same_books s s'"
      "a = account_fingerprint (bx_prims B) account" for s' account a day

lemma effect_same: "effect B D s s" "effect B D s (s\<lparr>sy_registered := g\<rparr>)" "effect B D s (s\<lparr>sy_store := sy_store s\<rparr>)" "effect B D s (s\<lparr>sy_store := sy_store s, sy_registered := g\<rparr>)"
  "effect B D s (s\<lparr>sy_store := sy_store s, sy_granted := sy_granted s + k\<rparr>)"
  by (rule effect.idle; simp)+

text \<open>The storage operation behind each handler.\<close>

lemma redeem_store: "snd (redeem X S body w) = w \<or> (\<exists>i. snd (redeem X S body w) = snd (as_spent S i w))"
  by (auto simp: redeem_def Let_def split: sum.splits prod.splits InsertOutcome.splits)
    (metis snd_conv)+

lemma admin_grant_store:
  "snd (admin_grant X S hdr body w) = w
   \<or> (\<exists>g. fst (admin_grant X S hdr body w) = Inr () \<and> ix_parse_grant X body = Some g
        \<and> snd (admin_grant X S hdr body w) = cl_grant (as_ledger S) (gr_account_id g) (gr_amount g) w)"
  by (auto simp: admin_grant_def parse_body_def Let_def split: option.splits)

lemma exec_spend_store:
  "snd (snd (exec_spend B S E route req (T, st)))
   = snd (with_write (ee_flt_write E) (spend_txn (token_spend_id (bx_prims B) (ex_token req)) (ex_host_account req)
       (cfg_epoch (bs_cfg S))) st)"
  by (auto simp: exec_spend_def Let_def split: prod.splits sum.splits SpendOutcome.splits)

lemma host_register_store:
  "snd (host_register B S flt now body st) = (case bx_parse_register B body of None \<Rightarrow> st
     | Some req \<Rightarrow> snd (register (bx_prims B) (bx_url B) flt req (bs_cfg S) now st))"
  by (auto simp: host_register_def split: option.splits prod.splits sum.splits RegisterOutcome.splits)

lemma host_heartbeat_store:
  "snd (host_heartbeat B S f f' now body st) = (case bx_parse_heartbeat B body of None \<Rightarrow> st
     | Some req \<Rightarrow> snd (heartbeat (bx_prims B) f f' req now (bs_cfg S) st))"
  by (auto simp: host_heartbeat_def split: option.splits prod.splits sum.splits HeartbeatOutcome.splits)

lemma receipt_submit_store:
  "snd (receipt_submit B S f body st) = (case bx_parse_receipt B body of None \<Rightarrow> st
     | Some req \<Rightarrow> snd (ingest (bx_prims B) f req (bs_cfg S) st))"
  by (auto simp: receipt_submit_def split: option.splits prod.splits sum.splits IngestOutcome.splits)

lemma trial_register_store:
  "snd (trial_register B S f now body st) = (case bx_parse_trial B body of None \<Rightarrow> st
     | Some req \<Rightarrow> snd (grant_trial (bx_prims B) f req (bs_cfg S) (now div 86400) st))"
  by (auto simp: trial_register_def Let_def split: option.splits prod.splits sum.splits TrialOutcome.splits)

lemma effect_advance:
  assumes i: "i < length (sy_tasks s)"
    and step: "issue_task_step X (colocated (or_keys D) admin now flt) r (sy_tasks s ! i) (sy_cache s, sy_store s) = (t, c, st)"
  shows "effect B D s (s\<lparr>sy_tasks := (sy_tasks s)[i := t], sy_cache := c, sy_store := st\<rparr>)"
proof -
  note tot = total_update [OF i, where f = charged_for and t = t] total_update [OF i, where f = counted_for and t = t]
  from step show ?thesis
  proof (cases rule: task_effect)
    case Still
    then show ?thesis using tot by (intro effect.idle) simp_all
  next
    case (Debit a req row)
    then show ?thesis using tot by (intro effect.debit [of _ a row _ "batch_amount req"]) (simp_all add: amount_of_def)
  next
    case (Observe req)
    from Observe(1) show ?thesis
    proof
      assume "st = sy_store s"
      then show ?thesis using tot Observe by (intro effect.idle) (simp_all add: amount_of_def)
    next
      assume "st = bumped (ek_epoch (or_keys D)) (batch_amount req) (sy_store s)"
      then show ?thesis using tot Observe by (intro effect.count [of _ _ "batch_amount req"]) (simp_all add: amount_of_def)
    qed
  next
    case (Refund a req row)
    then show ?thesis using tot by (intro effect.credit [of _ _ a row "batch_amount req"]) (simp_all add: amount_of_def)
  qed
qed

lemma effect_redeem:
  "effect B D s (s\<lparr>sy_store := snd (redeem X (colocated keys admin now flt) body (sy_store s))\<rparr>)"
proof -
  consider "snd (redeem X (colocated keys admin now flt) body (sy_store s)) = sy_store s"
    | i where "snd (redeem X (colocated keys admin now flt) body (sy_store s)) = snd (redb_spent_insert flt (ek_epoch keys) i (sy_store s))"
    using redeem_store [of X "colocated keys admin now flt" body "sy_store s"] by auto
  then show ?thesis
  proof cases
    case 1
    then show ?thesis by (simp only: effect_same)
  next
    case (2 i)
    show ?thesis
      unfolding 2
      by (rule redb_spent_insert_cases [of flt "ek_epoch keys" i "sy_store s"])
        (simp_all add: effect_same effect.mark)
  qed
qed

lemma effect_grant:
  assumes "admin_grant X (colocated keys admin now flt) hdr body (sy_store s) = (res, st)"
  shows "effect B D s (s\<lparr>sy_store := st, sy_granted := sy_granted s + granted_amount X body res\<rparr>)"
proof -
  consider "st = sy_store s" | g where "res = Inr ()" "ix_parse_grant X body = Some g"
      "st = redb_grant flt (gr_account_id g) (gr_amount g) (sy_store s)"
    using admin_grant_store [of X "colocated keys admin now flt" hdr body "sy_store s"] assms by auto
  then show ?thesis
  proof cases
    case (2 g)
    let ?a = "gr_account_id g" and ?n = "gr_amount g"
    show ?thesis
      unfolding 2(3)
      by (rule redb_grant_cases [of flt ?a ?n "sy_store s"];
          rule effect.credit [of _ _ ?a "credit_row ?n (ledger_row (sy_store s) ?a)" ?n])
        (use 2(1,2) in \<open>simp_all add: granted_amount_def rebalanced_def credit_row_def balance_of_def\<close>)
  qed (simp only: effect_same)
qed

lemma effect_spend:
  "effect B D s (s\<lparr>sy_store := snd (with_write flt (spend_txn i h (cfg_epoch (bs_cfg (or_broker D)))) (sy_store s))\<rparr>)"
  by (rule spend_cases [of flt i h "cfg_epoch (bs_cfg (or_broker D))" "sy_store s"])
    (simp_all add: effect_same effect.spend)

lemma effect_register:
  "effect B D s (s\<lparr>sy_store := snd (register P U flt req cfg now (sy_store s)), sy_registered := g\<rparr>)"
  by (rule register_cases [of P U flt req cfg now "sy_store s"]) (simp_all add: effect_same effect.hosts)

lemma effect_heartbeat:
  "effect B D s (s\<lparr>sy_store := snd (heartbeat P flt flt' req now cfg (sy_store s))\<rparr>)"
  by (rule heartbeat_cases [of P flt flt' req now cfg "sy_store s"]) (simp_all add: effect_same effect.hosts)

lemma effect_receipt:
  "effect B D s (s\<lparr>sy_store := snd (ingest (bx_prims B) flt req cfg (sy_store s))\<rparr>)"
  by (rule ingest_cases [of "bx_prims B" flt req cfg "sy_store s"])
    (simp_all add: effect_same effect.receipt [of _ _ req] rebalanced_def)

lemma effect_trial:
  "effect B D s (s\<lparr>sy_store := snd (grant_trial (bx_prims B) flt req (bs_cfg (or_broker D)) day (sy_store s))\<rparr>)"
  by (rule trial_cases [of "bx_prims B" flt req "bs_cfg (or_broker D)" day "sy_store s"])
    (simp_all add: effect_same effect.trial)

lemma effect_evict: "effect B D s (s\<lparr>sy_store := snd (evict_stale flt now cfg (sy_store s))\<rparr>)"
  by (rule evict_cases [of flt now cfg "sy_store s"]) (simp_all add: effect_same effect.hosts)

lemma sys_step_effect: "sys_step X B D s s' \<Longrightarrow> effect B D s s'"
proof (induction rule: sys_step.induct)
  case (advance i s flt r t c st)
  then show ?case by (rule effect_advance)
next
  case (redeem s flt body res st)
  then show ?case using effect_redeem by (metis snd_conv)
next
  case (grant s flt hdr body res st)
  then show ?case by (rule effect_grant)
next
  case (spend body req E route T s resp T' st)
  then show ?case using effect_spend exec_spend_store by (metis snd_conv)
next
  case (register body req flt s resp st)
  then have "st = snd (register (bx_prims B) (bx_url B) flt req (bs_cfg (or_broker D)) (sy_now s) (sy_store s))"
    using host_register_store [of B "or_broker D" flt "sy_now s" body "sy_store s"] by simp
  then show ?case by (simp only: effect_register)
next
  case (heartbeat flt flt' s body resp st)
  then show ?case
    using host_heartbeat_store [of B "or_broker D" flt flt' "sy_now s" body "sy_store s"]
    by (cases "bx_parse_heartbeat B body") (simp_all add: effect_same effect_heartbeat)
next
  case (receipt flt body s resp st)
  then show ?case
    using receipt_submit_store [of B "or_broker D" flt body "sy_store s"]
    by (cases "bx_parse_receipt B body") (simp_all add: effect_same effect_receipt)
next
  case (trial flt s body resp st)
  then show ?case
    using trial_register_store [of B "or_broker D" flt "sy_now s" body "sy_store s"]
    by (cases "bx_parse_trial B body") (simp_all add: effect_same effect_trial)
next
  case (evict flt s resp st)
  then show ?case using effect_evict by (metis snd_conv)
next
  case (crash s)
  then show ?case by (intro effect.idle) (simp_all add: total_crashed)
qed (rule effect.idle; simp)+


section \<open>Conservation of credits\<close>

definition ledger_sum :: "store \<Rightarrow> nat" where
  "ledger_sum st = tbl_sum (\<lambda>r. unat (l_balance r)) (LEDGER st)"

definition trial_sum :: "store \<Rightarrow> nat" where
  "trial_sum st = tbl_sum unat (TRIAL_BUDGET st)"

definition receipt_count :: "store \<Rightarrow> nat" where
  "receipt_count st = card (tbl_keys (RECEIPTS st))"

lemma row_val_balance: "row_val (\<lambda>r. unat (l_balance r)) (tbl_get (LEDGER st) a) = unat (balance_of st a)"
  by (cases "tbl_get (LEDGER st) a") (simp_all add: balance_of_def ledger_row_def LedgerRow_default_def)

lemma ledger_sum_insert:
  "ledger_sum (st\<lparr>LEDGER := tbl_insert a row t\<rparr>) + unat (balance_of st a) = ledger_sum st + unat (l_balance row)"
  if "t = LEDGER st"
  using tbl_sum_insert [of "\<lambda>r. unat (l_balance r)" a row "LEDGER st"]
  by (simp add: ledger_sum_def row_val_balance that)

lemma ledger_sum_simps [simp]:
  "ledger_sum (st\<lparr>SPENT := x1\<rparr>) = ledger_sum st" "ledger_sum (st\<lparr>HOSTS := x2\<rparr>) = ledger_sum st"
  "ledger_sum (st\<lparr>RECEIPTS := x3\<rparr>) = ledger_sum st" "ledger_sum (bumped e n st) = ledger_sum st"
  "ledger_sum (spent_store i h e st) = ledger_sum st"
  by (simp_all add: ledger_sum_def bumped_def spent_store_def)

lemma trial_sum_simps [simp]:
  "trial_sum (st\<lparr>SPENT := x1\<rparr>) = trial_sum st" "trial_sum (st\<lparr>HOSTS := x2\<rparr>) = trial_sum st"
  "trial_sum (st\<lparr>RECEIPTS := x3\<rparr>) = trial_sum st" "trial_sum (bumped e n st) = trial_sum st"
  "trial_sum (spent_store i h e st) = trial_sum st" "trial_sum (rebalanced a row st) = trial_sum st"
  by (simp_all add: trial_sum_def bumped_def spent_store_def rebalanced_def)

lemma receipt_count_simps [simp]:
  "receipt_count (st\<lparr>SPENT := x1\<rparr>) = receipt_count st" "receipt_count (st\<lparr>HOSTS := x2\<rparr>) = receipt_count st"
  "receipt_count (bumped e n st) = receipt_count st" "receipt_count (spent_store i h e st) = receipt_count st"
  "receipt_count (rebalanced a row st) = receipt_count st" "receipt_count (trial_store x a cfg d st) = receipt_count st"
  by (simp_all add: receipt_count_def bumped_def spent_store_def rebalanced_def trial_store_def)

lemma ledger_sum_rebalanced:
  "ledger_sum (rebalanced a row st) + unat (balance_of st a) = ledger_sum st + unat (l_balance row)"
  unfolding rebalanced_def by (rule ledger_sum_insert) simp

lemma balance_of_RECEIPTS [simp]: "balance_of (st\<lparr>RECEIPTS := x\<rparr>) = balance_of st"
  by (simp add: balance_of_def ledger_row_def fun_eq_iff)

lemma credit_row_le: "unat (l_balance (credit_row n (ledger_row st a))) \<le> unat (balance_of st a) + unat n"
  using unat_sat_add_le by (simp add: credit_row_def balance_of_def)

lemma trial_store_sums:
  assumes "sat_add (spent_today st d) (cfg_trial_grant cfg) \<le> cfg_daily_trial_budget cfg"
    and "cfg_daily_trial_budget cfg \<noteq> - 1"
  shows "trial_sum (trial_store x a cfg d st) = trial_sum st + unat (cfg_trial_grant cfg)"
    and "ledger_sum (trial_store x a cfg d st) \<le> ledger_sum st + unat (cfg_trial_grant cfg)"
proof -
  have "row_val unat (tbl_get (TRIAL_BUDGET st) d) = unat (spent_today st d)"
    by (simp add: spent_today_def row_val_def split: option.splits)
  moreover have "unat (sat_add (spent_today st d) (cfg_trial_grant cfg)) = unat (spent_today st d) + unat (cfg_trial_grant cfg)"
    using assms by (rule sat_add_le_exact)
  ultimately show "trial_sum (trial_store x a cfg d st) = trial_sum st + unat (cfg_trial_grant cfg)"
    using tbl_sum_insert [of unat d "sat_add (spent_today st d) (cfg_trial_grant cfg)" "TRIAL_BUDGET st"]
    by (simp add: trial_sum_def trial_store_def)
  let ?row = "credit_row (cfg_trial_grant cfg) (ledger_row st a)"
  have "ledger_sum (trial_store x a cfg d st) = ledger_sum (rebalanced a ?row st)"
    by (simp add: ledger_sum_def trial_store_def rebalanced_def)
  then show "ledger_sum (trial_store x a cfg d st) \<le> ledger_sum st + unat (cfg_trial_grant cfg)"
    using ledger_sum_rebalanced [of a ?row st] credit_row_le [of "cfg_trial_grant cfg" st a] by linarith
qed

definition supply_inv :: "sys \<Rightarrow> bool" where
  "supply_inv s \<longleftrightarrow> ledger_sum (sy_store s) + charged_total s
     \<le> sy_granted s + trial_sum (sy_store s) + receipt_count (sy_store s)"

lemma supply_step:
  assumes "effect B D s s'" and "supply_inv s" and "cfg_daily_trial_budget (bs_cfg (or_broker D)) \<noteq> - 1"
  shows "supply_inv s'"
  using assms(1)
proof cases
  case (debit a n row)
  then show ?thesis
    using assms(2) ledger_sum_rebalanced [of a row "sy_store s"] unat_sub_le [of n "balance_of (sy_store s) a"]
    by (simp add: supply_inv_def word_le_nat_alt)
next
  case (credit a n row)
  have "ledger_sum (sy_store s') \<le> ledger_sum (sy_store s) + unat n"
    using credit(1,2) ledger_sum_rebalanced [of a row "sy_store s"] unat_sat_add_le [of "balance_of (sy_store s) a" n] by auto
  moreover have "trial_sum (sy_store s') = trial_sum (sy_store s)" "receipt_count (sy_store s') = receipt_count (sy_store s)"
    using credit(1) by auto
  ultimately show ?thesis using credit(3) assms(2) by (simp add: supply_inv_def)
next
  case (receipt a submit)
  let ?st = "(sy_store s)\<lparr>RECEIPTS := tbl_insert (ur_spend_id (rs_body submit)) (receipt_row submit) (RECEIPTS (sy_store s))\<rparr>"
  let ?row = "credit_row 1 (ledger_row (sy_store s) a)"
  have "ledger_sum (sy_store s') \<le> ledger_sum (sy_store s) + 1"
    using receipt(2) ledger_sum_rebalanced [of a ?row ?st] credit_row_le [of 1 "sy_store s" a] by simp
  moreover have "receipt_count (sy_store s') = receipt_count (sy_store s) + 1"
    using receipt(2,4) in_tbl_keys [of "ur_spend_id (rs_body submit)" "RECEIPTS (sy_store s)"]
    by (simp add: receipt_count_def rebalanced_def)
  ultimately show ?thesis using receipt(2,5) assms(2) by (simp add: supply_inv_def same_books_def)
next
  case (trial account a day)
  then show ?thesis
    using trial_store_sums [OF trial(3) assms(3), of account a] assms(2) by (simp add: supply_inv_def same_books_def)
qed (use assms(2) in \<open>simp_all add: supply_inv_def same_books_def\<close>)


section \<open>Tokens, receipts and counters\<close>

text \<open>The tokens of an epoch that were spent by being sent to a host.\<close>

definition served :: "store \<Rightarrow> u64 \<Rightarrow> SpendId set" where
  "served st e = {i. tbl_get (SPENT st) i = Some e \<and> tbl_get (SPEND_HOST st) i \<noteq> None}"

lemma finite_served [simp]: "finite (served st e)"
  by (rule finite_subset [of _ "tbl_keys (SPENT st)"]) (auto simp: served_def in_tbl_keys)

definition spends_bound :: "store \<Rightarrow> bool" where
  "spends_bound st \<longleftrightarrow>
     (\<forall>i h. tbl_get (SPEND_HOST st) i = Some h \<longrightarrow> tbl_get (SPENT st) i \<noteq> None)
     \<and> (\<forall>i row. tbl_get (RECEIPTS st) i = Some row \<longrightarrow> tbl_get (SPEND_HOST st) i = Some (r_host_account row))"

definition counters_ok :: "store \<Rightarrow> nat \<Rightarrow> u64 \<Rightarrow> bool" where
  "counters_ok st n e \<longleftrightarrow>
     c_redeemed (counter st e) \<le> c_issued (counter st e)
     \<and> unat (c_redeemed (counter st e)) = min (2 ^ 64 - 1) (card (served st e))
     \<and> unat (c_issued (counter st e)) \<le> n"

definition counters_inv :: "u64 \<Rightarrow> sys \<Rightarrow> bool" where
  "counters_inv epoch s \<longleftrightarrow> (\<forall>e. counters_ok (sy_store s) (if e = epoch then counted_total s else 0) e)"

lemma counters_ok_mono: "counters_ok st n e \<Longrightarrow> n \<le> m \<Longrightarrow> counters_ok st m e"
  by (auto simp: counters_ok_def)

lemma counters_ok_cong:
  "counter st' e = counter st e \<Longrightarrow> served st' e = served st e \<Longrightarrow> counters_ok st' n e = counters_ok st n e"
  by (simp add: counters_ok_def)

lemma spends_bound_step:
  assumes "effect B D s s'" and "spends_bound (sy_store s)"
  shows "spends_bound (sy_store s')"
  using assms(1)
proof cases
  case (spend i h)
  then show ?thesis using assms(2) by (fastforce simp: spends_bound_def spent_store_def)
next
  case (receipt a submit)
  then show ?thesis using assms(2) by (auto simp: spends_bound_def rebalanced_def receipt_row_def Let_def)
qed (use assms(2) in \<open>auto simp: spends_bound_def rebalanced_def bumped_def trial_store_def\<close>)

lemma counter_simps [simp]:
  "counter (st\<lparr>SPENT := x1\<rparr>) = counter st" "counter (st\<lparr>HOSTS := x2\<rparr>) = counter st"
  "counter (st\<lparr>RECEIPTS := x3\<rparr>) = counter st" "counter (rebalanced a row st) = counter st"
  by (simp_all add: counter_def rebalanced_def fun_eq_iff)

lemma counter_writes:
  "counter (bumped e n st) e' = (if e' = e then (counter st e)\<lparr>c_issued := sat_add (c_issued (counter st e)) n\<rparr> else counter st e')"
  "counter (spent_store i h e st) e' = (if e' = e then redeemed_row (counter st e) else counter st e')"
  "c_issued (counter (trial_store x a cfg d st) e') = c_issued (counter st e')"
  "c_redeemed (counter (trial_store x a cfg d st) e') = c_redeemed (counter st e')"
  by (simp_all add: counter_def bumped_def spent_store_def trial_store_def)

lemma served_simps [simp]:
  "served (st\<lparr>HOSTS := x2\<rparr>) = served st" "served (st\<lparr>RECEIPTS := x3\<rparr>) = served st"
  "served (rebalanced a row st) = served st" "served (bumped e n st) = served st"
  "served (trial_store x a cfg d st) = served st"
  by (simp_all add: served_def rebalanced_def bumped_def trial_store_def fun_eq_iff)

lemma served_mark:
  "spends_bound st \<Longrightarrow> tbl_get (SPENT st) i = None \<Longrightarrow> served (st\<lparr>SPENT := tbl_insert i e (SPENT st)\<rparr>) e' = served st e'"
  by (auto simp: served_def spends_bound_def split: if_splits)

lemma served_spend:
  assumes "tbl_get (SPENT st) i = None"
  shows "served (spent_store i h e st) e' = (if e' = e then insert i (served st e) else served st e')"
    and "i \<notin> served st e"
  using assms by (auto simp: served_def spent_store_def split: if_splits)

lemma counters_ok_bumped:
  assumes "counters_ok st m e"
  shows "counters_ok (bumped e n st) (m + unat n) e"
proof -
  have "c_redeemed (counter st e) \<le> sat_add (c_issued (counter st e)) n"
    using assms order_trans [OF _ sat_add_mono, of "c_redeemed (counter st e)"] by (auto simp: counters_ok_def)
  moreover have "unat (sat_add (c_issued (counter st e)) n) \<le> m + unat n"
    using assms unat_sat_add_le [of "c_issued (counter st e)" n] by (simp add: counters_ok_def)
  ultimately show ?thesis using assms by (simp add: counters_ok_def counter_writes)
qed

lemma counters_ok_spent:
  assumes "counters_ok st m e" and "tbl_get (SPENT st) i = None"
    and "c_redeemed (redeemed_row (counter st e)) \<le> c_issued (counter st e)"
  shows "counters_ok (spent_store i h e st) m e"
proof -
  have "unat (c_redeemed (redeemed_row (counter st e))) = min (2 ^ 64 - 1) (Suc (card (served st e)))"
    using assms(1) by (simp add: counters_ok_def redeemed_row_def unat_sat_add)
  then show ?thesis
    using assms served_spend(1) [OF assms(2), of h e e] served_spend(2) [OF assms(2), of e]
    by (simp add: counters_ok_def counter_writes) (simp add: redeemed_row_def)
qed

lemma counters_step:
  assumes "effect B D s s'" and "counters_inv (ek_epoch (or_keys D)) s" and "spends_bound (sy_store s)"
  shows "counters_inv (ek_epoch (or_keys D)) s'"
proof -
  let ?bound = "\<lambda>s e. if e = ek_epoch (or_keys D) then counted_total s else 0"
  have ok: "counters_ok (sy_store s) (?bound s e) e" for e
    using assms(2) by (simp add: counters_inv_def)
  have "counters_ok (sy_store s') (?bound s' e) e" for e
    using assms(1)
  proof cases
    case idle
    then show ?thesis using ok [of e] counters_ok_mono by auto
  next
    case (count n)
    then show ?thesis
      using ok [of e] counters_ok_bumped [of "sy_store s" "counted_total s" e n]
        counters_ok_cong [of "bumped (ek_epoch (or_keys D)) n (sy_store s)" e "sy_store s"]
      by (auto simp: counter_writes)
  next
    case (credit a n row)
    then have "counter (sy_store s') = counter (sy_store s)" "served (sy_store s') = served (sy_store s)" by auto
    then show ?thesis using ok [of e] credit(4) counters_ok_cong [of "sy_store s'" e "sy_store s"] by (auto split: if_splits)
  next
    case (mark i e')
    then show ?thesis
      using ok [of e] served_mark [OF assms(3) mark(2)] counters_ok_cong [of "sy_store s'" e "sy_store s"]
      by (auto simp: same_books_def split: if_splits)
  next
    case (spend i h)
    have b: "?bound s' e = ?bound s e" using spend(4) by (simp add: same_books_def)
    show ?thesis
    proof (cases "e = cfg_epoch (bs_cfg (or_broker D))")
      case True
      then show ?thesis unfolding b spend(1) using counters_ok_spent [OF ok [of e] spend(2)] spend(3) by simp
    next
      case False
      then show ?thesis
        unfolding b spend(1) using ok [of e] counters_ok_cong served_spend(1) [OF spend(2)] by (metis counter_writes(2))
    qed
  qed (use ok [of e] in \<open>auto simp: counters_ok_def same_books_def counter_writes\<close>)
  then show ?thesis by (simp add: counters_inv_def)
qed


section \<open>Trial grants\<close>

definition trial_accounts :: "store \<Rightarrow> u64 \<Rightarrow> bytes set" where
  "trial_accounts st d = {a. tbl_get (TRIAL_ACCTS st) a = Some d}"

lemma finite_trial_accounts [simp]: "finite (trial_accounts st d)"
  by (rule finite_subset [of _ "tbl_keys (TRIAL_ACCTS st)"]) (auto simp: trial_accounts_def in_tbl_keys)

definition trial_inv :: "BrokerConfig \<Rightarrow> store \<Rightarrow> bool" where
  "trial_inv cfg st \<longleftrightarrow> (\<forall>d. spent_today st d \<le> cfg_daily_trial_budget cfg
     \<and> unat (spent_today st d) = unat (cfg_trial_grant cfg) * card (trial_accounts st d))"

lemma trial_inv_cong:
  "TRIAL_ACCTS st' = TRIAL_ACCTS st \<Longrightarrow> TRIAL_BUDGET st' = TRIAL_BUDGET st \<Longrightarrow> trial_inv cfg st' = trial_inv cfg st"
  by (simp add: trial_inv_def spent_today_def trial_accounts_def)

lemma trial_step:
  assumes "effect B D s s'" and "trial_inv (bs_cfg (or_broker D)) (sy_store s)"
    and "cfg_daily_trial_budget (bs_cfg (or_broker D)) \<noteq> - 1"
  shows "trial_inv (bs_cfg (or_broker D)) (sy_store s')"
  using assms(1)
proof cases
  case (trial account a day)
  let ?cfg = "bs_cfg (or_broker D)" and ?st = "sy_store s"
  have spent: "spent_today (sy_store s') d = (if d = day then sat_add (spent_today ?st day) (cfg_trial_grant ?cfg) else spent_today ?st d)" for d
    by (simp add: trial(1) trial_store_def spent_today_def)
  have accts: "trial_accounts (sy_store s') d = (if d = day then insert account (trial_accounts ?st day) else trial_accounts ?st d)" for d
    using trial(2) by (auto simp: trial(1) trial_store_def trial_accounts_def split: if_splits)
  have "account \<notin> trial_accounts ?st day" using trial(2) by (simp add: trial_accounts_def)
  then show ?thesis
    using assms(2) trial(3) sat_add_le_exact [OF trial(3) assms(3)] by (simp add: trial_inv_def spent accts)
next
  case (credit a n row)
  then show ?thesis using assms(2) trial_inv_cong [of "sy_store s'" "sy_store s"] by (auto simp: rebalanced_def)
qed (use assms(2) trial_inv_cong [of "sy_store s'" "sy_store s"] in \<open>simp_all add: rebalanced_def bumped_def spent_store_def\<close>)

section \<open>Hosts\<close>

text \<open>Only registration, heartbeats and eviction touch the host table.\<close>

lemma hosts_kept:
  "HOSTS (snd (redeem X (colocated keys admin now flt) body st)) = HOSTS st"
  "HOSTS (snd (admin_grant X (colocated keys admin now flt) hdr body st)) = HOSTS st"
  "HOSTS (snd (with_write flt (spend_txn i h e) st)) = HOSTS st"
  "HOSTS (snd (ingest P flt submit cfg st)) = HOSTS st"
  "HOSTS (snd (grant_trial P flt treq cfg day st)) = HOSTS st"
proof -
  have r: "HOSTS (snd (redb_spent_insert flt (ek_epoch keys) i st)) = HOSTS st" for i
    by (rule redb_spent_insert_cases [of flt "ek_epoch keys" i st]) simp_all
  show "HOSTS (snd (redeem X (colocated keys admin now flt) body st)) = HOSTS st"
    using redeem_store [of X "colocated keys admin now flt" body st] r by auto
  have g: "HOSTS (redb_grant flt a n st) = HOSTS st" for a n
    by (rule redb_grant_cases [of flt a n st]) simp_all
  show "HOSTS (snd (admin_grant X (colocated keys admin now flt) hdr body st)) = HOSTS st"
    using admin_grant_store [of X "colocated keys admin now flt" hdr body st] g by auto
  show "HOSTS (snd (with_write flt (spend_txn i h e) st)) = HOSTS st"
    by (rule spend_cases [of flt i h e st]) (simp_all add: spent_store_def)
  show "HOSTS (snd (ingest P flt submit cfg st)) = HOSTS st"
    by (rule ingest_cases [of P flt submit cfg st]) simp_all
  show "HOSTS (snd (grant_trial P flt treq cfg day st)) = HOSTS st"
    by (rule trial_cases [of P flt treq cfg day st]) (simp_all add: trial_store_def)
qed

lemma hosts_kept_task:
  assumes "issue_task_step X (colocated keys admin now flt) r t (c, st) = (t', c', st')"
  shows "HOSTS st' = HOSTS st"
  using assms by (cases rule: task_effect) (auto simp: rebalanced_def bumped_def)

definition hosts_ok :: "url_parser \<Rightarrow> BrokerConfig \<Rightarrow> u64 \<Rightarrow> (bytes \<Rightarrow> u64) \<Rightarrow> (bytes, HostRow) otable \<Rightarrow> bool" where
  "hosts_ok UP cfg now g t \<longleftrightarrow> (\<forall>h row. tbl_get t h = Some row \<longrightarrow> row_ok UP cfg now (g h) row)"

lemma hosts_ok_later: "hosts_ok UP cfg now g t \<Longrightarrow> now \<le> now' \<Longrightarrow> hosts_ok UP cfg now' g t"
  unfolding hosts_ok_def using row_ok_later by blast

lemma hosts_ok_register:
  assumes "hosts_ok UP cfg now g (HOSTS st)" and "register P UP flt req cfg now st = (res, st')"
  shows "hosts_ok UP cfg now (if res = Inr Registered then g(hr_host_account (hrr_body req) := now) else g) (HOSTS st')"
proof (rule register_cases [of P UP flt req cfg now st])
  let ?h = "hr_host_account (hrr_body req)"
  assume w: "register P UP flt req cfg now st = (Inr (if tbl_get (HOSTS st) ?h = None then Registered else Updated),
       st\<lparr>HOSTS := tbl_insert ?h (refreshed_row (hrr_body req) now (tbl_get (HOSTS st) ?h)) (HOSTS st)\<rparr>)"
    and a: "ingress_addr_ok UP (hr_ingress_addr (hrr_body req)) (cfg_allow_loopback_ingress cfg)"
  have "row_ok UP cfg now (if tbl_get (HOSTS st) ?h = None then now else g ?h)
      (refreshed_row (hrr_body req) now (tbl_get (HOSTS st) ?h))"
    using assms(1) by (intro row_ok_refreshed [OF a]) (auto simp: hosts_ok_def split: option.splits)
  then show ?thesis
    using assms w by (cases "tbl_get (HOSTS st) ?h = None") (simp_all add: hosts_ok_def, auto split: if_splits)
qed (use assms in auto)

lemma hosts_ok_heartbeat:
  assumes "hosts_ok UP cfg now g (HOSTS st)"
  shows "hosts_ok UP cfg now g (HOSTS (snd (heartbeat P f f' req now cfg st)))"
  by (rule heartbeat_cases [of P f f' req now cfg st])
    (use assms row_ok_beaten in \<open>auto simp: hosts_ok_def\<close>)

lemma hosts_ok_evict:
  assumes "hosts_ok UP cfg now g (HOSTS st)"
  shows "hosts_ok UP cfg now g (HOSTS (snd (evict_stale f now' cfg' st)))"
  by (rule evict_cases [of f now' cfg' st]) (use assms row_ok_demoted in \<open>auto simp: hosts_ok_def\<close>)

definition hosts_inv :: "broker_ext \<Rightarrow> origin \<Rightarrow> sys \<Rightarrow> bool" where
  "hosts_inv B D s = hosts_ok (bx_url B) (bs_cfg (or_broker D)) (sy_now s) (sy_registered s) (HOSTS (sy_store s))"

lemma registered_iff:
  assumes "bx_parse_register B body = Some req" and "host_register B S flt now body st = (resp, st')"
  shows "resp = OkCode ''registered'' \<longleftrightarrow> fst (register (bx_prims B) (bx_url B) flt req (bs_cfg S) now st) = Inr Registered"
  using assms by (auto simp: host_register_def split: prod.splits sum.splits RegisterOutcome.splits)

lemma hosts_step: "sys_step X B D s s' \<Longrightarrow> hosts_inv B D s \<Longrightarrow> hosts_inv B D s'"
proof (induction rule: sys_step.induct)
  case (advance i s flt r t c st)
  then show ?case using hosts_kept_task [OF advance(2)] by (simp add: hosts_inv_def)
next
  case (redeem s flt body res st)
  then show ?case
    using hosts_kept(1) [of X "or_keys D" "or_admin_secret D" "sy_now s" flt body "sy_store s"] by (simp add: hosts_inv_def)
next
  case (grant s flt hdr body res st)
  then show ?case using hosts_kept(2) [of X "or_keys D" "or_admin_secret D" "sy_now s" flt hdr body "sy_store s"] by (simp add: hosts_inv_def)
next
  case (spend body req E route T s resp T' st)
  then show ?case
    using hosts_kept(3) exec_spend_store [of B "or_broker D" E route req T "sy_store s"] by (simp add: hosts_inv_def)
next
  case (register body req flt s resp st)
  obtain res where r: "register (bx_prims B) (bx_url B) flt req (bs_cfg (or_broker D)) (sy_now s) (sy_store s) = (res, st)"
    using register(1,2) host_register_store [of B "or_broker D" flt "sy_now s" body "sy_store s"] by (metis option.simps(5) prod.collapse snd_conv)
  then show ?case
    using hosts_ok_register [OF _ r] registered_iff [OF register(1,2)] register(3) by (auto simp: hosts_inv_def)
next
  case (heartbeat flt flt' s body resp st)
  then show ?case
    using host_heartbeat_store [of B "or_broker D" flt flt' "sy_now s" body "sy_store s"] hosts_ok_heartbeat
    by (cases "bx_parse_heartbeat B body") (simp_all add: hosts_inv_def)
next
  case (receipt flt body s resp st)
  then show ?case
    using receipt_submit_store [of B "or_broker D" flt body "sy_store s"] hosts_kept(4)
    by (cases "bx_parse_receipt B body") (simp_all add: hosts_inv_def)
next
  case (trial flt s body resp st)
  then show ?case
    using trial_register_store [of B "or_broker D" flt "sy_now s" body "sy_store s"] hosts_kept(5)
    by (cases "bx_parse_trial B body") (simp_all add: hosts_inv_def)
next
  case (evict flt s resp st)
  then show ?case
    using hosts_ok_evict [of "bx_url B" "bs_cfg (or_broker D)" "sy_now s" "sy_registered s" "sy_store s" flt "sy_now s" "bs_cfg (or_broker D)"]
    by (simp add: hosts_inv_def)
next
  case (tick s now)
  then show ?case using hosts_ok_later by (simp add: hosts_inv_def)
qed (simp_all add: hosts_inv_def)

section \<open>Released signatures\<close>

fun signatures :: "issue_task \<Rightarrow> nat" where
  "signatures (Issued req resp) = length (iresp_signatures resp)"
| "signatures _ = 0"

definition released :: "sys \<Rightarrow> nat" where
  "released s = sum_list (map signatures (sy_tasks s))"

fun task_ok :: "issue_task \<Rightarrow> bool" where
  "task_ok (Holding req) = (length (ireq_blinded req) \<le> 64)"
| "task_ok (Charged req) = (length (ireq_blinded req) \<le> 64)"
| "task_ok (Observed req) = (length (ireq_blinded req) \<le> 64)"
| "task_ok (Signed req resp) = (length (iresp_signatures resp) = unat (batch_amount req))"
| "task_ok (Issued req resp) = (length (iresp_signatures resp) = unat (batch_amount req))"
| "task_ok _ = True"

lemma task_ok_step:
  assumes "issue_task_step X S r t (c, w) = (t', c', w')" and "task_ok t"
  shows "task_ok t'"
proof (cases t)
  case (Start body)
  then show ?thesis
    using assms precheck_ok(2) [of X S body] by (auto split: sum.splits prod.splits BeginOutcome.splits)
next
  case (Observed req)
  then show ?thesis
    using assms sign_batch_length [of "ix_rsa X" r "ek_secret (as_keys S)" 0 "ireq_blinded req"]
    by (auto simp: batch_amount_def unat_of_nat split: sum.splits)
qed (use assms in \<open>auto split: sum.splits prod.splits\<close>)

definition tasks_inv :: "sys \<Rightarrow> bool" where
  "tasks_inv s \<longleftrightarrow> list_all task_ok (sy_tasks s)"

lemma tasks_step: "sys_step X B D s s' \<Longrightarrow> tasks_inv s \<Longrightarrow> tasks_inv s'"
proof (induction rule: sys_step.induct)
  case (advance i s flt r t c st)
  then show ?case
    using task_ok_step [OF advance(2)] set_update_subset_insert [of "sy_tasks s" i t]
    by (auto simp: tasks_inv_def list_all_iff dest: subsetD)
next
  case (crash s)
  have "task_ok t \<Longrightarrow> task_ok (crashed t)" for t by (cases t) auto
  with crash show ?case by (simp add: tasks_inv_def list_all_iff)
qed (simp_all add: tasks_inv_def)

lemma released_le: "tasks_inv s \<Longrightarrow> released s \<le> charged_total s"
proof -
  assume "tasks_inv s"
  then have "signatures t \<le> amount_of (charged_for t)" if "t \<in> set (sy_tasks s)" for t
    using that by (cases t) (auto simp: tasks_inv_def list_all_iff amount_of_def)
  then show ?thesis unfolding released_def total_def by (rule sum_list_mono)
qed

section \<open>Invariants of the reachable states\<close>

lemma init_inv:
  "supply_inv (sys_init now)" "spends_bound (sy_store (sys_init now))" "counters_inv e (sys_init now)"
  "trial_inv cfg (sy_store (sys_init now))" "hosts_inv B D (sys_init now)" "tasks_inv (sys_init now)"
  by (simp_all add: sys_init_def empty_store_def supply_inv_def ledger_sum_def trial_sum_def receipt_count_def total_def
    spends_bound_def counters_inv_def counters_ok_def counter_def served_def CounterRow_default_def trial_inv_def
    spent_today_def trial_accounts_def hosts_inv_def hosts_ok_def tasks_inv_def)

lemma reachable_tokens:
  assumes "sys_reachable X B D s"
  shows "spends_bound (sy_store s) \<and> counters_inv (ek_epoch (or_keys D)) s"
  using assms
proof (induction rule: sys_reachable_induct)
  case (step s s')
  then show ?case using sys_step_effect counters_step spends_bound_step by blast
qed (simp add: init_inv)

lemma reachable_supply:
  assumes "sys_reachable X B D s" and "cfg_daily_trial_budget (bs_cfg (or_broker D)) \<noteq> - 1"
  shows "supply_inv s \<and> trial_inv (bs_cfg (or_broker D)) (sy_store s) \<and> tasks_inv s"
  using assms
proof (induction rule: sys_reachable_induct)
  case (step s s')
  then show ?case using sys_step_effect supply_step trial_step tasks_step by blast
qed (simp add: init_inv)

lemma reachable_hosts:
  assumes "sys_reachable X B D s"
  shows "hosts_inv B D s"
  using assms by (induction rule: sys_reachable_induct) (auto simp: init_inv dest: hosts_step)

lemma main_origin:
  assumes "broker_main P E = Inr D"
  shows "cfg_daily_trial_budget (bs_cfg (or_broker D)) = 10000" "cfg_trial_grant (bs_cfg (or_broker D)) = 20"
    and "cfg_admission_m (bs_cfg (or_broker D)) = 3" "cfg_heartbeat_interval_s (bs_cfg (or_broker D)) = 30"
    and "\<not> cfg_allow_loopback_ingress (bs_cfg (or_broker D))"
    and "ek_epoch (or_keys D) = cfg_epoch (bs_cfg (or_broker D))"
    and "bs_issuer_pk (or_broker D) = ek_public (or_keys D)"
    and "bs_admin_secret (or_broker D) = or_admin_secret D"
  using assms
  by (auto simp: broker_main_def bind_sum_def Let_def BrokerState_new_def BrokerConfig_default_def
    split: sum.splits if_splits)

end
