(* ===== verification/Market.thy ===== *)
theory Market
  imports Broker_System
begin

text \<open>
  What the co-located origin promises, without tables, transactions, faults, tasks
  or machine integers: a market in which credits buy tokens, a token is spent once
  and with one host, and a served token pays its host once. Every step of the
  origin is one step of the market, so what holds of the market holds of the code.
\<close>

section \<open>The abstract market\<close>

record market =
  mk_balance :: "AccountId \<Rightarrow> nat"
  mk_bought :: nat
  mk_minted :: nat
  mk_spent :: "SpendId set"
  mk_served :: "SpendId \<rightharpoonup> bytes"
  mk_paid :: "SpendId set"
  mk_trials :: "bytes set"

definition market_empty :: market where
  "market_empty = \<lparr>mk_balance = (\<lambda>_. 0), mk_bought = 0, mk_minted = 0, mk_spent = {}, mk_served = Map.empty,
     mk_paid = {}, mk_trials = {}\<rparr>"

definition add_credit :: "AccountId \<Rightarrow> nat \<Rightarrow> market \<Rightarrow> market" where
  "add_credit a k m = m\<lparr>mk_balance := (mk_balance m)(a := mk_balance m a + k)\<rparr>"

text \<open>
  \<open>fp\<close> is the account of a host or trial key, \<open>g\<close> the trial grant. A credit may
  arrive short (\<open>k \<le> n\<close>: a balance saturates, a refund is lost), never in excess.
\<close>

inductive market_step :: "(bytes \<Rightarrow> AccountId) \<Rightarrow> nat \<Rightarrow> market \<Rightarrow> market \<Rightarrow> bool"
  for fp :: "bytes \<Rightarrow> AccountId" and g :: nat and m :: market where
  skip: "market_step fp g m m"
| mint: "k \<le> n \<Longrightarrow> market_step fp g m (add_credit a k (m\<lparr>mk_minted := mk_minted m + n\<rparr>))"
| buy: "n \<le> mk_balance m a \<Longrightarrow>
    market_step fp g m (m\<lparr>mk_balance := (mk_balance m)(a := mk_balance m a - n), mk_bought := mk_bought m + n\<rparr>)"
| refund: "k \<le> n \<Longrightarrow> n \<le> mk_bought m \<Longrightarrow>
    market_step fp g m (add_credit a k (m\<lparr>mk_bought := mk_bought m - n\<rparr>))"
| retire: "i \<notin> mk_spent m \<Longrightarrow> market_step fp g m (m\<lparr>mk_spent := insert i (mk_spent m)\<rparr>)"
| serve: "i \<notin> mk_spent m \<Longrightarrow>
    market_step fp g m (m\<lparr>mk_spent := insert i (mk_spent m), mk_served := (mk_served m)(i \<mapsto> h)\<rparr>)"
| pay: "mk_served m i = Some h \<Longrightarrow> i \<notin> mk_paid m \<Longrightarrow> k \<le> 1 \<Longrightarrow>
    market_step fp g m (add_credit (fp h) k (m\<lparr>mk_paid := insert i (mk_paid m)\<rparr>))"
| trial: "x \<notin> mk_trials m \<Longrightarrow> k \<le> g \<Longrightarrow>
    market_step fp g m (add_credit (fp x) k (m\<lparr>mk_trials := insert x (mk_trials m)\<rparr>))"

text \<open>What any market keeps: payment follows service, service spends, and credits have a source.\<close>

definition market_ok :: "nat \<Rightarrow> market \<Rightarrow> bool" where
  "market_ok g m \<longleftrightarrow> mk_paid m \<subseteq> dom (mk_served m) \<and> dom (mk_served m) \<subseteq> mk_spent m
     \<and> finite (mk_paid m) \<and> finite (mk_trials m)
     \<and> (\<forall>A. finite A \<longrightarrow> (\<Sum>a\<in>A. mk_balance m a) + mk_bought m \<le> mk_minted m + g * card (mk_trials m) + card (mk_paid m))"

lemma sum_fun_upd: "finite A \<Longrightarrow> (\<Sum>a\<in>A. (f(b := v)) a) + (if b \<in> A then f b else 0) = (\<Sum>a\<in>A. f a) + (if b \<in> A then v else (0::nat))"
  by (induction A rule: finite_induct) (auto simp: sum.remove split: if_splits)

lemma add_credit_sum: "finite A \<Longrightarrow> (\<Sum>a\<in>A. mk_balance (add_credit b k m) a) \<le> (\<Sum>a\<in>A. mk_balance m a) + k"
  using sum_fun_upd [of A "mk_balance m" b "mk_balance m b + k"] by (auto simp: add_credit_def split: if_splits)

lemma add_credit_simps [simp]:
  "mk_bought (add_credit a k m) = mk_bought m" "mk_minted (add_credit a k m) = mk_minted m"
  "mk_spent (add_credit a k m) = mk_spent m" "mk_served (add_credit a k m) = mk_served m"
  "mk_paid (add_credit a k m) = mk_paid m" "mk_trials (add_credit a k m) = mk_trials m"
  by (simp_all add: add_credit_def)

lemma market_okI:
  assumes "mk_paid m \<subseteq> dom (mk_served m)" and "dom (mk_served m) \<subseteq> mk_spent m" and "finite (mk_paid m)" and "finite (mk_trials m)"
    and "\<And>A. finite A \<Longrightarrow> (\<Sum>a\<in>A. mk_balance m a) + mk_bought m \<le> mk_minted m + g * card (mk_trials m) + card (mk_paid m)"
  shows "market_ok g m"
  using assms by (simp add: market_ok_def)

lemma market_okD:
  assumes "market_ok g m"
  shows "mk_paid m \<subseteq> dom (mk_served m)" and "dom (mk_served m) \<subseteq> mk_spent m" and "finite (mk_paid m)" and "finite (mk_trials m)"
    and "finite A \<Longrightarrow> (\<Sum>a\<in>A. mk_balance m a) + mk_bought m \<le> mk_minted m + g * card (mk_trials m) + card (mk_paid m)"
  using assms by (simp_all add: market_ok_def)

lemma market_ok_credit:
  assumes "market_ok g m" and "mk_balance m' = mk_balance m" and "mk_paid m' \<subseteq> dom (mk_served m')" "dom (mk_served m') \<subseteq> mk_spent m'"
    and "finite (mk_paid m')" "finite (mk_trials m')"
    and "k + mk_bought m' + (mk_minted m + g * card (mk_trials m) + card (mk_paid m))
      \<le> mk_bought m + (mk_minted m' + g * card (mk_trials m') + card (mk_paid m'))"
  shows "market_ok g (add_credit a k m')"
proof (rule market_okI)
  fix A :: "bytes set"
  assume A: "finite A"
  show "(\<Sum>x\<in>A. mk_balance (add_credit a k m') x) + mk_bought (add_credit a k m')
    \<le> mk_minted (add_credit a k m') + g * card (mk_trials (add_credit a k m')) + card (mk_paid (add_credit a k m'))"
    using add_credit_sum [OF A, of a k m'] market_okD(5) [OF assms(1) A] assms(2,7) by simp
qed (use assms in simp_all)

lemma market_step_ok: "market_step fp g m m' \<Longrightarrow> market_ok g m \<Longrightarrow> market_ok g m'"
proof (induction rule: market_step.induct)
  case (buy n a)
  show ?case
  proof (rule market_okI)
    fix A :: "bytes set"
    assume A: "finite A"
    show "(\<Sum>x\<in>A. mk_balance (m\<lparr>mk_balance := (mk_balance m)(a := mk_balance m a - n), mk_bought := mk_bought m + n\<rparr>) x)
        + mk_bought (m\<lparr>mk_balance := (mk_balance m)(a := mk_balance m a - n), mk_bought := mk_bought m + n\<rparr>)
      \<le> mk_minted (m\<lparr>mk_balance := (mk_balance m)(a := mk_balance m a - n), mk_bought := mk_bought m + n\<rparr>)
        + g * card (mk_trials (m\<lparr>mk_balance := (mk_balance m)(a := mk_balance m a - n), mk_bought := mk_bought m + n\<rparr>))
        + card (mk_paid (m\<lparr>mk_balance := (mk_balance m)(a := mk_balance m a - n), mk_bought := mk_bought m + n\<rparr>))"
      using sum_fun_upd [OF A, of "mk_balance m" a "mk_balance m a - n"] buy(1) A
        market_okD(5) [OF buy(2), of "insert a A"]
      by (auto simp: insert_absorb split: if_splits)
  qed (use market_okD(1-4) [OF buy(2)] in simp_all)
next
  case (mint k n a)
  show ?case
    by (rule market_ok_credit [OF mint(2)]) (use market_okD(1-4) [OF mint(2)] mint(1-1) in simp_all)
next
  case (refund k n a)
  show ?case
    by (rule market_ok_credit [OF refund(3)]) (use market_okD(1-4) [OF refund(3)] refund(1-2) in simp_all)
next
  case (pay i h k)
  show ?case
    by (rule market_ok_credit [OF pay(4)]) (use market_okD(1-4) [OF pay(4)] pay(1-3) in auto)
next
  case (trial x k)
  show ?case
    by (rule market_ok_credit [OF trial(3)]) (use market_okD(1-4) [OF trial(3)] trial(1-2) in auto)
qed (auto simp: market_ok_def)

lemma market_empty_ok: "market_ok g market_empty"
  by (simp add: market_ok_def market_empty_def)

lemma market_reachable_ok: "(market_step fp g)\<^sup>*\<^sup>* market_empty m \<Longrightarrow> market_ok g m"
  by (induction rule: rtranclp_induct) (simp_all add: market_empty_ok market_step_ok)

section \<open>The origin as a market\<close>

definition market_of :: "sys \<Rightarrow> market" where
  "market_of s =
     \<lparr>mk_balance = (\<lambda>a. unat (balance_of (sy_store s) a)), mk_bought = charged_total s, mk_minted = sy_granted s,
      mk_spent = tbl_keys (SPENT (sy_store s)), mk_served = tbl_get (SPEND_HOST (sy_store s)),
      mk_paid = tbl_keys (RECEIPTS (sy_store s)), mk_trials = tbl_keys (TRIAL_ACCTS (sy_store s))\<rparr>"

lemma market_of_init: "market_of (sys_init now) = market_empty"
  by (auto simp: market_of_def market_empty_def sys_init_def empty_store_def balance_of_def ledger_row_def
      LedgerRow_default_def total_def)

lemma balance_rebalanced: "balance_of (rebalanced b row st) = (balance_of st)(b := l_balance row)"
  by (auto simp: rebalanced_def balance_of_def ledger_row_def fun_eq_iff)

text \<open>An increase the code computes with saturation is at most the amount.\<close>

lemma market_credit:
  assumes "balance_of (sy_store s') = (balance_of (sy_store s))(a := sat_add (balance_of (sy_store s) a) n)"
  obtains k where "k \<le> unat n" "mk_balance (market_of s') = mk_balance (add_credit a k (market_of s))"
proof
  let ?b = "balance_of (sy_store s) a"
  show "unat (sat_add ?b n) - unat ?b \<le> unat n" using unat_sat_add_le [of ?b n] by simp
  show "mk_balance (market_of s') = mk_balance (add_credit a (unat (sat_add ?b n) - unat ?b) (market_of s))"
    using assms sat_add_mono [of ?b n] by (auto simp: market_of_def add_credit_def word_le_nat_alt)
qed

abbreviation origin_market :: "broker_ext \<Rightarrow> origin \<Rightarrow> market \<Rightarrow> market \<Rightarrow> bool" where
  "origin_market B D \<equiv> market_step (account_fingerprint (bx_prims B)) (unat (cfg_trial_grant (bs_cfg (or_broker D))))"

lemma credited_balance:
  assumes "sy_store s' = sy_store s \<or> sy_store s' = rebalanced a row (sy_store s)"
    and "l_balance row = sat_add (balance_of (sy_store s) a) n"
  obtains k where "k \<le> unat n" "mk_balance (market_of s') = mk_balance (add_credit a k (market_of s))"
  using assms(1)
proof
  assume "sy_store s' = sy_store s"
  then show thesis by (intro that [of 0]) (auto simp: market_of_def add_credit_def)
next
  assume "sy_store s' = rebalanced a row (sy_store s)"
  then have "balance_of (sy_store s') = (balance_of (sy_store s))(a := sat_add (balance_of (sy_store s) a) n)"
    by (simp add: balance_rebalanced assms(2))
  then show thesis by (rule market_credit) (rule that)
qed

lemma credit_market:
  assumes "sy_store s' = sy_store s \<or> sy_store s' = rebalanced a row (sy_store s)"
    and "l_balance row = sat_add (balance_of (sy_store s) a) n"
    and "charged_total s' + unat n + sy_granted s = charged_total s + sy_granted s'"
    and "charged_total s' = charged_total s \<or> sy_granted s' = sy_granted s"
  shows "origin_market B D (market_of s) (market_of s')"
proof -
  obtain k where k: "k \<le> unat n" "mk_balance (market_of s') = mk_balance (add_credit a k (market_of s))"
    by (rule credited_balance [OF assms(1,2)])
  have rest: "SPENT (sy_store s') = SPENT (sy_store s)" "SPEND_HOST (sy_store s') = SPEND_HOST (sy_store s)"
    "RECEIPTS (sy_store s') = RECEIPTS (sy_store s)" "TRIAL_ACCTS (sy_store s') = TRIAL_ACCTS (sy_store s)"
    using assms(1) by (auto simp: rebalanced_def)
  from assms(4) show ?thesis
  proof
    assume "charged_total s' = charged_total s"
    with assms(3) have "market_of s' = add_credit a k ((market_of s)\<lparr>mk_minted := mk_minted (market_of s) + unat n\<rparr>)"
      using k(2) rest by (simp add: market_of_def add_credit_def)
    then show ?thesis by (simp only: market_step.mint [OF k(1)])
  next
    assume g: "sy_granted s' = sy_granted s"
    with assms(3) have n: "charged_total s' = charged_total s - unat n" "unat n \<le> mk_bought (market_of s)"
      by (simp_all add: market_of_def)
    then have "market_of s' = add_credit a k ((market_of s)\<lparr>mk_bought := mk_bought (market_of s) - unat n\<rparr>)"
      using k(2) rest g by (simp add: market_of_def add_credit_def)
    then show ?thesis by (simp only: market_step.refund [OF k(1) n(2)])
  qed
qed

lemma receipt_market:
  assumes "a = account_fingerprint (bx_prims B) h"
    and "sy_store s' = rebalanced a (credit_row 1 (ledger_row (sy_store s) a)) ((sy_store s)\<lparr>RECEIPTS := tbl_insert i row (RECEIPTS (sy_store s))\<rparr>)"
    and "tbl_get (SPEND_HOST (sy_store s)) i = Some h" and "tbl_get (RECEIPTS (sy_store s)) i = None" and "same_books s s'"
  shows "origin_market B D (market_of s) (market_of s')"
proof -
  have "balance_of (sy_store s') = (balance_of (sy_store s))(a := sat_add (balance_of (sy_store s) a) 1)"
    by (simp add: assms(2) balance_rebalanced credit_row_def) (simp add: balance_of_def ledger_row_def fun_eq_iff)
  then obtain k where k: "k \<le> unat (1 :: u64)" "mk_balance (market_of s') = mk_balance (add_credit a k (market_of s))"
    by (rule market_credit)
  have "market_of s' = add_credit a k ((market_of s)\<lparr>mk_paid := insert i (mk_paid (market_of s))\<rparr>)"
    using k(2) assms(2,5) by (simp add: market_of_def add_credit_def same_books_def rebalanced_def)
  moreover have "mk_served (market_of s) i = Some h" "i \<notin> mk_paid (market_of s)" "k \<le> 1"
    using assms(3,4) k(1) by (simp_all add: market_of_def in_tbl_keys)
  from market_step.pay [OF this, of "account_fingerprint (bx_prims B)"]
  have "origin_market B D (market_of s) (add_credit a k ((market_of s)\<lparr>mk_paid := insert i (mk_paid (market_of s))\<rparr>))"
    by (simp only: assms(1))
  ultimately show ?thesis by (simp only:)
qed

lemma trial_market:
  assumes "sy_store s' = trial_store x a (bs_cfg (or_broker D)) day (sy_store s)"
    and "tbl_get (TRIAL_ACCTS (sy_store s)) x = None" and "same_books s s'" and "a = account_fingerprint (bx_prims B) x"
  shows "origin_market B D (market_of s) (market_of s')"
proof -
  let ?g = "cfg_trial_grant (bs_cfg (or_broker D))"
  have "balance_of (sy_store s') = (balance_of (sy_store s))(a := sat_add (balance_of (sy_store s) a) ?g)"
    by (simp add: assms(1) trial_store_def balance_of_def ledger_row_def credit_row_def fun_eq_iff)
  then obtain k where k: "k \<le> unat ?g" "mk_balance (market_of s') = mk_balance (add_credit a k (market_of s))"
    by (rule market_credit)
  have "market_of s' = add_credit a k ((market_of s)\<lparr>mk_trials := insert x (mk_trials (market_of s))\<rparr>)"
    using k(2) assms(1,3) by (simp add: market_of_def add_credit_def same_books_def trial_store_def)
  moreover have "x \<notin> mk_trials (market_of s)" using assms(2) by (simp add: market_of_def in_tbl_keys)
  from market_step.trial [OF this k(1), of "account_fingerprint (bx_prims B)"]
  have "origin_market B D (market_of s) (add_credit a k ((market_of s)\<lparr>mk_trials := insert x (mk_trials (market_of s))\<rparr>))"
    by (simp only: assms(4))
  ultimately show ?thesis by (simp only:)
qed

lemma effect_market:
  assumes "effect B D s s'"
  shows "origin_market B D (market_of s) (market_of s')"
  using assms
proof cases
  case idle
  have "market_of s' = add_credit [] 0 ((market_of s)\<lparr>mk_minted := mk_minted (market_of s) + (sy_granted s' - sy_granted s)\<rparr>)"
    using idle by (auto simp: market_of_def add_credit_def)
  then show ?thesis using market_step.mint [of 0 "sy_granted s' - sy_granted s"] by simp
next
  case (debit a n row)
  have "market_of s' = (market_of s)\<lparr>mk_balance := (mk_balance (market_of s))(a := mk_balance (market_of s) a - unat n),
      mk_bought := mk_bought (market_of s) + unat n\<rparr>"
    using debit by (auto simp: market_of_def balance_rebalanced rebalanced_def unat_sub)
  then show ?thesis
    using market_step.buy [of "unat n" "market_of s" a] debit(2) by (simp add: market_of_def word_le_nat_alt)
next
  case (count n)
  have "market_of s' = market_of s"
    using count by (simp add: market_of_def bumped_def balance_of_def ledger_row_def)
  then show ?thesis using market_step.skip by metis
next
  case (mark i e)
  have "market_of s' = (market_of s)\<lparr>mk_spent := insert i (mk_spent (market_of s))\<rparr>"
    using mark by (simp add: market_of_def same_books_def balance_of_def ledger_row_def)
  then show ?thesis using market_step.retire [of i "market_of s"] mark(2) by (simp add: market_of_def in_tbl_keys)
next
  case (spend i h)
  have "market_of s' = (market_of s)\<lparr>mk_spent := insert i (mk_spent (market_of s)), mk_served := (mk_served (market_of s))(i \<mapsto> h)\<rparr>"
    using spend by (auto simp: market_of_def same_books_def spent_store_def balance_of_def ledger_row_def)
  then show ?thesis using market_step.serve [of i "market_of s"] spend(2) by (simp add: market_of_def in_tbl_keys)
next
  case (hosts h)
  have "market_of s' = market_of s"
    using hosts by (simp add: market_of_def same_books_def balance_of_def ledger_row_def)
  then show ?thesis using market_step.skip by metis
next
  case (credit a n row)
  then show ?thesis by (intro credit_market)
next
  case (receipt a submit)
  then show ?thesis by (intro receipt_market)
next
  case (trial account a day)
  then show ?thesis by (intro trial_market)
qed

lemma sys_step_market: "sys_step X B D s s' \<Longrightarrow> origin_market B D (market_of s) (market_of s')"
  by (intro effect_market sys_step_effect)

lemma reachable_market:
  assumes "sys_reachable X B D s"
  shows "(origin_market B D)\<^sup>*\<^sup>* market_empty (market_of s)"
  using assms
proof (induction rule: sys_reachable_induct)
  case (step s s')
  then show ?case using sys_step_market by (blast intro: rtranclp.rtrancl_into_rtrancl)
qed (simp add: market_of_init)

end
