(* ===== verification/Crypto_Channel.thy ===== *)
theory Crypto_Channel
  imports Crypto_Account
begin

text \<open>
  \<open>lluma-crypto/src/e2e.rs\<close> and \<open>lluma-crypto/src/ohttp.rs\<close>: the
  inner end-to-end HPKE layer with its streamed response, and the outer
  Oblivious HTTP encapsulation. The HPKE and OHTTP libraries are the fields of
  \<open>hpke_prims\<close> and \<open>ohttp_prims\<close>; a context of theirs is a value of
  the parameter types, threaded where the library mutates it and consumed
  where the library takes it by value. Keys are their byte strings and the
  random bytes a call draws are its argument \<open>r\<close>.
\<close>

section \<open>The HPKE layer\<close>

record ('cs, 'cr) hpke_prims =
  kem_gen_keypair :: "bytes \<Rightarrow> bytes \<times> bytes"
  kem_pk_from_bytes :: "bytes \<Rightarrow> string + bytes"
  kem_sk_from_bytes :: "bytes \<Rightarrow> string + bytes"
  kem_enc_from_bytes :: "bytes \<Rightarrow> string + bytes"
  kem_enc_size :: nat
  hpke_setup_sender :: "bytes \<Rightarrow> bytes \<Rightarrow> bytes \<Rightarrow> string + (bytes \<times> 'cs)"
  hpke_setup_receiver :: "bytes \<Rightarrow> bytes \<Rightarrow> bytes \<Rightarrow> string + 'cr"
  hpke_seal :: "bytes \<Rightarrow> bytes \<Rightarrow> 'cs \<Rightarrow> (string + bytes) \<times> 'cs"
  hpke_open :: "bytes \<Rightarrow> bytes \<Rightarrow> 'cr \<Rightarrow> (string + bytes) \<times> 'cr"

definition INFO :: bytes where
  "INFO = ascii ''lluma/e2e/v1''"

definition RESP_INFO :: bytes where
  "RESP_INFO = ascii ''lluma/e2e/response/v1''"

definition host_keygen :: "('cs, 'cr) hpke_prims \<Rightarrow> bytes \<Rightarrow> CryptoError + (HostSecretKey \<times> HostPublicKey)" where
  "host_keygen H r = (let (sk, pk) = kem_gen_keypair H r in Inr (sk, pk))"

definition session_keygen ::
  "('cs, 'cr) hpke_prims \<Rightarrow> bytes \<Rightarrow> CryptoError + (SessionSecretKey \<times> SessionPublicKey)" where
  "session_keygen H r = (let (sk, pk) = kem_gen_keypair H r in Inr (sk, pk))"

definition kem_pk :: "('cs, 'cr) hpke_prims \<Rightarrow> bytes \<Rightarrow> CryptoError + bytes" where
  "kem_pk H b = (case kem_pk_from_bytes H b of Inl e \<Rightarrow> Inl (Hpke e) | Inr k \<Rightarrow> Inr k)"

definition kem_sk :: "('cs, 'cr) hpke_prims \<Rightarrow> bytes \<Rightarrow> CryptoError + bytes" where
  "kem_sk H b = (case kem_sk_from_bytes H b of Inl e \<Rightarrow> Inl (Hpke e) | Inr k \<Rightarrow> Inr k)"

definition e2e_seal ::
  "('cs, 'cr) hpke_prims \<Rightarrow> bytes \<Rightarrow> HostPublicKey \<Rightarrow> bytes \<Rightarrow> bytes \<Rightarrow> SessionPublicKey \<Rightarrow>
   CryptoError + SealedRequest" where
  "e2e_seal H r host_pk aad prompt reply_to =
     (if length reply_to \<noteq> 32 then Inl (Hpke ''session public key must be 32 bytes'')
      else case kem_pk H host_pk of Inl e \<Rightarrow> Inl e
        | Inr pk \<Rightarrow>
            (case hpke_setup_sender H r pk INFO of Inl e \<Rightarrow> Inl (Hpke e)
             | Inr (enc, ctx) \<Rightarrow>
                 (case fst (hpke_seal H (reply_to @ prompt) aad ctx) of
                    Inl e \<Rightarrow> Inl (Hpke e)
                  | Inr ct \<Rightarrow> Inr (enc @ ct))))"

definition e2e_open ::
  "('cs, 'cr) hpke_prims \<Rightarrow> HostSecretKey \<Rightarrow> bytes \<Rightarrow> SealedRequest \<Rightarrow>
   CryptoError + (bytes \<times> SessionPublicKey)" where
  "e2e_open H host_sk aad sealed =
     (let enc_len = kem_enc_size H in
      if length sealed < enc_len + 32 then Inl AuthFailed
      else case kem_enc_from_bytes H (take enc_len sealed) of Inl e \<Rightarrow> Inl (Hpke e)
        | Inr enc \<Rightarrow>
            (case kem_sk H host_sk of Inl e \<Rightarrow> Inl e
             | Inr sk \<Rightarrow>
                 (case hpke_setup_receiver H sk enc INFO of Inl e \<Rightarrow> Inl (Hpke e)
                  | Inr ctx \<Rightarrow>
                      (case fst (hpke_open H (drop enc_len sealed) aad ctx) of
                         Inl _ \<Rightarrow> Inl AuthFailed
                       | Inr pt \<Rightarrow>
                           if length pt < 32 then Inl AuthFailed
                           else Inr (drop 32 pt, take 32 pt)))))"

definition response_setup_host ::
  "('cs, 'cr) hpke_prims \<Rightarrow> bytes \<Rightarrow> SessionPublicKey \<Rightarrow> CryptoError + ('cs \<times> ResponsePreamble)" where
  "response_setup_host H r reply_to =
     (case kem_pk H reply_to of Inl e \<Rightarrow> Inl e
      | Inr pk \<Rightarrow>
          (case hpke_setup_sender H r pk RESP_INFO of Inl e \<Rightarrow> Inl (Hpke e)
           | Inr (enc, ctx) \<Rightarrow> Inr (ctx, enc)))"

definition response_setup_client ::
  "('cs, 'cr) hpke_prims \<Rightarrow> SessionSecretKey \<Rightarrow> ResponsePreamble \<Rightarrow> CryptoError + 'cr" where
  "response_setup_client H session_sk preamble =
     (case kem_enc_from_bytes H preamble of Inl e \<Rightarrow> Inl (Hpke e)
      | Inr enc \<Rightarrow>
          (case kem_sk H session_sk of Inl e \<Rightarrow> Inl e
           | Inr sk \<Rightarrow>
               (case hpke_setup_receiver H sk enc RESP_INFO of Inl e \<Rightarrow> Inl (Hpke e)
                | Inr ctx \<Rightarrow> Inr ctx)))"

text \<open>\<open>last as u8\<close>.\<close>

definition flag_byte :: "bool \<Rightarrow> u8" where
  "flag_byte is_last = (if is_last then 1 else 0)"

definition response_seal_chunk ::
  "('cs, 'cr) hpke_prims \<Rightarrow> bytes \<Rightarrow> bool \<Rightarrow> 'cs \<Rightarrow> (CryptoError + bytes) \<times> 'cs" where
  "response_seal_chunk H chunk is_last ctx =
     (case hpke_seal H chunk [flag_byte is_last] ctx of
        (Inl e, ctx') \<Rightarrow> (Inl (Hpke e), ctx')
      | (Inr ct, ctx') \<Rightarrow> (Inr (flag_byte is_last # ct), ctx'))"

definition response_open_chunk ::
  "('cs, 'cr) hpke_prims \<Rightarrow> bytes \<Rightarrow> 'cr \<Rightarrow> (CryptoError + (bytes \<times> bool)) \<times> 'cr" where
  "response_open_chunk H chunk ctx =
     (case chunk of [] \<Rightarrow> (Inl Truncated, ctx)
      | flag # ct \<Rightarrow>
          (case hpke_open H ct [flag] ctx of
             (Inl _, ctx') \<Rightarrow> (Inl ChunkOrder, ctx')
           | (Inr pt, ctx') \<Rightarrow> (Inr (pt, flag = 1), ctx')))"

section \<open>The OHTTP layer\<close>

type_synonym GatewaySecretKey = bytes

datatype OhttpLibError = OTruncated | OAead string | OHpke string | OOther string

record ('k, 'co, 'so) ohttp_prims =
  oh_derive :: "u8 \<Rightarrow> bytes \<Rightarrow> string + 'k"
  oh_encode :: "'k \<Rightarrow> string + bytes"
  oh_server_new :: "'k \<Rightarrow> string + 'k"
  oh_from_encoded_config :: "bytes \<Rightarrow> string + bytes"
  oh_encapsulate :: "bytes \<Rightarrow> bytes \<Rightarrow> bytes \<Rightarrow> string + (bytes \<times> 'co)"
  oh_decapsulate :: "'k \<Rightarrow> bytes \<Rightarrow> OhttpLibError + (bytes \<times> 'so)"
  oh_resp_encapsulate :: "bytes \<Rightarrow> 'so \<Rightarrow> bytes \<Rightarrow> OhttpLibError + bytes"
  oh_resp_decapsulate :: "'co \<Rightarrow> bytes \<Rightarrow> OhttpLibError + bytes"
  oh_error_text :: "OhttpLibError \<Rightarrow> string"

definition IKM_LEN :: nat where
  "IKM_LEN = 32"

definition map_ohttp_err :: "('k, 'co, 'so) ohttp_prims \<Rightarrow> OhttpLibError \<Rightarrow> CryptoError" where
  "map_ohttp_err Q e =
     (case e of OTruncated \<Rightarrow> Truncated | OAead _ \<Rightarrow> AuthFailed | OHpke _ \<Rightarrow> AuthFailed
      | OOther _ \<Rightarrow> Ohttp (oh_error_text Q e))"

text \<open>\<open>ikm\<close> is the 32 bytes the RNG fills.\<close>

definition ohttp_keygen ::
  "('k, 'co, 'so) ohttp_prims \<Rightarrow> bytes \<Rightarrow> u8 \<Rightarrow> CryptoError + (GatewaySecretKey \<times> OhttpKeyConfig)" where
  "ohttp_keygen Q ikm key_id =
     (case oh_derive Q key_id ikm of Inl e \<Rightarrow> Inl (Ohttp e)
      | Inr cfg \<Rightarrow>
          (case oh_encode Q cfg of Inl e \<Rightarrow> Inl (Ohttp e)
           | Inr public \<Rightarrow> Inr (key_id # ikm, public)))"

definition ohttp_public_from_secret ::
  "('k, 'co, 'so) ohttp_prims \<Rightarrow> GatewaySecretKey \<Rightarrow> CryptoError + OhttpKeyConfig" where
  "ohttp_public_from_secret Q b =
     (if length b \<noteq> 1 + IKM_LEN then Inl Truncated
      else case oh_derive Q (b ! 0) (subslice 1 (1 + IKM_LEN) b) of Inl e \<Rightarrow> Inl (Ohttp e)
        | Inr cfg \<Rightarrow>
            (case oh_encode Q cfg of Inl e \<Rightarrow> Inl (Ohttp e) | Inr public \<Rightarrow> Inr public))"

text \<open>A response context is \<open>Some\<close> until its one use takes it.\<close>

definition ohttp_encapsulate ::
  "('k, 'co, 'so) ohttp_prims \<Rightarrow> bytes \<Rightarrow> OhttpKeyConfig \<Rightarrow> bytes \<Rightarrow>
   CryptoError + (EncapsulatedRequest \<times> 'co option)" where
  "ohttp_encapsulate Q r cfg request =
     (case oh_from_encoded_config Q cfg of Inl e \<Rightarrow> Inl (Ohttp e)
      | Inr client \<Rightarrow>
          (case oh_encapsulate Q r client request of Inl e \<Rightarrow> Inl (Ohttp e)
           | Inr (capsule, response_ctx) \<Rightarrow> Inr (capsule, Some response_ctx)))"

definition ohttp_decapsulate ::
  "('k, 'co, 'so) ohttp_prims \<Rightarrow> GatewaySecretKey \<Rightarrow> EncapsulatedRequest \<Rightarrow>
   CryptoError + (bytes \<times> 'so option)" where
  "ohttp_decapsulate Q b capsule =
     (if length b < 1 + IKM_LEN then Inl Truncated
      else case oh_derive Q (b ! 0) (subslice 1 (1 + IKM_LEN) b) of Inl e \<Rightarrow> Inl (Ohttp e)
        | Inr cfg \<Rightarrow>
            (case oh_server_new Q cfg of Inl e \<Rightarrow> Inl (Ohttp e)
             | Inr server \<Rightarrow>
                 (case oh_decapsulate Q server capsule of Inl e \<Rightarrow> Inl (map_ohttp_err Q e)
                  | Inr (inner, server_response) \<Rightarrow> Inr (inner, Some server_response))))"

definition ohttp_seal_chunk ::
  "('k, 'co, 'so) ohttp_prims \<Rightarrow> bytes \<Rightarrow> bytes \<Rightarrow> bool \<Rightarrow> 'so option \<Rightarrow> (CryptoError + bytes) \<times> 'so option" where
  "ohttp_seal_chunk Q r chunk is_last ctx =
     (case ctx of None \<Rightarrow> (Inl (Ohttp ''response already sealed''), None)
      | Some sr \<Rightarrow>
          (case oh_resp_encapsulate Q r sr (flag_byte is_last # chunk) of
             Inl e \<Rightarrow> (Inl (map_ohttp_err Q e), None)
           | Inr ct \<Rightarrow> (Inr ct, None)))"

definition ohttp_open_chunk ::
  "('k, 'co, 'so) ohttp_prims \<Rightarrow> bytes \<Rightarrow> 'co option \<Rightarrow> (CryptoError + (bytes \<times> bool)) \<times> 'co option" where
  "ohttp_open_chunk Q chunk ctx =
     (case ctx of None \<Rightarrow> (Inl (Ohttp ''response already opened''), None)
      | Some cr \<Rightarrow>
          (case oh_resp_decapsulate Q cr chunk of
             Inl e \<Rightarrow> (Inl (map_ohttp_err Q e), None)
           | Inr framed \<Rightarrow>
               (case framed of [] \<Rightarrow> (Inl Truncated, None)
                | flag # rest \<Rightarrow> (Inr (rest, flag = 1), None))))"

section \<open>What the libraries promise\<close>

text \<open>
  RFC 9180 for an HPKE suite with 32-byte public keys, as used in base mode:
  generated keys parse; the receiver built from the encapsulated key is linked
  to the sender, and a linked receiver opens what its sender seals, in order,
  both then staying linked. \<open>linked\<close> is the relation of the two ends.
\<close>

definition hpke_correct :: "('cs, 'cr) hpke_prims \<Rightarrow> ('cs \<Rightarrow> 'cr \<Rightarrow> bool) \<Rightarrow> bool" where
  "hpke_correct H linked \<longleftrightarrow>
     (\<forall>r sk pk. kem_gen_keypair H r = (sk, pk) \<longrightarrow>
        length pk = 32 \<and> kem_pk_from_bytes H pk = Inr pk \<and> kem_sk_from_bytes H sk = Inr sk)
     \<and> (\<forall>r sk pk r' info enc cs.
          kem_gen_keypair H r = (sk, pk) \<and> hpke_setup_sender H r' pk info = Inr (enc, cs) \<longrightarrow>
          length enc = kem_enc_size H \<and> kem_enc_from_bytes H enc = Inr enc
          \<and> (\<exists>cr. hpke_setup_receiver H sk enc info = Inr cr \<and> linked cs cr))
     \<and> (\<forall>pt aad cs cr ct cs'. linked cs cr \<and> hpke_seal H pt aad cs = (Inr ct, cs') \<longrightarrow>
          length pt \<le> length ct
          \<and> (\<exists>cr'. hpke_open H ct aad cr = (Inr pt, cr') \<and> linked cs' cr'))"

text \<open>The ciphertexts a sender makes of a list of messages, and the receiver after opening some.\<close>

fun hpke_seals :: "('cs, 'cr) hpke_prims \<Rightarrow> (bytes \<times> bytes) list \<Rightarrow> 'cs \<Rightarrow> bytes list option" where
  "hpke_seals H [] cs = Some []"
| "hpke_seals H ((p, a) # ms) cs =
     (case hpke_seal H p a cs of (Inl _, _) \<Rightarrow> None
      | (Inr ct, cs') \<Rightarrow> map_option ((#) ct) (hpke_seals H ms cs'))"

fun rx_after :: "('cs, 'cr) hpke_prims \<Rightarrow> (bytes \<times> bytes) list \<Rightarrow> 'cr \<Rightarrow> 'cr" where
  "rx_after H [] cr = cr"
| "rx_after H ((ct, a) # xs) cr = rx_after H xs (snd (hpke_open H ct a cr))"

text \<open>
  The sequence number and the associated data are authenticated: of all the
  ciphertexts of a context, a receiver that has opened the first \<open>k\<close> opens
  only the next one, and only with the associated data it was sealed with.
\<close>

definition hpke_in_order :: "('cs, 'cr) hpke_prims \<Rightarrow> ('cs \<Rightarrow> 'cr \<Rightarrow> bool) \<Rightarrow> bool" where
  "hpke_in_order H linked \<longleftrightarrow>
     (\<forall>cs cr ms cts k i a p.
        linked cs cr \<and> hpke_seals H ms cs = Some cts \<and> k \<le> length cts \<and> i < length cts
        \<and> fst (hpke_open H (cts ! i) a (rx_after H (take k (zip cts (map snd ms))) cr)) = Inr p \<longrightarrow>
        i = k \<and> a = snd (ms ! i))"

text \<open>RFC 9458: the server that holds the key of a client's configuration opens its capsule, and its response opens at the client.\<close>

definition ohttp_correct :: "('k, 'co, 'so) ohttp_prims \<Rightarrow> bool" where
  "ohttp_correct Q \<longleftrightarrow>
     (\<forall>i ikm k pub c r req cap co.
        oh_derive Q i ikm = Inr k \<and> oh_encode Q k = Inr pub
        \<and> oh_from_encoded_config Q pub = Inr c \<and> oh_encapsulate Q r c req = Inr (cap, co) \<longrightarrow>
        (\<exists>srv so. oh_server_new Q k = Inr srv \<and> oh_decapsulate Q srv cap = Inr (req, so)
           \<and> (\<forall>r' p ct. oh_resp_encapsulate Q r' so p = Inr ct \<longrightarrow> oh_resp_decapsulate Q co ct = Inr p)))"

section \<open>Round trips\<close>

lemma e2e_seal_parts:
  assumes "e2e_seal H r pk aad prompt reply = Inr sealed"
  obtains k enc cs ct cs' where "length reply = 32" and "kem_pk_from_bytes H pk = Inr k"
    and "hpke_setup_sender H r k INFO = Inr (enc, cs)"
    and "hpke_seal H (reply @ prompt) aad cs = (Inr ct, cs')" and "sealed = enc @ ct"
  using assms
  by (auto simp: e2e_seal_def kem_pk_def prod_eq_iff split: if_splits sum.splits)

lemma e2e_open_seal:
  assumes H: "hpke_correct H linked" and keys: "host_keygen H r0 = Inr (sk, pk)"
    and "e2e_seal H r pk aad prompt reply = Inr sealed"
  shows "e2e_open H sk aad sealed = Inr (prompt, reply)"
proof -
  obtain k enc cs ct cs' where len: "length reply = 32" and k: "kem_pk_from_bytes H pk = Inr k"
    and s: "hpke_setup_sender H r k INFO = Inr (enc, cs)"
    and c: "hpke_seal H (reply @ prompt) aad cs = (Inr ct, cs')" and out: "sealed = enc @ ct"
    using e2e_seal_parts [OF assms(3)] by blast
  have g: "kem_gen_keypair H r0 = (sk, pk)"
    using keys by (simp add: host_keygen_def split: prod.splits)
  have k2: "k = pk" "kem_sk_from_bytes H sk = Inr sk"
    using H g k by (auto simp: hpke_correct_def)
  obtain cr where enc: "length enc = kem_enc_size H" "kem_enc_from_bytes H enc = Inr enc"
    and cr: "hpke_setup_receiver H sk enc INFO = Inr cr" "linked cs cr"
    using H g s unfolding k2 hpke_correct_def by blast
  obtain cr' where o: "hpke_open H ct aad cr = (Inr (reply @ prompt), cr')"
    and ct: "length (reply @ prompt) \<le> length ct"
    using H cr(2) c unfolding hpke_correct_def by blast
  show ?thesis
    using len ct by (simp add: e2e_open_def out enc kem_sk_def k2 cr(1) o)
qed

lemma response_setup_linked:
  assumes H: "hpke_correct H linked" and keys: "session_keygen H r0 = Inr (sk, pk)"
    and "response_setup_host H r pk = Inr (cs, preamble)"
  obtains cr where "response_setup_client H sk preamble = Inr cr" and "linked cs cr"
proof -
  have g: "kem_gen_keypair H r0 = (sk, pk)"
    using keys by (simp add: session_keygen_def split: prod.splits)
  have k: "kem_pk_from_bytes H pk = Inr pk" "kem_sk_from_bytes H sk = Inr sk"
    using H g by (auto simp: hpke_correct_def)
  have s: "hpke_setup_sender H r pk RESP_INFO = Inr (preamble, cs)"
    using assms(3) by (auto simp: response_setup_host_def kem_pk_def k(1) split: sum.splits)
  obtain cr where "kem_enc_from_bytes H preamble = Inr preamble"
    and "hpke_setup_receiver H sk preamble RESP_INFO = Inr cr" and "linked cs cr"
    using H g s unfolding hpke_correct_def by blast
  then show ?thesis
    using k(2) that by (simp add: response_setup_client_def kem_sk_def)
qed

lemma flag_byte_eq_1 [simp]: "(flag_byte b = 1) = b"
  by (simp add: flag_byte_def)

lemma response_open_seal:
  assumes "hpke_correct H linked" and "linked cs cr"
    and "response_seal_chunk H chunk is_last cs = (Inr ct, cs')"
  obtains cr' where "response_open_chunk H ct cr = (Inr (chunk, is_last), cr')" and "linked cs' cr'"
proof -
  obtain c where c: "hpke_seal H chunk [flag_byte is_last] cs = (Inr c, cs')" and ct: "ct = flag_byte is_last # c"
    using assms(3) by (auto simp: response_seal_chunk_def split: prod.splits sum.splits)
  obtain cr' where "hpke_open H c [flag_byte is_last] cr = (Inr chunk, cr')" and "linked cs' cr'"
    using assms(1,2) c unfolding hpke_correct_def by blast
  then show ?thesis
    using that by (simp add: response_open_chunk_def ct)
qed

lemma ohttp_keygen_public:
  assumes "ohttp_keygen Q ikm i = Inr (sk, pub)" and "length ikm = IKM_LEN"
  shows "ohttp_public_from_secret Q sk = Inr pub"
  using assms
  by (auto simp: ohttp_keygen_def ohttp_public_from_secret_def subslice_def IKM_LEN_def split: sum.splits)

text \<open>The configuration derived from the stored secret, a capsule sealed to it, and the response to it.\<close>

lemma ohttp_open_encapsulated:
  assumes Q: "ohttp_correct Q" and pub: "ohttp_public_from_secret Q sk = Inr pub"
    and "ohttp_encapsulate Q r pub req = Inr (cap, cctx)"
  obtains sctx where "ohttp_decapsulate Q sk cap = Inr (req, sctx)"
    and "\<And>r' chunk is_last ct s'. ohttp_seal_chunk Q r' chunk is_last sctx = (Inr ct, s') \<Longrightarrow>
           ohttp_open_chunk Q ct cctx = (Inr (chunk, is_last), None)"
proof -
  obtain k where len: "length sk = 1 + IKM_LEN"
    and k: "oh_derive Q (sk ! 0) (subslice 1 (1 + IKM_LEN) sk) = Inr k" "oh_encode Q k = Inr pub"
    using pub by (auto simp: ohttp_public_from_secret_def split: if_splits sum.splits)
  obtain c co where c: "oh_from_encoded_config Q pub = Inr c" "oh_encapsulate Q r c req = Inr (cap, co)"
    and cctx: "cctx = Some co"
    using assms(3) by (auto simp: ohttp_encapsulate_def split: sum.splits)
  obtain srv so where s: "oh_server_new Q k = Inr srv" "oh_decapsulate Q srv cap = Inr (req, so)"
    and resp: "\<forall>r' p ct. oh_resp_encapsulate Q r' so p = Inr ct \<longrightarrow> oh_resp_decapsulate Q co ct = Inr p"
    using Q k c unfolding ohttp_correct_def by blast
  show ?thesis
  proof
    show "ohttp_decapsulate Q sk cap = Inr (req, Some so)"
      using len k s by (simp add: ohttp_decapsulate_def)
  next
    fix r' chunk is_last ct s'
    assume "ohttp_seal_chunk Q r' chunk is_last (Some so) = (Inr ct, s')"
    then have "oh_resp_encapsulate Q r' so (flag_byte is_last # chunk) = Inr ct"
      by (auto simp: ohttp_seal_chunk_def split: sum.splits)
    with resp show "ohttp_open_chunk Q ct cctx = (Inr (chunk, is_last), None)"
      by (simp add: ohttp_open_chunk_def cctx)
  qed
qed

section \<open>The response stream\<close>

text \<open>
  A host that seals the chunks of an answer one after another, and a client
  that opens what it is delivered until the first error.
\<close>

fun seal_stream :: "('cs, 'cr) hpke_prims \<Rightarrow> (bytes \<times> bool) list \<Rightarrow> 'cs \<Rightarrow> bytes list option" where
  "seal_stream H [] cs = Some []"
| "seal_stream H ((chunk, is_last) # rest) cs =
     (case response_seal_chunk H chunk is_last cs of (Inl _, _) \<Rightarrow> None
      | (Inr ct, cs') \<Rightarrow> map_option ((#) ct) (seal_stream H rest cs'))"

fun open_stream :: "('cs, 'cr) hpke_prims \<Rightarrow> bytes list \<Rightarrow> 'cr \<Rightarrow> (bytes \<times> bool) list" where
  "open_stream H [] cr = []"
| "open_stream H (d # ds) cr =
     (case response_open_chunk H d cr of (Inl _, _) \<Rightarrow> [] | (Inr p, cr') \<Rightarrow> p # open_stream H ds cr')"

definition framed :: "(bytes \<times> bool) list \<Rightarrow> (bytes \<times> bytes) list" where
  "framed chunks = map (\<lambda>(c, l). (c, [flag_byte l])) chunks"

lemma seal_stream_seals:
  assumes "seal_stream H chunks cs = Some sent"
  obtains cts where "hpke_seals H (framed chunks) cs = Some cts"
    and "sent = map2 (\<lambda>(c, l) ct. flag_byte l # ct) chunks cts" and "length cts = length chunks"
proof -
  have "\<exists>cts. hpke_seals H (framed chunks) cs = Some cts
          \<and> sent = map2 (\<lambda>(c, l) ct. flag_byte l # ct) chunks cts \<and> length cts = length chunks"
    using assms
  proof (induction chunks arbitrary: cs sent)
    case (Cons x rest)
    obtain c l where x: "x = (c, l)" by (cases x)
    obtain ct cs' rest_sent where ct: "hpke_seal H c [flag_byte l] cs = (Inr ct, cs')"
      and rest: "seal_stream H rest cs' = Some rest_sent" and sent: "sent = (flag_byte l # ct) # rest_sent"
      using Cons.prems by (auto simp: x response_seal_chunk_def split: prod.splits sum.splits)
    obtain cts where "hpke_seals H (framed rest) cs' = Some cts"
      and "rest_sent = map2 (\<lambda>(c, l) ct. flag_byte l # ct) rest cts" and "length cts = length rest"
      using Cons.IH [OF rest] by blast
    then show ?case
      by (intro exI [of _ "ct # cts"]) (simp add: x framed_def ct sent)
  qed (simp add: framed_def)
  then show ?thesis using that by blast
qed

lemma hpke_seals_open:
  assumes "hpke_correct H linked" and "linked cs cr" and "hpke_seals H ms cs = Some cts" and "k < length cts"
  shows "length cts = length ms
    \<and> fst (hpke_open H (cts ! k) (snd (ms ! k)) (rx_after H (take k (zip cts (map snd ms))) cr))
        = Inr (fst (ms ! k))"
  using assms(2-4)
proof (induction ms arbitrary: cs cr cts k)
  case (Cons m ms)
  obtain p a where m: "m = (p, a)" by (cases m)
  obtain ct cs' cts' where ct: "hpke_seal H p a cs = (Inr ct, cs')"
    and rest: "hpke_seals H ms cs' = Some cts'" and cts: "cts = ct # cts'"
    using Cons.prems(2) by (auto simp: m split: prod.splits sum.splits)
  obtain cr' where o: "hpke_open H ct a cr = (Inr p, cr')" and l: "linked cs' cr'"
    using assms(1) Cons.prems(1) ct unfolding hpke_correct_def by blast
  have len: "length cts' = length ms" if "cts' \<noteq> []"
    using Cons.IH [OF l rest, of 0] that by simp
  have len': "length cts' = length ms"
    using len rest by (cases ms) (auto split: prod.splits sum.splits)
  show ?case
    using Cons.IH [OF l rest] Cons.prems(3) len' by (cases k) (simp_all add: cts m o)
qed simp

lemma open_stream_from:
  assumes H: "hpke_correct H linked" "hpke_in_order H linked" and l: "linked cs cr"
    and s: "hpke_seals H (framed chunks) cs = Some cts"
    and "k \<le> length cts" and "\<forall>d\<in>set ds. d = [] \<or> tl d \<in> set cts"
  shows "\<exists>n. open_stream H ds (rx_after H (take k (zip cts (map snd (framed chunks)))) cr)
           = take n (drop k chunks)"
  using assms(5,6)
proof (induction ds arbitrary: k)
  case (Cons d ds)
  let ?rx = "\<lambda>k. rx_after H (take k (zip cts (map snd (framed chunks)))) cr"
  show ?case
  proof (cases "response_open_chunk H d (?rx k)")
    case (Pair res cr')
    show ?thesis
    proof (cases res)
      case (Inl e)
      then show ?thesis using Pair by (intro exI [of _ 0]) simp
    next
      case (Inr p)
      obtain f ct pt where d: "d = f # ct" and o: "hpke_open H ct [f] (?rx k) = (Inr pt, cr')"
        and p: "p = (pt, f = 1)"
        using Pair Inr by (auto simp: response_open_chunk_def split: list.splits prod.splits sum.splits)
      obtain i where i: "i < length cts" "ct = cts ! i"
        using Cons.prems(2) d by (auto simp: in_set_conv_nth)
      have at: "i = k" "[f] = snd (framed chunks ! i)"
        using H(2) l s Cons.prems(1) i o unfolding hpke_in_order_def by (metis fst_conv)+
      have k: "k < length cts" using i at by simp
      note right = hpke_seals_open [OF H(1) l s k]
      have chunk: "chunks ! k = p" "k < length chunks"
        using right k o i at by (auto simp: framed_def p case_prod_beta prod_eq_iff)
      have "take (Suc k) (zip cts (map snd (framed chunks)))
          = take k (zip cts (map snd (framed chunks))) @ [(ct, [f])]"
        using right k i at by (simp add: take_Suc_conv_app_nth)
      moreover have "rx_after H (xs @ ys) c = rx_after H ys (rx_after H xs c)" for xs ys c
        by (induction H xs c rule: rx_after.induct) simp_all
      ultimately have next_rx: "?rx (Suc k) = cr'"
        using o by simp
      obtain n where "open_stream H ds cr' = take n (drop (Suc k) chunks)"
        using Cons.IH [of "Suc k"] k Cons.prems(2) unfolding next_rx by auto
      then have "open_stream H (d # ds) (?rx k) = take (Suc n) (drop k chunks)"
        using Pair Inr chunk by (simp add: Cons_nth_drop_Suc [symmetric])
      then show ?thesis by blast
    qed
  qed
qed (rule exI [of _ 0], simp)

lemma open_stream_sent:
  assumes "hpke_correct H linked" and "linked cs cr" and "seal_stream H chunks cs = Some sent"
  shows "open_stream H sent cr = chunks"
  using assms(2,3)
proof (induction chunks arbitrary: cs cr sent)
  case (Cons x rest)
  obtain c l where x: "x = (c, l)" by (cases x)
  obtain ct cs' more where ct: "response_seal_chunk H c l cs = (Inr ct, cs')"
    and rest: "seal_stream H rest cs' = Some more" and sent: "sent = ct # more"
    using Cons.prems(2) by (auto simp: x split: prod.splits sum.splits)
  obtain cr' where "response_open_chunk H ct cr = (Inr (c, l), cr')" and "linked cs' cr'"
    using response_open_seal [OF assms(1) Cons.prems(1) ct] by blast
  with Cons.IH [OF _ rest] show ?case by (simp add: x sent)
qed simp

section \<open>A concrete instance\<close>

text \<open>
  A context is its sequence number; a ciphertext is the plaintext behind a
  header that spells the sequence number and the associated data.
\<close>

definition demo_hdr :: "nat \<Rightarrow> bytes \<Rightarrow> bytes" where
  "demo_hdr n aad = replicate n 1 @ 0 # replicate (length aad) 1 @ 0 # aad"

definition demo_hpke :: "(nat, nat) hpke_prims" where
  "demo_hpke = \<lparr>
     kem_gen_keypair = (\<lambda>r. (take 32 (r @ replicate 32 0), take 32 (r @ replicate 32 0))),
     kem_pk_from_bytes = Inr, kem_sk_from_bytes = Inr, kem_enc_from_bytes = Inr, kem_enc_size = 32,
     hpke_setup_sender = (\<lambda>r pk info. Inr (pk, 0)),
     hpke_setup_receiver = (\<lambda>sk enc info. Inr 0),
     hpke_seal = (\<lambda>pt aad n. (Inr (demo_hdr n aad @ pt), Suc n)),
     hpke_open = (\<lambda>ct aad n.
        if take (length (demo_hdr n aad)) ct = demo_hdr n aad
        then (Inr (drop (length (demo_hdr n aad)) ct), Suc n) else (Inl ''open'', n)) \<rparr>"

lemma unary_prefix:
  "replicate n 1 @ 0 # xs = replicate m (1 :: u8) @ 0 # ys \<longleftrightarrow> n = m \<and> xs = ys"
proof (induction n arbitrary: m)
  case 0
  then show ?case by (cases m) auto
next
  case (Suc n)
  then show ?case by (cases m) auto
qed

lemma demo_hdr_append: "demo_hdr n a @ xs = demo_hdr m b @ ys \<longleftrightarrow> n = m \<and> a = b \<and> xs = ys"
  by (auto simp: demo_hdr_def unary_prefix)

lemma demo_open_success:
  assumes "fst (hpke_open demo_hpke ct a n) = Inr p"
  shows "ct = demo_hdr n a @ p"
proof -
  have "take (length (demo_hdr n a)) ct = demo_hdr n a" and "p = drop (length (demo_hdr n a)) ct"
    using assms by (auto simp: demo_hpke_def split: if_splits)
  then show ?thesis
    using append_take_drop_id [of "length (demo_hdr n a)" ct] by metis
qed

lemma demo_hpke_correct: "hpke_correct demo_hpke (=)"
  by (auto simp: hpke_correct_def demo_hpke_def)

lemma demo_hpke_seals:
  "hpke_seals demo_hpke ms n = Some cts \<Longrightarrow>
   length cts = length ms \<and> (\<forall>i < length ms. cts ! i = demo_hdr (n + i) (snd (ms ! i)) @ fst (ms ! i))"
proof (induction ms arbitrary: n cts)
  case (Cons m ms)
  obtain cts' where "hpke_seals demo_hpke ms (Suc n) = Some cts'"
    and "cts = (demo_hdr n (snd m) @ fst m) # cts'"
    using Cons.prems by (cases m) (auto simp: demo_hpke_def)
  then show ?case
    using Cons.IH [of "Suc n" cts'] by (auto simp: nth_Cons split: nat.splits)
qed simp

lemma demo_rx_after:
  "(\<And>i. i < length xs \<Longrightarrow> \<exists>p. fst (xs ! i) = demo_hdr (n + i) (snd (xs ! i)) @ p) \<Longrightarrow>
   rx_after demo_hpke xs n = n + length xs"
proof (induction xs arbitrary: n)
  case (Cons x xs)
  obtain p where "fst x = demo_hdr n (snd x) @ p"
    using Cons.prems [of 0] by auto
  then have "rx_after demo_hpke (x # xs) n = rx_after demo_hpke xs (Suc n)"
    by (cases x) (simp add: demo_hpke_def)
  moreover have "rx_after demo_hpke xs (Suc n) = Suc n + length xs"
    using Cons.prems [of "Suc i" for i] by (intro Cons.IH) auto
  ultimately show ?case by simp
qed simp

lemma demo_hpke_in_order: "hpke_in_order demo_hpke (=)"
  unfolding hpke_in_order_def
proof (intro allI impI, elim conjE)
  fix cs cr k i :: nat and ms cts a p
  assume "cs = cr" and s: "hpke_seals demo_hpke ms cs = Some cts" and k: "k \<le> length cts" and i: "i < length cts"
    and o: "fst (hpke_open demo_hpke (cts ! i) a (rx_after demo_hpke (take k (zip cts (map snd ms))) cr)) = Inr p"
  note seals = demo_hpke_seals [OF s]
  have "rx_after demo_hpke (take k (zip cts (map snd ms))) cs = cs + length (take k (zip cts (map snd ms)))"
    by (rule demo_rx_after) (use seals in auto)
  then have "cts ! i = demo_hdr (cs + k) a @ p"
    using demo_open_success [OF o] \<open>cs = cr\<close> seals k by simp
  moreover have "cts ! i = demo_hdr (cs + i) (snd (ms ! i)) @ fst (ms ! i)"
    using seals i by simp
  ultimately show "i = k \<and> a = snd (ms ! i)"
    by (auto simp: demo_hdr_append)
qed

definition demo_ohttp :: "(bytes, unit, unit) ohttp_prims" where
  "demo_ohttp = \<lparr>
     oh_derive = (\<lambda>i ikm. Inr (i # ikm)), oh_encode = Inr, oh_server_new = Inr,
     oh_from_encoded_config = Inr,
     oh_encapsulate = (\<lambda>r c req. Inr (c @ req, ())),
     oh_decapsulate = (\<lambda>k cap. if take (length k) cap = k then Inr (drop (length k) cap, ()) else Inl (OHpke ''open'')),
     oh_resp_encapsulate = (\<lambda>r so p. Inr p), oh_resp_decapsulate = (\<lambda>co ct. Inr ct),
     oh_error_text = (\<lambda>_. ''error'') \<rparr>"

lemma demo_ohttp_correct: "ohttp_correct demo_ohttp"
  by (auto simp: ohttp_correct_def demo_ohttp_def)

section \<open>Properties\<close>

text \<open>
  C11: the response stream fails closed. A client whose receiver is set up from
  its session key and the host's preamble opens the chunks the host sealed to
  exactly those chunks; and if the network delivers any list made of sealed
  bodies, with chunks dropped, repeated, reordered or given any finality byte,
  what it accepts is an initial part of what the host sent. So when only the
  last chunk of the answer was sealed as final, a client that is told
  \<open>is_final\<close> holds the whole answer.
\<close>

theorem response_stream_fails_closed:
  assumes "hpke_correct H linked" and "hpke_in_order H linked"
    and "session_keygen H r0 = Inr (sk, pk)" and "response_setup_host H r pk = Inr (cs, preamble)"
    and "seal_stream H chunks cs = Some sent"
    and "\<forall>c\<in>set (butlast chunks). \<not> snd c"
    and "\<forall>d\<in>set ds. d = [] \<or> tl d \<in> tl ` set sent"
  shows "\<exists>cr n. response_setup_client H sk preamble = Inr cr
    \<and> open_stream H sent cr = chunks
    \<and> open_stream H ds cr = take n chunks
    \<and> (snd ` set (open_stream H ds cr) \<subseteq> {False} \<or> open_stream H ds cr = chunks)"
proof -
  obtain cr where cr: "response_setup_client H sk preamble = Inr cr" and l: "linked cs cr"
    using response_setup_linked [OF assms(1,3,4)] by blast
  obtain cts where cts: "hpke_seals H (framed chunks) cs = Some cts"
    and sent: "sent = map2 (\<lambda>(c, l) ct. flag_byte l # ct) chunks cts" and len: "length cts = length chunks"
    using seal_stream_seals [OF assms(5)] by blast
  have "tl ` set sent \<subseteq> set cts"
    by (auto simp: sent dest: set_zip_rightD)
  with assms(7) have "\<forall>d\<in>set ds. d = [] \<or> tl d \<in> set cts"
    by (meson subsetD)
  then obtain n where n: "open_stream H ds cr = take n chunks"
    using open_stream_from [OF assms(1,2) l cts, of 0 ds] by auto
  have "set (take n chunks) \<subseteq> set (butlast chunks)" if "n < length chunks"
    unfolding butlast_conv_take using that by (intro set_take_subset_set_take) simp
  then have "snd ` set (take n chunks) \<subseteq> {False} \<or> take n chunks = chunks"
    using assms(6) by (cases "n < length chunks") auto
  with cr n open_stream_sent [OF assms(1) l assms(5)] show ?thesis
    by auto
qed

theorem response_stream_fails_closed_witness:
  "\<exists>cr n. response_setup_client demo_hpke (replicate 32 0) (replicate 32 0) = Inr cr
    \<and> open_stream demo_hpke [0 # demo_hdr 0 [0] @ [7], 1 # demo_hdr 1 [1] @ [8]] cr = [([7], False), ([8], True)]
    \<and> open_stream demo_hpke [1 # demo_hdr 0 [0] @ [7]] cr = take n [([7], False), ([8], True)]
    \<and> (snd ` set (open_stream demo_hpke [1 # demo_hdr 0 [0] @ [7]] cr) \<subseteq> {False}
       \<or> open_stream demo_hpke [1 # demo_hdr 0 [0] @ [7]] cr = [([7], False), ([8], True)])"
  by (rule response_stream_fails_closed [OF demo_hpke_correct demo_hpke_in_order, of "[]" _ "replicate 32 0" "[]" 0])
    (simp_all add: session_keygen_def response_setup_host_def kem_pk_def response_seal_chunk_def
       flag_byte_def demo_hpke_def)

end
