(* ===== verification/Net_Agent.thy ===== *)
theory Net_Agent
  imports Crypto_Channel
begin

text \<open>
  \<open>lluma-net\<close>: the Binary HTTP framing of the inner request and response
  (\<open>framing.rs\<close>), the client's oblivious round trip (\<open>agent.rs\<close>), and
  the signed bootstrap with its agreement of sources (\<open>bootstrap.rs\<close>). The
  BHTTP codec is the parameter \<open>bhttp_prims\<close>; an HTTP exchange is a function
  from the request and the state \<open>'w\<close> of the world to the peer's answer,
  \<open>None\<close> when the transport fails.
\<close>

section \<open>HTTP messages\<close>

record http_req =
  hq_method :: string
  hq_url :: string
  hq_content_type :: "bytes option"
  hq_body :: bytes

text \<open>The body of a response is \<open>None\<close> when it cannot be read to its end.\<close>

record http_resp =
  hs_status :: u16
  hs_content_type :: "bytes option"
  hs_retry_after :: "string option"
  hs_body :: "bytes option"

type_synonym 'w http = "http_req \<Rightarrow> 'w \<Rightarrow> http_resp option \<times> 'w"

definition is_success :: "u16 \<Rightarrow> bool" where
  "is_success status \<longleftrightarrow> 200 \<le> status \<and> status < 300"

datatype bh_control = BRequest bytes bytes bytes bytes | BResponse u16

record bh_message =
  bm_control :: bh_control
  bm_header :: "(bytes \<times> bytes) list"
  bm_content :: bytes

record bhttp_prims =
  bh_write :: "bh_message \<Rightarrow> bytes option"
  bh_read :: "bytes \<Rightarrow> bh_message option"
  bh_header_get :: "(bytes \<times> bytes) list \<Rightarrow> bytes \<Rightarrow> bytes option"
  bh_status_ok :: "u16 \<Rightarrow> bool"

section \<open>Errors and framing (error.rs, framing.rs)\<close>

datatype NetError = Bootstrap | Encapsulation | Relay u16 | NotFinal | Bhttp | Http | Crypto

definition NetError_from :: "CryptoError \<Rightarrow> NetError" where
  "NetError_from e = Crypto"

record InnerRequest =
  ir_method :: string
  ir_path :: string
  ir_content_type :: "string option"
  ir_body :: bytes

record InnerResponse =
  is_status :: u16
  is_body :: bytes

definition encode_request :: "bhttp_prims \<Rightarrow> InnerRequest \<Rightarrow> NetError + bytes" where
  "encode_request B r =
     (let msg = \<lparr>bm_control = BRequest (ascii (ir_method r)) (ascii ''https'') [] (ascii (ir_path r)),
                 bm_header = (case ir_content_type r of None \<Rightarrow> []
                              | Some ct \<Rightarrow> [(ascii ''content-type'', ascii ct)]),
                 bm_content = ir_body r\<rparr> in
      case bh_write B msg of None \<Rightarrow> Inl Bhttp | Some out \<Rightarrow> Inr out)"

definition decode_response :: "bhttp_prims \<Rightarrow> bytes \<Rightarrow> NetError + InnerResponse" where
  "decode_response B b =
     (case bh_read B b of None \<Rightarrow> Inl Bhttp
      | Some msg \<Rightarrow>
          (case bm_control msg of BRequest _ _ _ _ \<Rightarrow> Inl Bhttp
           | BResponse status \<Rightarrow> Inr \<lparr>is_status = status, is_body = bm_content msg\<rparr>))"

section \<open>The round trip (agent.rs)\<close>

record OhttpAgent =
  ag_relay_url :: string
  ag_key_config :: OhttpKeyConfig

definition round_trip ::
  "bhttp_prims \<Rightarrow> ('k, 'co, 'so) ohttp_prims \<Rightarrow> bytes \<Rightarrow> 'w http \<Rightarrow> OhttpAgent \<Rightarrow> InnerRequest \<Rightarrow> 'w \<Rightarrow>
   (NetError + InnerResponse) \<times> 'w" where
  "round_trip B Q r send ag req w =
     (case encode_request B req of Inl e \<Rightarrow> (Inl e, w)
      | Inr inner \<Rightarrow>
          (case ohttp_encapsulate Q r (ag_key_config ag) inner of Inl _ \<Rightarrow> (Inl Encapsulation, w)
           | Inr (capsule, client_ctx) \<Rightarrow>
               (case send \<lparr>hq_method = ''POST'', hq_url = ag_relay_url ag @ ''/ohttp'',
                           hq_content_type = Some (ascii ''message/ohttp-req''), hq_body = capsule\<rparr> w of
                  (None, w') \<Rightarrow> (Inl Http, w')
                | (Some resp, w') \<Rightarrow>
                    (case hs_body resp of None \<Rightarrow> (Inl Http, w')
                     | Some body \<Rightarrow>
                         if \<not> is_success (hs_status resp) then (Inl (Relay (hs_status resp)), w')
                         else (case fst (ohttp_open_chunk Q body client_ctx) of
                                 Inl e \<Rightarrow> (Inl (NetError_from e), w')
                               | Inr (plaintext, is_final) \<Rightarrow>
                                   if \<not> is_final then (Inl NotFinal, w')
                                   else (decode_response B plaintext, w'))))))"

section \<open>The signed bootstrap (bootstrap.rs)\<close>

record Bootstrap =
  bo_relay_urls :: "string list"
  bo_key_config :: OhttpKeyConfig
  bo_key_id :: u8
  bo_epoch :: u64
  bo_not_after :: u64

text \<open>postcard on the two wire types: the bootstrap, and the pair of payload and signature.\<close>

record boot_codec =
  bo_enc :: "Bootstrap \<Rightarrow> bytes option"
  bo_dec :: "bytes \<Rightarrow> Bootstrap option"
  sb_enc :: "bytes \<times> bytes \<Rightarrow> bytes option"
  sb_dec :: "bytes \<Rightarrow> (bytes \<times> bytes) option"

definition sign_bootstrap :: "prims \<Rightarrow> boot_codec \<Rightarrow> bytes \<Rightarrow> Bootstrap \<Rightarrow> NetError + bytes" where
  "sign_bootstrap P C sk b =
     (case bo_enc C b of None \<Rightarrow> Inl Bootstrap
      | Some payload \<Rightarrow>
          (case sb_enc C (payload, ed_sign P sk (BOOTSTRAP_DOMAIN @ payload)) of
             None \<Rightarrow> Inl Bootstrap | Some out \<Rightarrow> Inr out))"

fun bootstrap_payloads :: "prims \<Rightarrow> boot_codec \<Rightarrow> bytes \<Rightarrow> bytes list \<Rightarrow> NetError + bytes list" where
  "bootstrap_payloads P C vk [] = Inr []"
| "bootstrap_payloads P C vk (src # rest) =
     (case sb_dec C src of None \<Rightarrow> Inl Bootstrap
      | Some (payload, sig) \<Rightarrow>
          if length sig \<noteq> 64 then Inl Bootstrap
          else if \<not> ed_verify P vk (BOOTSTRAP_DOMAIN @ payload) sig then Inl Bootstrap
          else (case bootstrap_payloads P C vk rest of Inl e \<Rightarrow> Inl e | Inr ps \<Rightarrow> Inr (payload # ps)))"

definition net_verify_bootstrap ::
  "prims \<Rightarrow> boot_codec \<Rightarrow> bytes list \<Rightarrow> bytes \<Rightarrow> u64 \<Rightarrow> NetError + Bootstrap" where
  "net_verify_bootstrap P C sources vk now_unix_s =
     (if length sources < 2 then Inl Bootstrap
      else case bootstrap_payloads P C vk sources of Inl e \<Rightarrow> Inl e
        | Inr payloads \<Rightarrow>
            let first = payloads ! 0; agree = length (filter (\<lambda>p. p = first) payloads) in
            if agree < 2 then Inl Bootstrap
            else case bo_dec C first of None \<Rightarrow> Inl Bootstrap
              | Some b \<Rightarrow> if bo_not_after b < now_unix_s then Inl Bootstrap else Inr b)"

section \<open>Facts\<close>

definition source_signed :: "prims \<Rightarrow> boot_codec \<Rightarrow> bytes \<Rightarrow> bytes \<Rightarrow> bytes \<Rightarrow> bool" where
  "source_signed P C vk src payload \<longleftrightarrow>
     (\<exists>sig. sb_dec C src = Some (payload, sig) \<and> length sig = 64 \<and> ed_verify P vk (BOOTSTRAP_DOMAIN @ payload) sig)"

lemma bootstrap_payloads_Cons:
  "bootstrap_payloads P C vk (src # rest) = Inr ps \<longleftrightarrow>
     (\<exists>p qs. source_signed P C vk src p \<and> bootstrap_payloads P C vk rest = Inr qs \<and> ps = p # qs)"
  by (auto simp: source_signed_def split: option.splits sum.splits)

lemma bootstrap_payloads_Inr:
  "bootstrap_payloads P C vk sources = Inr ps \<longleftrightarrow> list_all2 (source_signed P C vk) sources ps"
proof (induction sources arbitrary: ps)
  case (Cons src rest)
  then show ?case unfolding bootstrap_payloads_Cons list_all2_Cons1 by blast
qed auto

lemma bootstrap_payloads_Inl: "bootstrap_payloads P C vk sources = Inl e \<Longrightarrow> e = Bootstrap"
  by (induction sources) (auto split: option.splits if_splits sum.splits)

section \<open>Properties\<close>

text \<open>
  C31: the bootstrap needs agreement. A list of mirrors is accepted exactly when
  each of them is validly signed by the pinned key, some mirror after the first carries the
  same payload bytes as the first, and that payload decodes to the returned
  bootstrap and has not expired; in every other case the answer is the one
  bootstrap error.
\<close>

theorem bootstrap_needs_agreement:
  "(net_verify_bootstrap P C sources vk now = Inr b \<longleftrightarrow>
      (\<exists>p rest. list_all2 (source_signed P C vk) sources (p # rest) \<and> p \<in> set rest
         \<and> bo_dec C p = Some b \<and> now \<le> bo_not_after b))
   \<and> net_verify_bootstrap P C sources vk now \<in> insert (Inl Bootstrap) (range Inr)"
proof (cases "bootstrap_payloads P C vk sources")
  case (Inl e)
  then have "\<not> list_all2 (source_signed P C vk) sources ps" for ps
    by (metis Inl_Inr_False bootstrap_payloads_Inr)
  with Inl bootstrap_payloads_Inl [OF Inl] show ?thesis
    by (simp add: net_verify_bootstrap_def)
next
  case (Inr ps)
  then have signed: "list_all2 (source_signed P C vk) sources ps"
    by (simp add: bootstrap_payloads_Inr)
  have unique: "list_all2 (source_signed P C vk) sources qs \<longleftrightarrow> qs = ps" for qs
    using Inr bootstrap_payloads_Inr [of P C vk sources qs] by auto
  have len: "length sources = length ps"
    using signed by (rule list_all2_lengthD)
  show ?thesis
  proof (cases ps)
    case Nil
    then show ?thesis using Inr len unique by (simp add: net_verify_bootstrap_def)
  next
    case (Cons p rest)
    have "filter (\<lambda>q. q = p) rest = [] \<longleftrightarrow> p \<notin> set rest"
      by (auto simp: filter_empty_conv)
    moreover have "p \<in> set rest \<Longrightarrow> 2 \<le> length sources"
      using len Cons by (cases rest) auto
    ultimately have eq: "net_verify_bootstrap P C sources vk now =
        (if p \<in> set rest
         then (case bo_dec C p of None \<Rightarrow> Inl Bootstrap
               | Some b \<Rightarrow> if bo_not_after b < now then Inl Bootstrap else Inr b)
         else Inl Bootstrap)"
      using Inr Cons by (cases "p \<in> set rest") (simp_all add: net_verify_bootstrap_def)
    have "(\<exists>q qs. list_all2 (source_signed P C vk) sources (q # qs) \<and> q \<in> set qs
         \<and> bo_dec C q = Some b \<and> now \<le> bo_not_after b)
       \<longleftrightarrow> p \<in> set rest \<and> bo_dec C p = Some b \<and> now \<le> bo_not_after b"
      unfolding unique Cons by blast
    then show ?thesis
      unfolding eq by (auto split: option.splits)
  qed
qed

end
