(* ===== verification/Gateway.thy ===== *)
theory Gateway
  imports Net_Agent Broker_System
begin

text \<open>
  \<open>lluma-gateway\<close>: the allowlist of paths, the handling of one capsule
  (decapsulate, decode, check, forward to the configured origin, encode, seal),
  and the start-up of the binary. A path is the byte string of its characters.
  \<open>reqwest::Url::parse\<close> is the parameter \<open>gw_url\<close>: the URL as it will
  be sent, and its path.
\<close>

section \<open>Strings of the standard library\<close>

definition starts_with :: "string \<Rightarrow> string \<Rightarrow> bool" where
  "starts_with s p \<longleftrightarrow> take (length p) s = p"

definition strip_prefix :: "string \<Rightarrow> string \<Rightarrow> string option" where
  "strip_prefix s p = (if starts_with s p then Some (drop (length p) s) else None)"

definition ends_with_char :: "string \<Rightarrow> char \<Rightarrow> bool" where
  "ends_with_char s c \<longleftrightarrow> s \<noteq> [] \<and> last s = c"

fun split_on :: "char \<Rightarrow> string \<Rightarrow> string list" where
  "split_on c [] = [[]]"
| "split_on c (x # xs) =
     (if x = c then [] # split_on c xs
      else case split_on c xs of [] \<Rightarrow> [[x]] | s # ss \<Rightarrow> (x # s) # ss)"

definition continuation :: "u8 \<Rightarrow> bool" where
  "continuation b \<longleftrightarrow> 0x80 \<le> b \<and> b \<le> 0xBF"

text \<open>Well-formed UTF-8, as \<open>std::str::from_utf8\<close> accepts it.\<close>

fun utf8_ok :: "bytes \<Rightarrow> bool" where
  "utf8_ok [] \<longleftrightarrow> True"
| "utf8_ok (b # bs) \<longleftrightarrow>
     (if b < 0x80 then utf8_ok bs
      else if 0xC2 \<le> b \<and> b \<le> 0xDF
      then (case bs of c # bs' \<Rightarrow> continuation c \<and> utf8_ok bs' | _ \<Rightarrow> False)
      else if 0xE0 \<le> b \<and> b \<le> 0xEF
      then (case bs of c # d # bs' \<Rightarrow>
              continuation c \<and> continuation d \<and> (b = 0xE0 \<longrightarrow> 0xA0 \<le> c) \<and> (b = 0xED \<longrightarrow> c \<le> 0x9F) \<and> utf8_ok bs'
            | _ \<Rightarrow> False)
      else if 0xF0 \<le> b \<and> b \<le> 0xF4
      then (case bs of c # d # e # bs' \<Rightarrow>
              continuation c \<and> continuation d \<and> continuation e
              \<and> (b = 0xF0 \<longrightarrow> 0x90 \<le> c) \<and> (b = 0xF4 \<longrightarrow> c \<le> 0x8F) \<and> utf8_ok bs'
            | _ \<Rightarrow> False)
      else False)"

definition from_utf8 :: "bytes \<Rightarrow> string option" where
  "from_utf8 b = (if utf8_ok b then Some (map (\<lambda>x. char_of (unat x)) b) else None)"

definition ascii_upper :: "char \<Rightarrow> char" where
  "ascii_upper c =
     (let n = (of_char c :: nat) in if 97 \<le> n \<and> n \<le> 122 then char_of (n - 32) else c)"

definition to_ascii_uppercase :: "string \<Rightarrow> string" where
  "to_ascii_uppercase s = map ascii_upper s"

section \<open>The allowlist\<close>

definition path_allowed :: "string \<Rightarrow> string list \<Rightarrow> bool" where
  "path_allowed path prefixes \<longleftrightarrow>
     (if \<not> starts_with path ''/''
         \<or> list_ex (\<lambda>c. c \<in> set ''?#%'' \<or> c = CHR 0x5C) path
         \<or> list_ex (\<lambda>c. (of_char c :: nat) < 0x21) path
      then False
      else if list_ex (\<lambda>seg. seg = [] \<or> seg = ''.'' \<or> seg = ''..'') (split_on (CHR ''/'') (drop 1 path))
      then False
      else list_ex (\<lambda>p.
             if ends_with_char p (CHR ''/'') then starts_with path p
             else path = p \<or> (case strip_prefix path p of None \<Rightarrow> False | Some rest \<Rightarrow> starts_with rest ''/''))
           prefixes)"

section \<open>One capsule\<close>

datatype GatewayError = Decapsulate | GBhttp | BadRequest | Forbidden | Upstream | Seal

record GatewayConfig =
  gc_secret :: GatewaySecretKey
  gc_origin_url :: string
  gc_allowed_path_prefixes :: "string list"

type_synonym gw_url = "string \<Rightarrow> (string \<times> string) option"

definition inner_method :: "bh_message \<Rightarrow> string option" where
  "inner_method msg =
     (case bm_control msg of BRequest m _ _ _ \<Rightarrow> map_option to_ascii_uppercase (from_utf8 m)
      | BResponse _ \<Rightarrow> None)"

definition inner_path :: "bh_message \<Rightarrow> string option" where
  "inner_path msg =
     (case bm_control msg of BRequest _ _ _ p \<Rightarrow> from_utf8 p | BResponse _ \<Rightarrow> None)"

text \<open>The request built for the origin, once the message has passed every check.\<close>

definition origin_request :: "bhttp_prims \<Rightarrow> gw_url \<Rightarrow> GatewayConfig \<Rightarrow> bh_message \<Rightarrow> GatewayError + http_req" where
  "origin_request B UP st msg =
     (case inner_method msg of None \<Rightarrow> Inl BadRequest
      | Some m \<Rightarrow>
          (case inner_path msg of None \<Rightarrow> Inl BadRequest
           | Some path \<Rightarrow>
               if m \<noteq> ''GET'' \<and> m \<noteq> ''POST'' then Inl Forbidden
               else if \<not> path_allowed path (gc_allowed_path_prefixes st) then Inl Forbidden
               else (case UP (gc_origin_url st @ path) of None \<Rightarrow> Inl Forbidden
                     | Some (parsed, parsed_path) \<Rightarrow>
                         if \<not> path_allowed parsed_path (gc_allowed_path_prefixes st) then Inl Forbidden
                         else Inr \<lparr>hq_method = m, hq_url = parsed,
                                   hq_content_type = bh_header_get B (bm_header msg) (ascii ''content-type''),
                                   hq_body = (if m = ''GET'' then [] else bm_content msg)\<rparr>)))"

definition seal_origin_response ::
  "bhttp_prims \<Rightarrow> ('k, 'co, 'so) ohttp_prims \<Rightarrow> bytes \<Rightarrow> 'so option \<Rightarrow> u16 \<Rightarrow> bytes \<Rightarrow> GatewayError + bytes" where
  "seal_origin_response B Q r resp_ctx status resp_body =
     (if \<not> bh_status_ok B status then Inl GBhttp
      else case bh_write B \<lparr>bm_control = BResponse status, bm_header = [], bm_content = resp_body\<rparr> of
             None \<Rightarrow> Inl GBhttp
           | Some resp_bhttp \<Rightarrow>
               (case fst (ohttp_seal_chunk Q r resp_bhttp True resp_ctx) of Inl _ \<Rightarrow> Inl Seal | Inr b \<Rightarrow> Inr b))"

definition process ::
  "bhttp_prims \<Rightarrow> ('k, 'co, 'so) ohttp_prims \<Rightarrow> gw_url \<Rightarrow> bytes \<Rightarrow> 'w http \<Rightarrow> GatewayConfig \<Rightarrow> bytes \<Rightarrow> 'w \<Rightarrow>
   (GatewayError + bytes) \<times> 'w" where
  "process B Q UP r origin st body w =
     (case ohttp_decapsulate Q (gc_secret st) body of Inl _ \<Rightarrow> (Inl Decapsulate, w)
      | Inr (inner, resp_ctx) \<Rightarrow>
          (case bh_read B inner of None \<Rightarrow> (Inl GBhttp, w)
           | Some msg \<Rightarrow>
               (case origin_request B UP st msg of Inl e \<Rightarrow> (Inl e, w)
                | Inr req \<Rightarrow>
                    (case origin req w of (None, w') \<Rightarrow> (Inl Upstream, w')
                     | (Some resp, w') \<Rightarrow>
                         (case hs_body resp of None \<Rightarrow> (Inl Upstream, w')
                          | Some resp_body \<Rightarrow>
                              (seal_origin_response B Q r resp_ctx (hs_status resp) resp_body, w'))))))"

definition gateway_handle ::
  "bhttp_prims \<Rightarrow> ('k, 'co, 'so) ohttp_prims \<Rightarrow> gw_url \<Rightarrow> bytes \<Rightarrow> 'w http \<Rightarrow> GatewayConfig \<Rightarrow> bytes \<Rightarrow> 'w \<Rightarrow>
   http_resp \<times> 'w" where
  "gateway_handle B Q UP r origin st body w =
     (case process B Q UP r origin st body w of
        (Inr sealed, w') \<Rightarrow>
          (\<lparr>hs_status = 200, hs_content_type = Some (ascii ''message/ohttp-res''), hs_retry_after = None,
            hs_body = Some sealed\<rparr>, w')
      | (Inl _, w') \<Rightarrow>
          (\<lparr>hs_status = 502, hs_content_type = None, hs_retry_after = None, hs_body = Some []\<rparr>, w'))"

section \<open>Start-up (main.rs)\<close>

definition parse_prefixes :: "string \<Rightarrow> string list" where
  "parse_prefixes s = filter (\<lambda>p. p \<noteq> []) (map trim (split_on (CHR '','') s))"

text \<open>
  \<open>ikm\<close> is what the RNG draws, \<open>write_ok path\<close> whether the secret can be
  written there. The result is the configuration, the published key
  configuration and the file written, or \<open>Inl\<close> when the process exits.
\<close>

definition gateway_main ::
  "('k, 'co, 'so) ohttp_prims \<Rightarrow> process_env \<Rightarrow> bytes \<Rightarrow> (string \<Rightarrow> bool) \<Rightarrow>
   string + (GatewayConfig \<times> OhttpKeyConfig \<times> (string \<times> bytes) option)" where
  "gateway_main Q E ikm write_ok =
     (let origin = env_or E ''LLUMA_GATEWAY_ORIGIN'' [] in
      if origin = [] then Inl ''LLUMA_GATEWAY_ORIGIN is required (the fixed origin URL)''
      else
        let prefixes = parse_prefixes (env_or E ''LLUMA_GATEWAY_PREFIXES'' ''/v1/issue,/v1/redeem,/v1/key-config'');
            key_id = (case pe_var E ''LLUMA_GATEWAY_KEY_ID'' of None \<Rightarrow> 1
                      | Some s \<Rightarrow> (case parse_uint 8 s of None \<Rightarrow> 1 | Some n \<Rightarrow> of_nat n));
            cfg = (\<lambda>sk. \<lparr>gc_secret = sk, gc_origin_url = origin, gc_allowed_path_prefixes = prefixes\<rparr>);
            path = env_or E ''LLUMA_GATEWAY_KC_SK_FILE'' [] in
        if path = []
        then (case ohttp_keygen Q ikm key_id of Inl _ \<Rightarrow> Inl ''crypto''
              | Inr (sk, kc) \<Rightarrow> Inr (cfg sk, kc, None))
        else case pe_file E path of
               Some b \<Rightarrow>
                 (case ohttp_public_from_secret Q b of Inl _ \<Rightarrow> Inl ''crypto'' | Inr kc \<Rightarrow> Inr (cfg b, kc, None))
             | None \<Rightarrow>
                 (case ohttp_keygen Q ikm key_id of Inl _ \<Rightarrow> Inl ''crypto''
                  | Inr (sk, kc) \<Rightarrow> if write_ok path then Inr (cfg sk, kc, Some (path, sk)) else Inl ''io''))"

section \<open>What the allowlist admits\<close>

text \<open>
  A clean segment has no character a URL parser rewrites or ends a path at; a
  path under the allowlist is a sequence of clean segments that equals an
  allowed prefix or extends one at a segment boundary.
\<close>

definition url_safe :: "char \<Rightarrow> bool" where
  "url_safe c \<longleftrightarrow> c \<notin> set ''?#%'' \<and> c \<noteq> CHR 0x5C \<and> 0x21 \<le> (of_char c :: nat)"

definition clean_segment :: "string \<Rightarrow> bool" where
  "clean_segment s \<longleftrightarrow>
     s \<notin> {[], ''.'', ''..''} \<and> (\<forall>c\<in>set s. c \<noteq> CHR ''/'' \<and> url_safe c)"

definition join_segs :: "string list \<Rightarrow> string" where
  "join_segs segs = concat (map (\<lambda>s. CHR ''/'' # s) segs)"

definition extends_at_boundary :: "string \<Rightarrow> string \<Rightarrow> bool" where
  "extends_at_boundary path p \<longleftrightarrow>
     (\<exists>rest. path = p @ rest \<and> (rest = [] \<or> ends_with_char p (CHR ''/'') \<or> hd rest = CHR ''/''))"

definition under_allowlist :: "string list \<Rightarrow> string \<Rightarrow> bool" where
  "under_allowlist prefixes path \<longleftrightarrow>
     (\<exists>segs. segs \<noteq> [] \<and> path = join_segs segs \<and> list_all clean_segment segs)
     \<and> (\<exists>p\<in>set prefixes. extends_at_boundary path p)"

lemma starts_with_append: "starts_with s p \<longleftrightarrow> (\<exists>rest. s = p @ rest)"
  unfolding starts_with_def by (metis append_eq_conv_conj append_take_drop_id)

lemma split_on_not_Nil [simp]: "split_on c xs \<noteq> []"
  by (induction c xs rule: split_on.induct) (auto split: list.splits)

lemma join_split_on: "join_segs (split_on (CHR ''/'') xs) = CHR ''/'' # xs"
  by (induction "CHR ''/''" xs rule: split_on.induct) (auto simp: join_segs_def split: list.splits)

lemma split_on_clean: "s \<in> set (split_on c xs) \<Longrightarrow> set s \<subseteq> set xs - {c}"
  by (induction c xs arbitrary: s rule: split_on.induct) (fastforce split: list.splits if_splits)+

lemma split_on_no_sep: "c \<notin> set s \<Longrightarrow> split_on c s = [s]"
  by (induction s) auto

lemma split_on_sep: "c \<notin> set s \<Longrightarrow> split_on c (s @ c # t) = s # split_on c t"
  by (induction s) auto

lemma split_join_segs:
  "segs \<noteq> [] \<Longrightarrow> \<forall>s\<in>set segs. CHR ''/'' \<notin> set s \<Longrightarrow>
   split_on (CHR ''/'') (drop 1 (join_segs segs)) = segs"
proof (induction segs)
  case (Cons s segs)
  show ?case
  proof (cases segs)
    case Nil
    then show ?thesis using Cons.prems by (simp add: join_segs_def split_on_no_sep)
  next
    case (Cons t ts)
    with Cons.IH Cons.prems show ?thesis
      by (simp add: join_segs_def split_on_sep)
  qed
qed simp

lemma prefix_admits:
  "(if ends_with_char p (CHR ''/'') then starts_with path p
    else path = p \<or> (case strip_prefix path p of None \<Rightarrow> False | Some rest \<Rightarrow> starts_with rest ''/''))
   \<longleftrightarrow> extends_at_boundary path p"
proof (cases "ends_with_char p (CHR ''/'')")
  case True
  then show ?thesis by (auto simp: extends_at_boundary_def starts_with_append)
next
  case False
  have "starts_with rest ''/'' \<longleftrightarrow> rest \<noteq> [] \<and> hd rest = CHR ''/''" for rest
    by (cases rest) (auto simp: starts_with_def)
  with False show ?thesis
    by (auto simp: extends_at_boundary_def strip_prefix_def starts_with_append)
qed

lemma set_join_segs: "set (join_segs segs) \<subseteq> insert (CHR ''/'') (\<Union>(set ` set segs))"
  by (auto simp: join_segs_def)

lemma join_segs_starts: "segs \<noteq> [] \<Longrightarrow> starts_with (join_segs segs) ''/''"
  by (cases segs) (simp_all add: join_segs_def starts_with_def)

lemma url_safe_slash: "url_safe (CHR ''/'')"
  by (simp add: url_safe_def)

lemma path_allowed_alt:
  "path_allowed path prefixes \<longleftrightarrow>
     starts_with path ''/'' \<and> (\<forall>c\<in>set path. url_safe c)
     \<and> (\<forall>s\<in>set (split_on (CHR ''/'') (drop 1 path)). s \<notin> {[], ''.'', ''..''})
     \<and> (\<exists>p\<in>set prefixes. extends_at_boundary path p)"
proof -
  have chars: "list_ex (\<lambda>c. c \<in> set ''?#%'' \<or> c = CHR 0x5C) path \<or> list_ex (\<lambda>c. (of_char c :: nat) < 0x21) path
    \<longleftrightarrow> \<not> (\<forall>c\<in>set path. url_safe c)"
    unfolding url_safe_def list_ex_iff not_less [symmetric] by blast
  have segs: "list_ex (\<lambda>seg. seg = [] \<or> seg = ''.'' \<or> seg = ''..'') segs
    \<longleftrightarrow> \<not> (\<forall>s\<in>set segs. s \<notin> {[], ''.'', ''..''})" for segs
    unfolding list_ex_iff by blast
  show ?thesis
    unfolding path_allowed_def prefix_admits list_ex_iff [of "extends_at_boundary path"] chars segs
    by (simp only: if_bool_eq_conj) blast
qed

lemma path_allowed_exact: "path_allowed path prefixes \<longleftrightarrow> under_allowlist prefixes path"
proof
  assume a: "path_allowed path prefixes"
  obtain rest where rest: "path = CHR ''/'' # rest"
    using a unfolding path_allowed_alt by (auto simp: starts_with_append)
  have "clean_segment s" if "s \<in> set (split_on (CHR ''/'') rest)" for s
    using a split_on_clean [OF that] that unfolding path_allowed_alt rest clean_segment_def
    by (simp add: subset_iff)
  then show "under_allowlist prefixes path"
    unfolding under_allowlist_def using a unfolding path_allowed_alt
    by (intro conjI exI [of _ "split_on (CHR ''/'') rest"]) (simp_all add: rest join_split_on list_all_iff)
next
  assume "under_allowlist prefixes path"
  then obtain segs where s: "segs \<noteq> []" "path = join_segs segs" "\<forall>s\<in>set segs. clean_segment s"
    and pre: "\<exists>p\<in>set prefixes. extends_at_boundary path p"
    by (auto simp: under_allowlist_def list_all_iff)
  have sp: "split_on (CHR ''/'') (drop 1 path) = segs"
    unfolding s(2) by (rule split_join_segs [OF s(1)]) (use s(3) in \<open>auto simp: clean_segment_def\<close>)
  have "\<forall>c\<in>set path. url_safe c"
    using set_join_segs [of segs] s(3) url_safe_slash unfolding s(2) clean_segment_def by blast
  moreover have "\<forall>s\<in>set segs. s \<notin> {[], ''.'', ''..''}"
    using s(3) unfolding clean_segment_def by blast
  ultimately show "path_allowed path prefixes"
    unfolding path_allowed_alt sp using pre join_segs_starts [OF s(1)] s(2) by blast
qed

lemma process_forwards:
  "(\<exists>e. process B Q UP r origin st body w = (Inl e, w))
   \<or> (\<exists>req path ppath resp w'. origin req w = (resp, w') \<and> snd (process B Q UP r origin st body w) = w'
        \<and> hq_method req \<in> {''GET'', ''POST''}
        \<and> UP (gc_origin_url st @ path) = Some (hq_url req, ppath)
        \<and> under_allowlist (gc_allowed_path_prefixes st) path
        \<and> under_allowlist (gc_allowed_path_prefixes st) ppath)"
proof (cases "\<exists>inner ctx msg req. ohttp_decapsulate Q (gc_secret st) body = Inr (inner, ctx)
    \<and> bh_read B inner = Some msg \<and> origin_request B UP st msg = Inr req")
  case False
  then have "\<exists>e. process B Q UP r origin st body w = (Inl e, w)"
    by (auto simp: process_def split: sum.splits option.splits)
  then show ?thesis by blast
next
  case True
  then obtain inner ctx msg req where d: "ohttp_decapsulate Q (gc_secret st) body = Inr (inner, ctx)"
    "bh_read B inner = Some msg" and req: "origin_request B UP st msg = Inr req" by blast
  obtain resp w' where o: "origin req w = (resp, w')" by fastforce
  have "snd (process B Q UP r origin st body w) = w'"
    using d req o by (auto simp: process_def split: option.splits)
  moreover obtain path ppath where "UP (gc_origin_url st @ path) = Some (hq_url req, ppath)"
    "path_allowed path (gc_allowed_path_prefixes st)" "path_allowed ppath (gc_allowed_path_prefixes st)"
    "hq_method req \<in> {''GET'', ''POST''}"
    using req by (auto simp: origin_request_def split: option.splits if_splits)
  ultimately show ?thesis
    using o unfolding path_allowed_exact by blast
qed

section \<open>Properties\<close>


end
