(* ===== verification/Core_Json.thy ===== *)
theory Core_Json
  imports Core_Wire "HOL-Library.Monad_Syntax"
begin

text \<open>
  The JSON form of the messages of \<open>proto.rs\<close>. A JSON value is a tree in which
  numbers keep their text and objects their pairs in order; the text syntax itself
  is serde\_json's, and base64 that of the base64 crate. What is written out here
  is what \<open>lluma-core\<close> says: which fields a message has, in which form, whether
  unknown fields are refused (\<open>deny_unknown_fields\<close>), and the hand-written
  \<open>b64_*\<close> modules. A struct is read, as serde's derive documents, from an object
  that has every field exactly once, or from an array of its fields in order.
\<close>

section \<open>Values\<close>

text \<open>\<open>serde_json::Value\<close> and its \<open>get\<close>; numbers keep their text.\<close>

datatype json = JNull | JBool bool | JNumber string | JString string | JArray "json list" | JObject "(string \<times> json) list"

definition json_get :: "string \<Rightarrow> json \<Rightarrow> json option" where
  "json_get k v = (case v of JObject kvs \<Rightarrow> map_of kvs k | _ \<Rightarrow> None)"

definition json_index :: "nat \<Rightarrow> json \<Rightarrow> json option" where
  "json_index i v = (case v of JArray xs \<Rightarrow> (if i < length xs then Some (xs ! i) else None) | _ \<Rightarrow> None)"

definition json_str :: "json \<Rightarrow> string option" where
  "json_str v = (case v of JString s \<Rightarrow> Some s | _ \<Rightarrow> None)"

text \<open>An unsigned integer: plain decimal digits within the width.\<close>

definition json_uint :: "nat \<Rightarrow> json \<Rightarrow> nat option" where
  "json_uint width v = (case v of JNumber s \<Rightarrow> if list_all is_decimal s then parse_uint width s else None | _ \<Rightarrow> None)"

section \<open>Fields\<close>

definition word_ser :: "'a::len word \<Rightarrow> json" where
  "word_ser w = JNumber (show_dec (unat w))"

definition word_de :: "json \<Rightarrow> 'a::len word option" where
  "word_de v = map_option of_nat (json_uint LENGTH('a) v)"

definition seq_ser :: "('a \<Rightarrow> json) \<Rightarrow> 'a list \<Rightarrow> json" where
  "seq_ser f xs = JArray (map f xs)"

definition seq_de :: "(json \<Rightarrow> 'a option) \<Rightarrow> json \<Rightarrow> 'a list option" where
  "seq_de f v = (case v of JArray xs \<Rightarrow> those (map f xs) | _ \<Rightarrow> None)"

text \<open>\<open>Vec<u8>\<close> and \<open>[u8; 32]\<close> without a helper are arrays of numbers.\<close>

definition bytes_ser :: "bytes \<Rightarrow> json" where
  "bytes_ser b = seq_ser word_ser b"

definition bytes_de :: "json \<Rightarrow> bytes option" where
  "bytes_de v = seq_de word_de v"

definition arr32_de :: "json \<Rightarrow> bytes option" where
  "arr32_de v = do { b \<leftarrow> bytes_de v; if length b = 32 then Some b else None }"

definition models_ser :: "ModelId list \<Rightarrow> json" where
  "models_ser ms = seq_ser JString ms"

definition models_de :: "json \<Rightarrow> ModelId list option" where
  "models_de v = seq_de json_str v"

text \<open>The base64 crate's standard engine.\<close>

record base64 =
  be_encode :: "bytes \<Rightarrow> string"
  be_decode :: "string \<Rightarrow> bytes option"

text \<open>The helper modules for one byte vector and for a list of them.\<close>

definition b64_ser :: "base64 \<Rightarrow> bytes \<Rightarrow> json" where
  "b64_ser C x = JString (be_encode C x)"

definition b64_de :: "base64 \<Rightarrow> json \<Rightarrow> bytes option" where
  "b64_de C v = do { st \<leftarrow> json_str v; be_decode C st }"

definition b64s_ser :: "base64 \<Rightarrow> bytes list \<Rightarrow> json" where
  "b64s_ser C xs = (let enc = map (be_encode C) xs in seq_ser JString enc)"

definition b64s_de :: "base64 \<Rightarrow> json \<Rightarrow> bytes list option" where
  "b64s_de C v = do { strs \<leftarrow> seq_de json_str v; those (map (be_decode C) strs) }"

text \<open>The values of a struct's fields.\<close>

definition struct_fields :: "bool \<Rightarrow> string list \<Rightarrow> json \<Rightarrow> json list option" where
  "struct_fields deny_unknown names v =
     (case v of
        JObject kvs \<Rightarrow>
          if deny_unknown \<and> \<not> list_all (\<lambda>(k, _). k \<in> set names) kvs then None
          else if list_all (\<lambda>n. count_list (map fst kvs) n = 1) names then those (map (map_of kvs) names)
          else None
      | JArray xs \<Rightarrow> if length xs = length names then Some xs else None
      | _ \<Rightarrow> None)"

section \<open>Signed bodies (wire.rs)\<close>

definition UsageReceiptBody_ser :: "UsageReceiptBody \<Rightarrow> json" where
  "UsageReceiptBody_ser x = JObject
     [(''version'', word_ser (ur_version x)), (''host_account'', bytes_ser (ur_host_account x)),
      (''model_id'', JString (ur_model_id x)), (''tier'', word_ser (ur_tier x)), (''units'', word_ser (ur_units x)),
      (''spend_id'', bytes_ser (ur_spend_id x)), (''epoch'', word_ser (ur_epoch x)),
      (''timestamp_h'', word_ser (ur_timestamp_h x))]"

definition UsageReceiptBody_de :: "json \<Rightarrow> UsageReceiptBody option" where
  "UsageReceiptBody_de v = do {
     f \<leftarrow> struct_fields False [''version'', ''host_account'', ''model_id'', ''tier'', ''units'', ''spend_id'', ''epoch'', ''timestamp_h''] v;
     version \<leftarrow> word_de (f ! 0); host_account \<leftarrow> arr32_de (f ! 1); model_id \<leftarrow> json_str (f ! 2); tier \<leftarrow> word_de (f ! 3);
     units \<leftarrow> word_de (f ! 4); spend_id \<leftarrow> arr32_de (f ! 5); epoch \<leftarrow> word_de (f ! 6); timestamp_h \<leftarrow> word_de (f ! 7);
     Some \<lparr>ur_version = version, ur_host_account = host_account, ur_model_id = model_id, ur_tier = tier, ur_units = units,
       ur_spend_id = spend_id, ur_epoch = epoch, ur_timestamp_h = timestamp_h\<rparr> }"

definition IssueRequestBody_ser :: "IssueRequestBody \<Rightarrow> json" where
  "IssueRequestBody_ser x = JObject
     [(''version'', word_ser (ib_version x)), (''account'', bytes_ser (ib_account x)), (''key_id'', bytes_ser (ib_key_id x)),
      (''request_id'', bytes_ser (ib_request_id x)), (''ts_unix_s'', word_ser (ib_ts_unix_s x)),
      (''blinded_batch_hash'', bytes_ser (ib_blinded_batch_hash x))]"

definition IssueRequestBody_de :: "json \<Rightarrow> IssueRequestBody option" where
  "IssueRequestBody_de v = do {
     f \<leftarrow> struct_fields False [''version'', ''account'', ''key_id'', ''request_id'', ''ts_unix_s'', ''blinded_batch_hash''] v;
     version \<leftarrow> word_de (f ! 0); account \<leftarrow> arr32_de (f ! 1); key_id \<leftarrow> arr32_de (f ! 2); request_id \<leftarrow> arr32_de (f ! 3);
     ts \<leftarrow> word_de (f ! 4); h \<leftarrow> arr32_de (f ! 5);
     Some \<lparr>ib_version = version, ib_account = account, ib_key_id = key_id, ib_request_id = request_id,
       ib_ts_unix_s = ts, ib_blinded_batch_hash = h\<rparr> }"

definition HostRegisterBody_ser :: "HostRegisterBody \<Rightarrow> json" where
  "HostRegisterBody_ser x = JObject
     [(''version'', word_ser (hr_version x)), (''host_account'', bytes_ser (hr_host_account x)),
      (''hpke_pk'', bytes_ser (hr_hpke_pk x)), (''ingress_addr'', JString (hr_ingress_addr x)),
      (''models'', models_ser (hr_models x))]"

definition HostRegisterBody_de :: "json \<Rightarrow> HostRegisterBody option" where
  "HostRegisterBody_de v = do {
     f \<leftarrow> struct_fields False [''version'', ''host_account'', ''hpke_pk'', ''ingress_addr'', ''models''] v;
     version \<leftarrow> word_de (f ! 0); host_account \<leftarrow> arr32_de (f ! 1); hpke_pk \<leftarrow> bytes_de (f ! 2);
     ingress_addr \<leftarrow> json_str (f ! 3); models \<leftarrow> models_de (f ! 4);
     Some \<lparr>hr_version = version, hr_host_account = host_account, hr_hpke_pk = hpke_pk, hr_ingress_addr = ingress_addr,
       hr_models = models\<rparr> }"

definition HeartbeatBody_ser :: "HeartbeatBody \<Rightarrow> json" where
  "HeartbeatBody_ser x = JObject
     [(''version'', word_ser (hb_version x)), (''host_account'', bytes_ser (hb_host_account x)),
      (''hb_counter'', word_ser (hb_hb_counter x)), (''load_bucket'', word_ser (hb_load_bucket x)),
      (''models'', models_ser (hb_models x))]"

definition HeartbeatBody_de :: "json \<Rightarrow> HeartbeatBody option" where
  "HeartbeatBody_de v = do {
     f \<leftarrow> struct_fields False [''version'', ''host_account'', ''hb_counter'', ''load_bucket'', ''models''] v;
     version \<leftarrow> word_de (f ! 0); host_account \<leftarrow> arr32_de (f ! 1); hb_counter \<leftarrow> word_de (f ! 2);
     load_bucket \<leftarrow> word_de (f ! 3); models \<leftarrow> models_de (f ! 4);
     Some \<lparr>hb_version = version, hb_host_account = host_account, hb_hb_counter = hb_counter, hb_load_bucket = load_bucket,
       hb_models = models\<rparr> }"

definition TrialRegisterBody_ser :: "TrialRegisterBody \<Rightarrow> json" where
  "TrialRegisterBody_ser x = JObject [(''version'', word_ser (tr_version x)), (''account'', bytes_ser (tr_account x))]"

definition TrialRegisterBody_de :: "json \<Rightarrow> TrialRegisterBody option" where
  "TrialRegisterBody_de v = do {
     f \<leftarrow> struct_fields False [''version'', ''account''] v; version \<leftarrow> word_de (f ! 0); account \<leftarrow> arr32_de (f ! 1);
     Some \<lparr>tr_version = version, tr_account = account\<rparr> }"

end
