(* ===== verification/Host.thy ===== *)
theory Host
  imports Gateway Core_Json
begin

text \<open>
  \<open>lluma-host\<close>: the serving path shared by dial-in and tunnel
  (\<open>lib.rs\<close>), the OpenAI-compatible upstream (\<open>openai.rs\<close>), registration
  and heartbeats (\<open>register.rs\<close>), the host's end of the reverse tunnel
  (\<open>tunnel.rs\<close>) and the start-up of the binary. JSON is a parameter; an
  upstream is a function from prompts to completions.
\<close>

section \<open>Serving (lib.rs)\<close>

datatype UpstreamError = UpTransport | UpStatus | UpDecode | UpBadPrompt | UpEncode

type_synonym upstream = "bytes \<Rightarrow> UpstreamError + bytes"

definition echo_complete :: "bytes \<Rightarrow> upstream" where
  "echo_complete sentinel prompt = Inr (sentinel @ prompt)"

datatype ServeError = SeSeal | SeUpstream | SeInternal

definition serve_sealed ::
  "('cs, 'cr) hpke_prims \<Rightarrow> bytes \<Rightarrow> HostSecretKey \<Rightarrow> SpendId \<Rightarrow> SealedRequest \<Rightarrow> upstream \<Rightarrow>
   ServeError + ExecResponse" where
  "serve_sealed H r host_sk spend_id sealed up =
     (case e2e_open H host_sk spend_id sealed of Inl _ \<Rightarrow> Inl SeSeal
      | Inr (prompt, reply_to) \<Rightarrow>
          (case up prompt of Inl _ \<Rightarrow> Inl SeUpstream
           | Inr answer \<Rightarrow>
               (case response_setup_host H r reply_to of Inl _ \<Rightarrow> Inl SeInternal
                | Inr (hctx, preamble) \<Rightarrow>
                    (case fst (response_seal_chunk H answer True hctx) of Inl _ \<Rightarrow> Inl SeInternal
                     | Inr chunk \<Rightarrow> Inr \<lparr>er_preamble = preamble, er_chunk = chunk\<rparr>))))"

record host_json =
  hj_parse_exec :: "bytes \<Rightarrow> HostExecRequest option"
  hj_exec_response :: "ExecResponse \<Rightarrow> bytes option"
  hj_error :: "string \<Rightarrow> bytes"

definition host_err :: "host_json \<Rightarrow> u16 \<Rightarrow> string \<Rightarrow> http_resp" where
  "host_err J status code =
     \<lparr>hs_status = status, hs_content_type = Some (ascii ''application/json''), hs_retry_after = None,
      hs_body = Some (hj_error J code)\<rparr>"

definition host_exec ::
  "('cs, 'cr) hpke_prims \<Rightarrow> host_json \<Rightarrow> bytes \<Rightarrow> HostSecretKey \<Rightarrow> upstream \<Rightarrow> bytes \<Rightarrow> http_resp" where
  "host_exec H J r host_sk up body =
     (case hj_parse_exec J body of None \<Rightarrow> host_err J 422 ''bad_request''
      | Some req \<Rightarrow>
          if \<not> is_ok (HostExecRequest_validate req) then host_err J 422 ''bad_request''
          else (case serve_sealed H r host_sk (he_spend_id req) (he_sealed req) up of
                  Inr resp \<Rightarrow>
                    (case hj_exec_response J resp of
                       Some b \<Rightarrow> \<lparr>hs_status = 200, hs_content_type = Some (ascii ''application/json''),
                                  hs_retry_after = None, hs_body = Some b\<rparr>
                     | None \<Rightarrow> host_err J 500 ''internal'')
                | Inl SeSeal \<Rightarrow> host_err J 422 ''seal_invalid''
                | Inl SeUpstream \<Rightarrow> host_err J 502 ''upstream''
                | Inl SeInternal \<Rightarrow> host_err J 500 ''internal''))"

section \<open>The OpenAI-compatible upstream (openai.rs)\<close>

record OpenAiUpstream =
  oa_base_url :: string
  oa_model :: string
  oa_api_key :: string

definition OpenAiUpstream_new :: "string \<Rightarrow> string \<Rightarrow> string \<Rightarrow> OpenAiUpstream" where
  "OpenAiUpstream_new base_url model api_key =
     \<lparr>oa_base_url = trim_end_matches (CHR ''/'') base_url, oa_model = model, oa_api_key = api_key\<rparr>"

definition non_empty :: "string option \<Rightarrow> string option" where
  "non_empty v = (case v of None \<Rightarrow> None | Some s \<Rightarrow> if trim s = [] then None else Some s)"

definition OpenAiUpstream_from_env :: "process_env \<Rightarrow> OpenAiUpstream option" where
  "OpenAiUpstream_from_env E =
     Option.bind (non_empty (pe_var E ''LLUMA_UPSTREAM_BASE_URL'')) (\<lambda>base_url.
     Option.bind (non_empty (pe_var E ''LLUMA_UPSTREAM_MODEL'')) (\<lambda>model.
     Option.bind (non_empty (pe_var E ''LLUMA_UPSTREAM_API_KEY'')) (\<lambda>api_key.
     Some (OpenAiUpstream_new base_url model api_key))))"

text \<open>
  \<open>post url authorization body\<close> is the HTTP call, \<open>enc\<close> and \<open>dec\<close> the JSON codec.
\<close>

definition openai_complete ::
  "(json \<Rightarrow> bytes option) \<Rightarrow> (bytes \<Rightarrow> json option) \<Rightarrow> (string \<Rightarrow> string \<Rightarrow> bytes \<Rightarrow> http_resp option) \<Rightarrow>
   OpenAiUpstream \<Rightarrow> upstream" where
  "openai_complete enc dec post u prompt =
     (case from_utf8 prompt of None \<Rightarrow> Inl UpBadPrompt
      | Some prompt_str \<Rightarrow>
          (case enc (JObject [(''model'', JString (oa_model u)),
                              (''messages'', JArray [JObject [(''role'', JString ''user''), (''content'', JString prompt_str)]])]) of
             None \<Rightarrow> Inl UpEncode
           | Some b \<Rightarrow>
               (case post (oa_base_url u @ ''/chat/completions'') (''Bearer '' @ oa_api_key u) b of
                  None \<Rightarrow> Inl UpTransport
                | Some resp \<Rightarrow>
                    if \<not> is_success (hs_status resp) then Inl UpStatus
                    else (case hs_body resp of None \<Rightarrow> Inl UpTransport
                          | Some rb \<Rightarrow>
                              (case dec rb of None \<Rightarrow> Inl UpDecode
                               | Some v \<Rightarrow>
                                   (case Option.bind (json_get ''choices'' v) (\<lambda>c.
                                         Option.bind (json_index 0 c) (\<lambda>c.
                                         Option.bind (json_get ''message'' c) (\<lambda>m.
                                         Option.bind (json_get ''content'' m) json_str))) of
                                      None \<Rightarrow> Inl UpDecode
                                    | Some content \<Rightarrow> Inr (ascii content)))))))"

section \<open>Registration and heartbeats (register.rs)\<close>

definition HOST_TUNNEL_SENTINEL_ADDR :: string where
  "HOST_TUNNEL_SENTINEL_ADDR = ''https://tunnel.invalid''"

record RegisterConfig =
  rg_broker_ingress :: string
  rg_epoch_salt :: bytes
  rg_pow_difficulty :: u32
  rg_heartbeat_interval_s :: u64
  rg_models :: "ModelId list"

datatype RegisterError = Sign | Transport | Rejected u16

definition post :: "'w http \<Rightarrow> string \<Rightarrow> string \<Rightarrow> bytes \<Rightarrow> 'w \<Rightarrow> (RegisterError + unit) \<times> 'w" where
  "post send base path body w =
     (case send \<lparr>hq_method = ''POST'', hq_url = trim_end_matches (CHR ''/'') base @ path,
                 hq_content_type = Some (ascii ''application/json''), hq_body = body\<rparr> w of
        (None, w') \<Rightarrow> (Inl Transport, w')
      | (Some resp, w') \<Rightarrow>
          if 200 \<le> hs_status resp \<and> hs_status resp < 300 then (Inr (), w')
          else (Inl (Rejected (hs_status resp)), w'))"

text \<open>The request \<open>register\<close> sends; no result when the proof-of-work search does not end.\<close>

definition register_request ::
  "prims \<Rightarrow> RegisterConfig \<Rightarrow> AccountSecretKey \<Rightarrow> bytes \<Rightarrow> bytes \<Rightarrow> (RegisterError + HostRegisterRequest) option" where
  "register_request P cfg account_sk host_account hpke_pk =
     (let body = \<lparr>hr_version = 1, hr_host_account = host_account, hr_hpke_pk = hpke_pk,
                  hr_ingress_addr = HOST_TUNNEL_SENTINEL_ADDR, hr_models = rg_models cfg\<rparr> in
      case host_register_sign P account_sk body of Inl _ \<Rightarrow> Some (Inl Sign)
      | Inr sig \<Rightarrow>
          (case pow_solve P POW_HOST_DOMAIN host_account (rg_epoch_salt cfg) (rg_pow_difficulty cfg) of
             None \<Rightarrow> None
           | Some nonce \<Rightarrow> Some (Inr \<lparr>hrr_body = body, hrr_sig = sig, hrr_pow_nonce = nonce\<rparr>)))"

definition post_register ::
  "prims \<Rightarrow> (HostRegisterRequest \<Rightarrow> bytes option) \<Rightarrow> 'w http \<Rightarrow> RegisterConfig \<Rightarrow> AccountSecretKey \<Rightarrow> bytes \<Rightarrow> bytes \<Rightarrow>
   'w \<Rightarrow> ((RegisterError + unit) \<times> 'w) option" where
  "post_register P enc send cfg account_sk host_account hpke_pk w =
     (case register_request P cfg account_sk host_account hpke_pk of None \<Rightarrow> None
      | Some (Inl e) \<Rightarrow> Some (Inl e, w)
      | Some (Inr req) \<Rightarrow>
          (case enc req of None \<Rightarrow> Some (Inl Sign, w)
           | Some b \<Rightarrow> Some (post send (rg_broker_ingress cfg) ''/v1/host/register'' b w)))"

definition heartbeat_request ::
  "prims \<Rightarrow> RegisterConfig \<Rightarrow> AccountSecretKey \<Rightarrow> bytes \<Rightarrow> u64 \<Rightarrow> RegisterError + HeartbeatRequest" where
  "heartbeat_request P cfg account_sk host_account hb_counter =
     (let body = \<lparr>hb_version = 1, hb_host_account = host_account, hb_hb_counter = hb_counter,
                  hb_load_bucket = 0, hb_models = rg_models cfg\<rparr> in
      case heartbeat_sign P account_sk body of Inl _ \<Rightarrow> Inl Sign
      | Inr sig \<Rightarrow> Inr \<lparr>hbr_body = body, hbr_sig = sig\<rparr>)"

definition post_heartbeat ::
  "prims \<Rightarrow> (HeartbeatRequest \<Rightarrow> bytes option) \<Rightarrow> 'w http \<Rightarrow> RegisterConfig \<Rightarrow> AccountSecretKey \<Rightarrow> bytes \<Rightarrow> u64 \<Rightarrow>
   'w \<Rightarrow> (RegisterError + unit) \<times> 'w" where
  "post_heartbeat P enc send cfg account_sk host_account hb_counter w =
     (case heartbeat_request P cfg account_sk host_account hb_counter of Inl e \<Rightarrow> (Inl e, w)
      | Inr req \<Rightarrow>
          (case enc req of None \<Rightarrow> (Inl Sign, w)
           | Some b \<Rightarrow> post send (rg_broker_ingress cfg) ''/v1/heartbeat'' b w))"

section \<open>The tunnel (tunnel.rs)\<close>

record TunnelConfig =
  tc_url :: string
  tc_host_account :: bytes
  tc_account_sk :: AccountSecretKey
  tc_broker_key_id :: bytes

datatype TunnelError = TeConnect | TeAuth | TeProtocol | TeSign

text \<open>
  A socket as the host sees it: the messages that arrive, in order, then
  silence (\<open>stalls\<close>, until a timeout strikes) or the end of the stream.
\<close>

record host_ws =
  hw_connects :: bool
  hw_sends :: bool
  hw_incoming :: "ws_message list"
  hw_stalls :: bool

record frame_json =
  fj_to_string :: "TunnelFrame \<Rightarrow> bytes option"
  fj_from_str :: "bytes \<Rightarrow> TunnelFrame option"

definition ws_send :: "frame_json \<Rightarrow> bool \<Rightarrow> TunnelFrame \<Rightarrow> TunnelError + bytes" where
  "ws_send J sends f =
     (case fj_to_string J f of None \<Rightarrow> Inl TeProtocol
      | Some s \<Rightarrow> if sends then Inr s else Inl TeProtocol)"

text \<open>On silence the enclosing timeout answers \<open>Auth\<close>; the end of the stream is a protocol error.\<close>

fun ws_recv :: "frame_json \<Rightarrow> bool \<Rightarrow> ws_message list \<Rightarrow> TunnelError + (TunnelFrame \<times> ws_message list)" where
  "ws_recv J stalls [] = Inl (if stalls then TeAuth else TeProtocol)"
| "ws_recv J stalls (m # ms) =
     (case m of
        Text t \<Rightarrow> (case fj_from_str J t of None \<Rightarrow> Inl TeProtocol | Some f \<Rightarrow> Inr (f, ms))
      | Ping \<Rightarrow> ws_recv J stalls ms
      | Pong \<Rightarrow> ws_recv J stalls ms
      | _ \<Rightarrow> Inl TeProtocol)"

text \<open>The handshake: the texts the host sent, and what remains to be read.\<close>

definition host_handshake ::
  "prims \<Rightarrow> frame_json \<Rightarrow> TunnelConfig \<Rightarrow> host_ws \<Rightarrow> (TunnelError + ws_message list) \<times> bytes list" where
  "host_handshake P J cfg ws =
     (case ws_send J (hw_sends ws) (Hello 1 (tc_host_account cfg)) of Inl e \<Rightarrow> (Inl e, [])
      | Inr hello \<Rightarrow>
          (case ws_recv J (hw_stalls ws) (hw_incoming ws) of Inl e \<Rightarrow> (Inl e, [hello])
           | Inr (Challenge v challenge, rest) \<Rightarrow>
               if v \<noteq> 1 then (Inl TeAuth, [hello])
               else (case tunnel_auth_sign P (tc_account_sk cfg) challenge (tc_host_account cfg) (tc_broker_key_id cfg) of
                       Inl _ \<Rightarrow> (Inl TeSign, [hello])
                     | Inr sig \<Rightarrow>
                         (case ws_send J (hw_sends ws) (Auth 1 sig) of Inl e \<Rightarrow> (Inl e, [hello])
                          | Inr auth \<Rightarrow>
                              (case ws_recv J (hw_stalls ws) rest of
                                 Inr (AuthOk v', rest') \<Rightarrow>
                                   (if v' = 1 then Inr rest' else Inl TeAuth, [hello, auth])
                               | Inr _ \<Rightarrow> (Inl TeAuth, [hello, auth])
                               | Inl e \<Rightarrow> (Inl e, [hello, auth]))))
           | Inr _ \<Rightarrow> (Inl TeAuth, [hello])))"

text \<open>What one job task sends back.\<close>

definition job_reply ::
  "('cs, 'cr) hpke_prims \<Rightarrow> bytes \<Rightarrow> HostSecretKey \<Rightarrow> upstream \<Rightarrow> u64 \<Rightarrow> SpendId \<Rightarrow> SealedRequest \<Rightarrow> TunnelFrame" where
  "job_reply H r host_sk up request_id spend_id sealed =
     (case serve_sealed H r host_sk spend_id sealed up of
        Inr resp \<Rightarrow> TunnelFrame.Done 1 request_id (er_preamble resp) (er_chunk resp)
      | Inl _ \<Rightarrow> Fail 1 request_id)"

text \<open>
  The read loop: the answers its tasks hand to the writer, in the order the
  jobs arrived (the tasks run concurrently, so the writer may see another
  order). \<open>r\<close> gives the random bytes of each job by its position.
\<close>

fun serve_jobs ::
  "('cs, 'cr) hpke_prims \<Rightarrow> frame_json \<Rightarrow> (nat \<Rightarrow> bytes) \<Rightarrow> HostSecretKey \<Rightarrow> upstream \<Rightarrow> nat \<Rightarrow> ws_message list \<Rightarrow>
   ws_message list" where
  "serve_jobs H J r host_sk up n [] = []"
| "serve_jobs H J r host_sk up n (m # ms) =
     (case m of
        Text t \<Rightarrow>
          (case fj_from_str J t of
             Some (Job v request_id spend_id sealed) \<Rightarrow>
               (if v = 1
                then (case fj_to_string J (job_reply H (r n) host_sk up request_id spend_id sealed) of
                        Some s \<Rightarrow> Text s # serve_jobs H J r host_sk up (Suc n) ms
                      | None \<Rightarrow> serve_jobs H J r host_sk up (Suc n) ms)
                else serve_jobs H J r host_sk up (Suc n) ms)
           | _ \<Rightarrow> serve_jobs H J r host_sk up (Suc n) ms)
      | Ping \<Rightarrow> Pong # serve_jobs H J r host_sk up (Suc n) ms
      | Close \<Rightarrow> []
      | RecvError \<Rightarrow> []
      | _ \<Rightarrow> serve_jobs H J r host_sk up (Suc n) ms)"

definition serve_once ::
  "prims \<Rightarrow> ('cs, 'cr) hpke_prims \<Rightarrow> frame_json \<Rightarrow> (nat \<Rightarrow> bytes) \<Rightarrow> TunnelConfig \<Rightarrow> HostSecretKey \<Rightarrow> upstream \<Rightarrow>
   host_ws \<Rightarrow> (TunnelError + unit) \<times> ws_message list" where
  "serve_once P H J r cfg host_sk up ws =
     (if \<not> hw_connects ws then (Inl TeConnect, [])
      else case host_handshake P J cfg ws of
             (Inl e, sent) \<Rightarrow> (Inl e, map Text sent)
           | (Inr rest, sent) \<Rightarrow> (Inr (), map Text sent @ serve_jobs H J r host_sk up 0 rest))"

text \<open>One turn of \<open>run\<close>'s loop: the milliseconds slept, and the next backoff.\<close>

definition run_turn :: "bool \<Rightarrow> u32 \<Rightarrow> u64 \<Rightarrow> u64 \<times> u64" where
  "run_turn served_ok rnd backoff_s =
     (let b = (if served_ok then 1 else backoff_s) in
      (b * 1000 + ucast (rnd mod 1000), min (b * 2) 30))"

section \<open>Start-up (main.rs)\<close>

record host_ext =
  hx_b64 :: "string \<Rightarrow> string + bytes"
  hx_url :: url_parser

definition b64d :: "host_ext \<Rightarrow> string \<Rightarrow> string + bytes" where
  "b64d X s = (case hx_b64 X (trim s) of Inl e \<Rightarrow> Inl (''bad base64: '' @ e) | Inr b \<Rightarrow> Inr b)"

definition env_b32 :: "host_ext \<Rightarrow> process_env \<Rightarrow> string \<Rightarrow> string + bytes" where
  "env_b32 X E k =
     bind_sum (env E k) (\<lambda>v.
     bind_sum (b64d X v) (\<lambda>b.
     if length b = 32 then Inr b else Inl (k @ '' must be 32 bytes (base64)'')))"

datatype upstream_choice = UseOpenAi OpenAiUpstream | UseEcho bytes

definition build_upstream :: "process_env \<Rightarrow> upstream_choice" where
  "build_upstream E =
     (let base = env_or E ''LLUMA_OPENAI_BASE'' [] in
      if trim base \<noteq> []
      then UseOpenAi (OpenAiUpstream_new base (env_or E ''LLUMA_OPENAI_MODEL'' []) (env_or E ''LLUMA_OPENAI_API_KEY'' []))
      else UseEcho (ascii (env_or E ''LLUMA_HOST_SENTINEL'' ''ANSWER: '')))"

definition tunnel_url_check :: "host_ext \<Rightarrow> process_env \<Rightarrow> string \<Rightarrow> string + unit" where
  "tunnel_url_check X E tunnel_url =
     (case hx_url X tunnel_url of None \<Rightarrow> Inl ''LLUMA_TUNNEL_URL is not a valid URL''
      | Some (scheme, host) \<Rightarrow>
          let is_loopback = (host \<in> Some ` {''127.0.0.1'', ''localhost'', ''::1'', ''[::1]''});
              insecure_ok = (pe_var E ''LLUMA_TUNNEL_INSECURE_WS'' = Some ''1'' \<or> is_loopback) in
          if scheme = ''wss'' \<or> scheme = ''ws'' \<and> insecure_ok then Inr ()
          else Inl ''LLUMA_TUNNEL_URL must be wss:// (set LLUMA_TUNNEL_INSECURE_WS=1 only for loopback tests)'')"

text \<open>A parsed environment value, or its default when it is absent or malformed.\<close>

definition parsed_or :: "process_env \<Rightarrow> string \<Rightarrow> nat \<Rightarrow> nat \<Rightarrow> nat" where
  "parsed_or E k width d =
     (case pe_var E k of None \<Rightarrow> d | Some s \<Rightarrow> (case parse_uint width s of None \<Rightarrow> d | Some n \<Rightarrow> n))"

datatype host_mode = TunnelMode RegisterConfig TunnelConfig | DialIn string

text \<open>What \<open>main\<close> sets up before it talks to anyone; \<open>entropy\<close> is what the RNG draws for the account.\<close>

definition host_main ::
  "prims \<Rightarrow> seed_prims \<Rightarrow> host_ext \<Rightarrow> process_env \<Rightarrow> bytes \<Rightarrow> string + host_mode" where
  "host_main P D X E entropy =
     (let tunnel_url = env_or E ''LLUMA_TUNNEL_URL'' [] in
      if trim tunnel_url = [] then Inr (DialIn (env_or E ''LLUMA_HOST_BIND'' ''127.0.0.1:8783''))
      else
        bind_sum (tunnel_url_check X E tunnel_url) (\<lambda>_.
        bind_sum (ok_or (pe_var E ''LLUMA_BROKER_INGRESS'') ''missing LLUMA_BROKER_INGRESS'') (\<lambda>broker_ingress.
        bind_sum (env_b32 X E ''LLUMA_REGISTRY_PK_B64'') (\<lambda>broker_key_id.
        bind_sum (env_b32 X E ''LLUMA_EPOCH_SALT_B64'') (\<lambda>epoch_salt.
        case bind_sum (account_mnemonic_new entropy) (derive_keypair_from_seed P D) of
          Inl _ \<Rightarrow> Inl ''crypto''
        | Inr (account_sk, account_pk) \<Rightarrow>
            if length account_pk \<noteq> 32 then Inl ''account pubkey must be 32 bytes''
            else Inr (TunnelMode
              \<lparr>rg_broker_ingress = broker_ingress, rg_epoch_salt = epoch_salt,
               rg_pow_difficulty = of_nat (parsed_or E ''LLUMA_POW_DIFFICULTY'' 32 20),
               rg_heartbeat_interval_s = of_nat (parsed_or E ''LLUMA_HEARTBEAT_INTERVAL_S'' 64 30),
               rg_models = [env_or E ''LLUMA_MODEL_ID'' ''echo'']\<rparr>
              \<lparr>tc_url = tunnel_url, tc_host_account = account_pk, tc_account_sk = account_sk,
               tc_broker_key_id = broker_key_id\<rparr>))))))"

text \<open>
  One turn of the heartbeat loop: after the third failure in a row the host
  registers again. The result is the new failure count and whether it re-registers.
\<close>

definition hb_turn :: "bool \<Rightarrow> u32 \<Rightarrow> u32 \<times> bool" where
  "hb_turn beat_ok fails =
     (if beat_ok then (0, False)
      else let fails' = fails + 1 in if 3 \<le> fails' then (0, True) else (fails', False))"

section \<open>Serving\<close>

lemma e2e_open_other_aad:
  assumes H: "hpke_correct H linked" "hpke_in_order H linked" and keys: "host_keygen H r0 = Inr (sk, pk)"
    and "e2e_seal H r pk aad prompt reply = Inr sealed" and "aad' \<noteq> aad"
  shows "e2e_open H sk aad' sealed = Inl AuthFailed"
proof -
  obtain k enc cs ct cs' where len: "length reply = 32" and k: "kem_pk_from_bytes H pk = Inr k"
    and s: "hpke_setup_sender H r k INFO = Inr (enc, cs)"
    and c: "hpke_seal H (reply @ prompt) aad cs = (Inr ct, cs')" and out: "sealed = enc @ ct"
    using e2e_seal_parts [OF assms(4)] by blast
  have g: "kem_gen_keypair H r0 = (sk, pk)"
    using keys by (simp add: host_keygen_def split: prod.splits)
  have k2: "k = pk" "kem_sk_from_bytes H sk = Inr sk"
    using H(1) g k by (auto simp: hpke_correct_def)
  obtain cr where enc: "length enc = kem_enc_size H" "kem_enc_from_bytes H enc = Inr enc"
    and cr: "hpke_setup_receiver H sk enc INFO = Inr cr" "linked cs cr"
    using H(1) g s unfolding k2 hpke_correct_def by blast
  have ct: "length (reply @ prompt) \<le> length ct"
    using H(1) cr(2) c unfolding hpke_correct_def by blast
  have "hpke_seals H [(reply @ prompt, aad)] cs = Some [ct]"
    using c by simp
  then have "fst (hpke_open H ct aad' cr) \<noteq> Inr p" for p
    using H(2) [unfolded hpke_in_order_def, rule_format, of cs cr "[(reply @ prompt, aad)]" "[ct]" 0 0 aad' p]
      cr(2) assms(5) by auto
  then obtain e where "fst (hpke_open H ct aad' cr) = Inl e"
    by (cases "fst (hpke_open H ct aad' cr)") auto
  then show ?thesis
    using len ct by (simp add: e2e_open_def out enc kem_sk_def k2 cr(1))
qed

lemma serve_sealed_opens:
  assumes H: "hpke_correct H linked"
    and host: "host_keygen H r0 = Inr (sk, pk)" and session: "session_keygen H r1 = Inr (ssk, spk)"
    and sealed: "e2e_seal H r pk spend prompt spk = Inr sealed"
    and served: "serve_sealed H r2 sk spend sealed up = Inr resp"
  shows "\<exists>answer cr. up prompt = Inr answer \<and> response_setup_client H ssk (er_preamble resp) = Inr cr
    \<and> fst (response_open_chunk H (er_chunk resp) cr) = Inr (answer, True)"
proof -
  have o: "e2e_open H sk spend sealed = Inr (prompt, spk)"
    by (rule e2e_open_seal [OF H host sealed])
  obtain answer hctx where up: "up prompt = Inr answer"
    and s: "response_setup_host H r2 spk = Inr (hctx, er_preamble resp)"
    and c: "fst (response_seal_chunk H answer True hctx) = Inr (er_chunk resp)"
    using served by (auto simp: serve_sealed_def o split: sum.splits)
  obtain cr where cr: "response_setup_client H ssk (er_preamble resp) = Inr cr" "linked hctx cr"
    using response_setup_linked [OF H session s] by blast
  obtain hctx' where "response_seal_chunk H answer True hctx = (Inr (er_chunk resp), hctx')"
    using c by (metis prod.collapse)
  then obtain cr' where "response_open_chunk H (er_chunk resp) cr = (Inr (answer, True), cr')"
    using response_open_seal [OF H cr(2)] by blast
  then show ?thesis using up cr(1) by auto
qed

section \<open>Joining\<close>

lemma sentinel_agrees: "HOST_TUNNEL_SENTINEL_ADDR = TUNNEL_SENTINEL_ADDR"
  by (simp add: HOST_TUNNEL_SENTINEL_ADDR_def TUNNEL_SENTINEL_ADDR_def)

text \<open>The request the host builds is one the broker's registry accepts.\<close>

lemma register_request_parts:
  assumes "register_request P rcfg sk acct hpke_pk = Some (Inr req)"
  obtains sig nonce where "req = \<lparr>hrr_body = \<lparr>hr_version = 1, hr_host_account = acct, hr_hpke_pk = hpke_pk,
                  hr_ingress_addr = HOST_TUNNEL_SENTINEL_ADDR, hr_models = rg_models rcfg\<rparr>,
                  hrr_sig = sig, hrr_pow_nonce = nonce\<rparr>"
    and "host_register_sign P sk (hrr_body req) = Inr sig"
    and "pow_verify P POW_HOST_DOMAIN acct nonce (rg_epoch_salt rcfg) (rg_pow_difficulty rcfg)"
    and "length nonce = 8"
  using assms
  by (auto simp: register_request_def Let_def pow_solve_def dest: pow_scan_sound split: sum.splits option.splits)

lemma register_request_accepted:
  assumes "ed_correct P sk" and "account_public_from_secret P sk = Inr acct"
    and "register_request P rcfg sk acct hpke_pk = Some (Inr req)" and "hpke_pk \<noteq> []"
    and "rg_epoch_salt rcfg = cfg_epoch_salt bcfg" and "cfg_pow_difficulty bcfg \<le> rg_pow_difficulty rcfg"
    and "ingress_addr_ok UP TUNNEL_SENTINEL_ADDR (cfg_allow_loopback_ingress bcfg)"
  shows "\<exists>out st'. register P UP ok_faults req bcfg now st = (Inr out, st') \<and> out \<in> {Registered, Updated}
    \<and> tbl_get (HOSTS st') acct \<noteq> None"
proof -
  obtain sig nonce where req: "req = \<lparr>hrr_body = \<lparr>hr_version = 1, hr_host_account = acct, hr_hpke_pk = hpke_pk,
                  hr_ingress_addr = HOST_TUNNEL_SENTINEL_ADDR, hr_models = rg_models rcfg\<rparr>,
                  hrr_sig = sig, hrr_pow_nonce = nonce\<rparr>"
    and sig: "host_register_sign P sk (hrr_body req) = Inr sig"
    and pow: "pow_verify P POW_HOST_DOMAIN acct nonce (rg_epoch_salt rcfg) (rg_pow_difficulty rcfg)" "length nonce = 8"
    using register_request_parts [OF assms(3)] by blast
  have v: "host_register_verify P acct (hrr_body req) sig = Inr ()"
    using sign_msg_verify [OF assms(1,2)] sig by (simp add: host_register_sign_def host_register_verify_def)
  then have len: "length sig = 64"
    by (auto simp: host_register_verify_def verify_msg_Inr)
  have hp: "host_pow_ok P bcfg acct nonce"
    using pow(1) assms(5,6) by (auto simp: host_pow_ok_def pow_verify_def word_le_nat_alt)
  have "HostRegisterRequest_validate req = Inr ()"
    using len pow(2) assms(4) by (simp add: req HostRegisterRequest_validate_def HOST_TUNNEL_SENTINEL_ADDR_def)
  then have "register P UP ok_faults req bcfg now st = with_write ok_faults (register_txn (hrr_body req) now) st"
    using v hp pow(2) assms(7) by (simp add: register_def req sentinel_agrees)
  then show ?thesis
    by (auto simp: req with_write_def register_txn_def txn_defs ok_faults_def split: option.splits)
qed

text \<open>The two ends of the handshake complete each other.\<close>

definition frames_agree :: "frame_json \<Rightarrow> bool" where
  "frames_agree J \<longleftrightarrow> (\<forall>f s. fj_to_string J f = Some s \<longrightarrow> fj_from_str J s = Some f)"

lemma handshake_meets:
  assumes J: "frames_agree J" and "ed_correct P (tc_account_sk cfg)"
    and "account_public_from_secret P (tc_account_sk cfg) = Inr (tc_host_account cfg)"
    and "fj_to_string J (Challenge 1 challenge) = Some chal" and "fj_to_string J (AuthOk 1) = Some ack"
    and "fj_to_string J (Hello 1 (tc_host_account cfg)) = Some hello" and "length hello \<le> MAX_HANDSHAKE_BYTES"
    and auths: "\<forall>sig. length sig = 64 \<longrightarrow>
           (\<exists>auth. fj_to_string J (Auth 1 sig) = Some auth \<and> length auth \<le> MAX_HANDSHAKE_BYTES)"
    and "hw_sends ws" and "hw_incoming ws = Text chal # Text ack # rest"
    and "tbl_get (HOSTS st) (tc_host_account cfg) \<noteq> None"
  shows "\<exists>sent. host_handshake P J cfg ws = (Inr rest, sent)
    \<and> handshake P (fj_from_str J) ok_faults (tc_broker_key_id cfg) challenge True (map Text sent) st
        = Some (tc_host_account cfg)"
proof -
  have "length (tc_account_sk cfg) = 32"
    using assms(3) by (auto simp: account_public_from_secret_def signing_key_def split: if_splits)
  then obtain sig where sig:
    "tunnel_auth_sign P (tc_account_sk cfg) challenge (tc_host_account cfg) (tc_broker_key_id cfg) = Inr sig"
    by (simp add: tunnel_auth_sign_def sign_msg_def signing_key_def)
  then have v: "tunnel_auth_verify P (tc_host_account cfg) challenge (tc_host_account cfg) (tc_broker_key_id cfg) sig = Inr ()"
    using sign_msg_verify [OF assms(2,3)] by (simp add: tunnel_auth_sign_def tunnel_auth_verify_def)
  then have "length sig = 64"
    by (auto simp: tunnel_auth_verify_def verify_msg_Inr)
  then obtain auth where auth: "fj_to_string J (Auth 1 sig) = Some auth" "length auth \<le> MAX_HANDSHAKE_BYTES"
    using auths by blast
  have got: "fj_from_str J chal = Some (Challenge 1 challenge)" "fj_from_str J ack = Some (AuthOk 1)"
    "fj_from_str J hello = Some (Hello 1 (tc_host_account cfg))" "fj_from_str J auth = Some (Auth 1 sig)"
    using J assms(4-6) auth(1) by (auto simp: frames_agree_def)
  have "host_handshake P J cfg ws = (Inr rest, [hello, auth])"
    using assms(6,9,10) sig auth(1) got by (simp add: host_handshake_def ws_send_def)
  moreover have "account_registered ok_faults (tc_host_account cfg) st"
    using assms(11) by (auto simp: account_registered_def with_read_def txn_defs ok_faults_def)
  then have "handshake P (fj_from_str J) ok_faults (tc_broker_key_id cfg) challenge True (map Text [hello, auth]) st
      = Some (tc_host_account cfg)"
    using assms(7) auth(2) got v by (simp add: handshake_def)
  ultimately show ?thesis by blast
qed

section \<open>The reconnect backoff\<close>

lemma run_turn_bounds:
  assumes "1 \<le> b" and "b \<le> 30" and "run_turn ok rnd b = (ms, b')"
  shows "1 \<le> b' \<and> b' \<le> 30 \<and> 1000 \<le> ms \<and> ms < 31000"
proof -
  define c where "c = (if ok then 1 else b)"
  have c: "1 \<le> c" "c \<le> 30" using assms(1,2) by (auto simp: c_def)
  have r: "ms = c * 1000 + ucast (rnd mod 1000)" "b' = min (c * 2) 30"
    using assms(3) by (simp_all add: run_turn_def c_def Let_def)
  have "unat c \<le> 30" "1 \<le> unat c" using c by (simp_all add: word_le_nat_alt)
  moreover have j: "unat (ucast (rnd mod 1000) :: u64) < 1000"
  proof -
    have "unat (ucast (rnd mod 1000) :: u64) = take_bit 64 (unat (rnd mod 1000))"
      by (simp add: unsigned_ucast_eq)
    also have "\<dots> \<le> unat (rnd mod 1000)"
      by (rule take_bit_nat_less_eq_self)
    also have "\<dots> < 1000"
      by (simp add: unat_mod)
    finally show ?thesis .
  qed
  ultimately have "unat (c * 1000) = unat c * 1000" "unat (c * 2) = unat c * 2"
    and "unat ms = unat c * 1000 + unat (ucast (rnd mod 1000) :: u64)"
    by (simp_all add: r unat_word_ariths)
  with j \<open>unat c \<le> 30\<close> \<open>1 \<le> unat c\<close> show ?thesis
    by (auto simp: r word_le_nat_alt word_less_nat_alt min_def)
qed

section \<open>A concrete instance\<close>

definition demo_frames :: frame_json where
  "demo_frames = \<lparr>
     fj_to_string = (\<lambda>f. case f of Hello v a \<Rightarrow> if v = 1 then Some (1 # a) else None
        | Auth v a \<Rightarrow> if v = 1 then Some (2 # a) else None
        | Challenge v a \<Rightarrow> if v = 1 then Some (3 # a) else None
        | AuthOk v \<Rightarrow> if v = 1 then Some [4] else None | _ \<Rightarrow> None),
     fj_from_str = (\<lambda>s. case s of [] \<Rightarrow> None
        | t # a \<Rightarrow> if t = 1 then Some (Hello 1 a) else if t = 2 then Some (Auth 1 a)
                    else if t = 3 then Some (Challenge 1 a) else if t = 4 then Some (AuthOk 1) else None) \<rparr>"

lemma demo_frames_agree: "frames_agree demo_frames"
  by (auto simp: frames_agree_def demo_frames_def split: TunnelFrame.splits if_splits)

definition demo_rcfg :: RegisterConfig where
  "demo_rcfg = \<lparr>rg_broker_ingress = ''https://b'', rg_epoch_salt = replicate 32 7, rg_pow_difficulty = 0,
     rg_heartbeat_interval_s = 30, rg_models = []\<rparr>"

definition demo_tcfg :: TunnelConfig where
  "demo_tcfg = \<lparr>tc_url = ''wss://b'', tc_host_account = replicate 32 4, tc_account_sk = replicate 32 4,
     tc_broker_key_id = [8]\<rparr>"

definition demo_ws :: host_ws where
  "demo_ws = \<lparr>hw_connects = True, hw_sends = True, hw_incoming = [Text (3 # [9]), Text [4], Ping], hw_stalls = False\<rparr>"

definition demo_bcfg :: BrokerConfig where
  "demo_bcfg = BrokerConfig_default\<lparr>cfg_pow_difficulty := 0, cfg_epoch_salt := replicate 32 7\<rparr>"

definition demo_register_request :: HostRegisterRequest where
  "demo_register_request =
     \<lparr>hrr_body = \<lparr>hr_version = 1, hr_host_account = replicate 32 4, hr_hpke_pk = [5],
                  hr_ingress_addr = HOST_TUNNEL_SENTINEL_ADDR, hr_models = []\<rparr>,
      hrr_sig = demo_sig (replicate 32 4) (HOST_REGISTER_DOMAIN @ replicate 32 4 @ [5]),
      hrr_pow_nonce = replicate 8 0\<rparr>"

lemma demo_name_not_ip: "parse_ip ''tunnel.invalid'' = None"
proof -
  let ?s = "''tunnel.invalid''"
  have d: "digit_val 10 (CHR ''t'') = None" "digit_val 16 (CHR ''t'') = None"
    by (simp_all add: digit_val_def)
  have n: "read_number 10 3 False 256 ?s = None" "read_number 16 4 True 65536 ?s = None"
    by (simp_all add: read_number_def d)
  have v4: "read_ipv4_addr ?s = None"
    using read_octets.simps(2) [of 0 3 ?s] by (simp add: read_ipv4_addr_def read_separator_def n)
  have "read_groups 0 8 ?s = ([], False, ?s)"
    using read_groups.simps(2) [of 0 7 ?s] by (simp add: read_separator_def n v4)
  then have "read_ipv6_addr ?s = None"
    by (simp add: read_ipv6_addr_def read_given_char_def)
  with v4 show ?thesis by (simp add: parse_ip_def)
qed

section \<open>Properties\<close>

text \<open>
  C19: a host joins. The registration a tunnel host builds, with the broker's
  salt and at least its difficulty, is accepted and leaves a row for its
  account, new or refreshed; and on a connection whose broker answers with a
  challenge and an acknowledgement, the host's end of the handshake completes,
  and the texts it sent make the broker's end accept exactly that account, for
  the key the host was configured with.
\<close>

theorem host_joins:
  assumes "frames_agree J" and "ed_correct P (tc_account_sk tcfg)"
    and "account_public_from_secret P (tc_account_sk tcfg) = Inr (tc_host_account tcfg)"
    and "register_request P rcfg (tc_account_sk tcfg) (tc_host_account tcfg) hpke_pk = Some (Inr req)"
    and "hpke_pk \<noteq> []"
    and "rg_epoch_salt rcfg = cfg_epoch_salt bcfg" and "cfg_pow_difficulty bcfg \<le> rg_pow_difficulty rcfg"
    and "ingress_addr_ok UP TUNNEL_SENTINEL_ADDR (cfg_allow_loopback_ingress bcfg)"
    and "fj_to_string J (Challenge 1 challenge) = Some chal" and "fj_to_string J (AuthOk 1) = Some ack"
    and "fj_to_string J (Hello 1 (tc_host_account tcfg)) = Some hello" and "length hello \<le> MAX_HANDSHAKE_BYTES"
    and "\<forall>sig. length sig = 64 \<longrightarrow>
           (\<exists>auth. fj_to_string J (Auth 1 sig) = Some auth \<and> length auth \<le> MAX_HANDSHAKE_BYTES)"
    and "hw_sends ws" and "hw_incoming ws = Text chal # Text ack # rest"
  shows "\<exists>out st' sent. register P UP ok_faults req bcfg now st = (Inr out, st') \<and> out \<in> {Registered, Updated}
    \<and> host_handshake P J tcfg ws = (Inr rest, sent)
    \<and> handshake P (fj_from_str J) ok_faults (tc_broker_key_id tcfg) challenge True (map Text sent) st'
        = Some (tc_host_account tcfg)"
proof -
  obtain out st' where reg: "register P UP ok_faults req bcfg now st = (Inr out, st')" "out \<in> {Registered, Updated}"
    and row: "tbl_get (HOSTS st') (tc_host_account tcfg) \<noteq> None"
    using register_request_accepted [OF assms(2-8), of now st] by (elim exE conjE)
  obtain sent where "host_handshake P J tcfg ws = (Inr rest, sent)"
    and "handshake P (fj_from_str J) ok_faults (tc_broker_key_id tcfg) challenge True (map Text sent) st'
        = Some (tc_host_account tcfg)"
    using handshake_meets [OF assms(1-3,9-15) row] by (elim exE conjE)
  with reg show ?thesis
    by (intro exI conjI)
qed

theorem host_joins_witness:
  "\<exists>out st' sent. register demo_prims (\<lambda>_. Some (''https'', Some ''tunnel.invalid'')) ok_faults demo_register_request
        demo_bcfg 50 empty_store = (Inr out, st') \<and> out \<in> {Registered, Updated}
    \<and> host_handshake demo_prims demo_frames demo_tcfg demo_ws = (Inr [Ping], sent)
    \<and> handshake demo_prims (fj_from_str demo_frames) ok_faults (tc_broker_key_id demo_tcfg) [9] True (map Text sent) st'
        = Some (tc_host_account demo_tcfg)"
proof (rule host_joins [where rcfg = demo_rcfg and hpke_pk = "[5]" and hello = "1 # replicate 32 4"
      and chal = "[3, 9]" and ack = "[4]"])
  show "frames_agree demo_frames" by (rule demo_frames_agree)
  show "ed_correct demo_prims (tc_account_sk demo_tcfg)"
    by (rule demo_ed_correct) (simp add: demo_tcfg_def)
  have "pow_solve demo_prims POW_HOST_DOMAIN (replicate 32 4) (replicate 32 7) 0 = Some (to_le_bytes 8 (0 :: u64))"
    unfolding pow_solve_def by (subst pow_scan.simps) (simp add: pow_verify_def)
  moreover have "to_le_bytes 8 (0 :: u64) = replicate 8 0"
    by (simp add: to_le_bytes_def map_replicate_const)
  ultimately show "register_request demo_prims demo_rcfg (tc_account_sk demo_tcfg) (tc_host_account demo_tcfg) [5]
      = Some (Inr demo_register_request)"
    by (simp add: register_request_def demo_rcfg_def demo_tcfg_def host_register_sign_def sign_msg_def
      signing_key_def host_register_canonical_def with_domain_def demo_prims_def demo_register_request_def)
  have "parse_ip (trim_end_matches (CHR '']'') (trim_start_matches (CHR ''['') ''tunnel.invalid'')) = None"
    using demo_name_not_ip by (simp add: trim_end_matches_def trim_start_matches_def)
  then show "ingress_addr_ok (\<lambda>_. Some (''https'', Some ''tunnel.invalid'')) TUNNEL_SENTINEL_ADDR
      (cfg_allow_loopback_ingress demo_bcfg)"
    by (simp add: ingress_addr_ok_def)
qed (simp_all add: demo_tcfg_def demo_rcfg_def demo_bcfg_def demo_frames_def demo_ws_def demo_prims_def
    account_public_from_secret_def signing_key_def MAX_HANDSHAKE_BYTES_def)

end
