(* ===== verification/Issuer_Client.thy ===== *)
theory Issuer_Client
  imports Host
begin

text \<open>
  \<open>lluma-issuer/src/client.rs\<close>: the pinned key configuration, the batch of
  blinded tokens and its unblinding (shared with \<open>lluma-client\<close>), and the
  separate redemption client. Clock and randomness are arguments.
\<close>

record issuer_client_ext =
  ic_prims :: prims
  ic_rsa :: rsa_prims
  ic_parse_kc :: "bytes \<Rightarrow> KeyConfigResponse option"
  ic_json_issue :: "IssueRequest \<Rightarrow> bytes option"
  ic_parse_issue_response :: "bytes \<Rightarrow> IssueResponse option"
  ic_json_redeem :: "RedeemRequest \<Rightarrow> bytes option"
  ic_parse_redeem_response :: "bytes \<Rightarrow> RedeemResponse option"
  ic_pc_batch :: "BlindedTokenRequest list \<Rightarrow> bytes option"
  ic_parse_value :: "bytes \<Rightarrow> json option"

section \<open>Errors\<close>

definition verify_key_id :: "prims \<Rightarrow> KeyConfigResponse \<Rightarrow> IssuerError + unit" where
  "verify_key_id P kc =
     (if blake3 P (kc_issuer_public_key kc) \<noteq> kc_key_id kc then Inl IssuerError.BadRequest else Inr ())"

definition map_code :: "string \<Rightarrow> IssuerError" where
  "map_code code =
     (if code = ''insufficient_credits'' then InsufficientCredits
      else if code = ''unauthorized'' then Unauthorized
      else if code = ''token_invalid'' then IssuerError.TokenInvalid
      else if code = ''double_spend'' then DoubleSpend
      else if code = ''request_id_conflict'' then RequestIdConflict
      else if code = ''bad_request'' then IssuerError.BadRequest
      else if code = ''concurrent_request'' then Concurrent
      else Internal)"

definition into_body :: "(bytes \<Rightarrow> json option) \<Rightarrow> http_resp \<Rightarrow> IssuerError + bytes" where
  "into_body parse resp =
     (case hs_body resp of None \<Rightarrow> Inl Internal
      | Some b \<Rightarrow>
          if is_success (hs_status resp) then Inr b
          else let code = (case Option.bind (parse b) (\<lambda>v. Option.bind (json_get ''code'' v) json_str) of
                             None \<Rightarrow> [] | Some c \<Rightarrow> c) in
               Inl (map_code code))"

lemma map_code_code: "map_code (IssuerError_code e) = e"
  by (cases e) (simp_all add: map_code_def)

section \<open>A batch of tokens\<close>

text \<open>\<open>draws\<close> gives each token's nonce and blinding randomness.\<close>

fun blind_batch ::
  "rsa_prims \<Rightarrow> IssuerPublicKey \<Rightarrow> (bytes \<times> bytes) list \<Rightarrow> CryptoError + (BlindingState \<times> BlindedTokenRequest) list" where
  "blind_batch R pk [] = Inr []"
| "blind_batch R pk ((nonce, r) # draws) =
     (case token_blind R nonce r pk of Inl e \<Rightarrow> Inl e
      | Inr sb \<Rightarrow> (case blind_batch R pk draws of Inl e \<Rightarrow> Inl e | Inr sbs \<Rightarrow> Inr (sb # sbs)))"

fun unblind_batch ::
  "rsa_prims \<Rightarrow> IssuerPublicKey \<Rightarrow> (BlindingState \<times> BlindSignature) list \<Rightarrow> CryptoError + Token list" where
  "unblind_batch R pk [] = Inr []"
| "unblind_batch R pk ((st, sig) # rest) =
     (case token_unblind R pk st sig of Inl e \<Rightarrow> Inl e
      | Inr t \<Rightarrow> (case unblind_batch R pk rest of Inl e \<Rightarrow> Inl e | Inr ts \<Rightarrow> Inr (t # ts)))"

lemma blind_batch_length: "blind_batch R pk draws = Inr sbs \<Longrightarrow> length sbs = length draws"
  by (induction draws arbitrary: sbs) (auto split: sum.splits)

lemma unblind_batch_verifies:
  assumes "rsabssa_correct R" and "\<forall>d\<in>set draws. length (fst d) = 32"
    and "blind_batch R pk draws = Inr sbs" and "unblind_batch R pk (zip (map fst sbs) sigs) = Inr tokens"
    and "length sigs = length sbs"
  shows "length tokens = length draws \<and> (\<forall>t\<in>set tokens. token_verify R pk t = Inr ())"
  using assms(2-5)
proof (induction draws arbitrary: sbs sigs tokens)
  case (Cons d draws)
  obtain nonce r where d: "d = (nonce, r)" by (cases d)
  obtain st req sbs' where b: "token_blind R nonce r pk = Inr (st, req)" "blind_batch R pk draws = Inr sbs'"
    and sbs: "sbs = (st, req) # sbs'"
    using Cons.prems(2) by (auto simp: d split: sum.splits)
  obtain sig sigs' where sigs: "sigs = sig # sigs'"
    using Cons.prems(4) sbs by (cases sigs) auto
  obtain t ts where t: "token_unblind R pk st sig = Inr t" "unblind_batch R pk (zip (map fst sbs') sigs') = Inr ts"
    and tokens: "tokens = t # ts"
    using Cons.prems(3) by (auto simp: sbs sigs split: sum.splits)
  have "token_verify R pk t = Inr ()"
    using unblinded_token [OF assms(1) _ b(1) t(1)] Cons.prems(1) d by simp
  with Cons.IH [OF _ b(2) t(2)] Cons.prems(1,4) show ?case
    by (simp add: tokens sbs sigs)
qed simp

section \<open>The issue side\<close>

definition fetch_key_config ::
  "issuer_client_ext \<Rightarrow> 'w http \<Rightarrow> string \<Rightarrow> 'w \<Rightarrow> (IssuerError + KeyConfigResponse) \<times> 'w" where
  "fetch_key_config X send base_url w =
     (case send \<lparr>hq_method = ''GET'', hq_url = base_url @ ''/v1/key-config'', hq_content_type = None, hq_body = []\<rparr> w of
        (None, w') \<Rightarrow> (Inl Internal, w')
      | (Some resp, w') \<Rightarrow>
          (case into_body (ic_parse_value X) resp of Inl e \<Rightarrow> (Inl e, w')
           | Inr b \<Rightarrow>
               (case ic_parse_kc X b of None \<Rightarrow> (Inl Internal, w')
                | Some kc \<Rightarrow>
                    (case verify_key_id (ic_prims X) kc of Inl e \<Rightarrow> (Inl e, w') | Inr _ \<Rightarrow> (Inr kc, w')))))"

text \<open>\<open>now\<close> is \<open>None\<close> when the clock is before the epoch.\<close>

definition token_request ::
  "issuer_client_ext \<Rightarrow> (bytes \<times> bytes) list \<Rightarrow> bytes \<Rightarrow> u64 option \<Rightarrow> KeyConfigResponse \<Rightarrow> AccountSecretKey \<Rightarrow>
   AccountPublicKey \<Rightarrow> IssuerError + (BlindingState list \<times> IssueRequest)" where
  "token_request X draws request_id now kc account_sk account_pk =
     (case blind_batch (ic_rsa X) (kc_issuer_public_key kc) draws of Inl _ \<Rightarrow> Inl Internal
      | Inr sbs \<Rightarrow>
          (case ic_pc_batch X (map snd sbs) of None \<Rightarrow> Inl Internal
           | Some bh_vec \<Rightarrow>
               if length account_pk \<noteq> 32 then Inl IssuerError.BadRequest
               else (case now of None \<Rightarrow> Inl Internal
                     | Some ts \<Rightarrow>
                         let body = \<lparr>ib_version = 1, ib_account = account_pk, ib_key_id = kc_key_id kc,
                                     ib_request_id = request_id, ib_ts_unix_s = ts,
                                     ib_blinded_batch_hash = blake3 (ic_prims X) bh_vec\<rparr> in
                         (case issue_request_sign (ic_prims X) account_sk body of Inl _ \<Rightarrow> Inl Internal
                          | Inr auth_sig \<Rightarrow>
                              Inr (map fst sbs, \<lparr>ireq_body = body, ireq_blinded = map snd sbs, ireq_auth_sig = auth_sig\<rparr>)))))"

definition request_tokens ::
  "issuer_client_ext \<Rightarrow> 'w http \<Rightarrow> (bytes \<times> bytes) list \<Rightarrow> bytes \<Rightarrow> u64 option \<Rightarrow> string \<Rightarrow> KeyConfigResponse \<Rightarrow>
   AccountSecretKey \<Rightarrow> AccountPublicKey \<Rightarrow> 'w \<Rightarrow> (IssuerError + Token list) \<times> 'w" where
  "request_tokens X send draws request_id now base_url kc account_sk account_pk w =
     (case token_request X draws request_id now kc account_sk account_pk of Inl e \<Rightarrow> (Inl e, w)
      | Inr (states, req) \<Rightarrow>
          (case ic_json_issue X req of None \<Rightarrow> (Inl Internal, w)
           | Some body_bytes \<Rightarrow>
               (case send \<lparr>hq_method = ''POST'', hq_url = base_url @ ''/v1/issue'',
                           hq_content_type = Some (ascii ''application/json''), hq_body = body_bytes\<rparr> w of
                  (None, w') \<Rightarrow> (Inl Internal, w')
                | (Some resp, w') \<Rightarrow>
                    (case into_body (ic_parse_value X) resp of Inl e \<Rightarrow> (Inl e, w')
                     | Inr b \<Rightarrow>
                         (case ic_parse_issue_response X b of None \<Rightarrow> (Inl Internal, w')
                          | Some r \<Rightarrow>
                              if \<not> is_ok (IssueResponse_validate r) then (Inl Internal, w')
                              else if length (iresp_signatures r) \<noteq> length states then (Inl Internal, w')
                              else (case unblind_batch (ic_rsa X) (kc_issuer_public_key kc)
                                           (zip states (iresp_signatures r)) of
                                      Inl _ \<Rightarrow> (Inl Internal, w')
                                    | Inr tokens \<Rightarrow> (Inr tokens, w')))))))"

section \<open>The redeem side\<close>

definition client_redeem ::
  "issuer_client_ext \<Rightarrow> 'w http \<Rightarrow> string \<Rightarrow> bytes \<Rightarrow> Token \<Rightarrow> 'w \<Rightarrow> (IssuerError + SpendId) \<times> 'w" where
  "client_redeem X send base_url kid token w =
     (let want = token_spend_id (ic_prims X) token in
      case ic_json_redeem X \<lparr>rd_key_id = kid, rd_token = token\<rparr> of None \<Rightarrow> (Inl Internal, w)
      | Some body \<Rightarrow>
          (case send \<lparr>hq_method = ''POST'', hq_url = base_url @ ''/v1/redeem'',
                      hq_content_type = Some (ascii ''application/json''), hq_body = body\<rparr> w of
             (None, w') \<Rightarrow> (Inl Internal, w')
           | (Some resp, w') \<Rightarrow>
               (case into_body (ic_parse_value X) resp of Inl e \<Rightarrow> (Inl e, w')
                | Inr b \<Rightarrow>
                    (case ic_parse_redeem_response X b of None \<Rightarrow> (Inl Internal, w')
                     | Some r \<Rightarrow> if rr_spend_id r \<noteq> want then (Inl Internal, w') else (Inr want, w')))))"

end
