(* ===== verification/Client.thy ===== *)
theory Client
  imports Issuer_Client
begin

text \<open>
  \<open>lluma-client/src/lib.rs\<close>: the verified bootstrap and snapshot, and the
  consumer's calls (key configuration, token acquisition, trial registration,
  snapshot, execution), each one oblivious round trip. The codecs and the URL
  parser are fields of \<open>client_ext\<close>; \<open>rt\<close> is the round trip of the
  client's agent, of which \<open>Net_Agent.round_trip\<close> is the instance.
\<close>

datatype ClientError = CTransport | CRelay u16 | CProtocol | CCrypto | CNotFinal | CServer u16

definition ClientError_from_net :: "NetError \<Rightarrow> ClientError" where
  "ClientError_from_net e = (case e of Relay s \<Rightarrow> CRelay s | _ \<Rightarrow> CTransport)"

definition ClientError_from_crypto :: "CryptoError \<Rightarrow> ClientError" where
  "ClientError_from_crypto e = CCrypto"

record parsed_url =
  pu_scheme :: string
  pu_host :: "string option"
  pu_username :: string
  pu_password :: "string option"

record ('cs, 'cr) client_ext =
  cx_prims :: prims
  cx_rsa :: rsa_prims
  cx_hpke :: "('cs, 'cr) hpke_prims"
  cx_url :: "string \<Rightarrow> parsed_url option"
  cx_snap :: snapshot_codec
  cx_parse_bootstrap :: "bytes \<Rightarrow> SignedBootstrap option"
  cx_pc_bootstrap :: "bytes \<Rightarrow> BootstrapDoc option"
  cx_parse_kc :: "bytes \<Rightarrow> KeyConfigResponse option"
  cx_pc_batch :: "BlindedTokenRequest list \<Rightarrow> bytes option"
  cx_json_issue :: "IssueRequest \<Rightarrow> bytes option"
  cx_parse_issue_response :: "bytes \<Rightarrow> IssueResponse option"
  cx_json_trial :: "TrialRegisterRequest \<Rightarrow> bytes option"
  cx_parse_snapshot :: "bytes \<Rightarrow> SnapshotResponse option"
  cx_json_exec :: "ExecRequest \<Rightarrow> bytes option"
  cx_parse_exec_response :: "bytes \<Rightarrow> ExecResponse option"

section \<open>Bootstrap and snapshot\<close>

definition tunnel_url_ok :: "('cs, 'cr) client_ext \<Rightarrow> string \<Rightarrow> bool" where
  "tunnel_url_ok X url =
     (case cx_url X url of None \<Rightarrow> False
      | Some u \<Rightarrow>
          \<not> (pu_scheme u \<noteq> ''wss'' \<or> pu_host u = None \<or> pu_host u = Some []
             \<or> pu_username u \<noteq> [] \<or> pu_password u \<noteq> None))"

definition verify_bootstrap ::
  "('cs, 'cr) client_ext \<Rightarrow> AccountPublicKey \<Rightarrow> SignedBootstrap \<Rightarrow> ClientError + BootstrapDoc" where
  "verify_bootstrap X registry_pk sb =
     (case bootstrap_verify (cx_prims X) registry_pk (sbs_doc sb) (sbs_sig sb) of Inl _ \<Rightarrow> Inl CCrypto
      | Inr _ \<Rightarrow>
          (case cx_pc_bootstrap X (sbs_doc sb) of None \<Rightarrow> Inl CProtocol
           | Some doc \<Rightarrow>
               if bd_version doc \<noteq> 1 \<or> bd_gateway_kc doc = [] \<or> \<not> starts_with (bd_relay_url doc) ''https://''
               then Inl CProtocol
               else if (case bd_tunnel_url doc of None \<Rightarrow> False | Some url \<Rightarrow> \<not> tunnel_url_ok X url) then Inl CProtocol
               else if (case bd_pow_difficulty doc of None \<Rightarrow> False | Some d \<Rightarrow> 30 < d) then Inl CProtocol
               else Inr doc))"

definition fetch_bootstrap ::
  "('cs, 'cr) client_ext \<Rightarrow> 'w http \<Rightarrow> string \<Rightarrow> AccountPublicKey \<Rightarrow> 'w \<Rightarrow> (ClientError + BootstrapDoc) \<times> 'w" where
  "fetch_bootstrap X send relay_url registry_pk w =
     (case send \<lparr>hq_method = ''GET'', hq_url = trim_end_matches (CHR ''/'') relay_url @ ''/v1/bootstrap'',
                 hq_content_type = None, hq_body = []\<rparr> w of
        (None, w') \<Rightarrow> (Inl CTransport, w')
      | (Some resp, w') \<Rightarrow>
          if hs_status resp \<noteq> 200 then (Inl (CServer (hs_status resp)), w')
          else (case hs_body resp of None \<Rightarrow> (Inl CTransport, w')
                | Some b \<Rightarrow>
                    (case cx_parse_bootstrap X b of None \<Rightarrow> (Inl CProtocol, w')
                     | Some sb \<Rightarrow> (verify_bootstrap X registry_pk sb, w'))))"

definition verify_snapshot ::
  "('cs, 'cr) client_ext \<Rightarrow> AccountPublicKey \<Rightarrow> SnapshotResponse \<Rightarrow> ClientError + SnapshotBody" where
  "verify_snapshot X registry_pk sr =
     (if length (sr_body sr) \<noteq> 65536 then Inl CProtocol
      else case snapshot_verify (cx_prims X) registry_pk (sr_body sr) (sr_sig sr) of Inl _ \<Rightarrow> Inl CCrypto
        | Inr _ \<Rightarrow>
            let len = unat (from_le_bytes (take 4 (sr_body sr)) :: u32); end' = 4 + len in
            if \<not> end' \<le> length (sr_body sr) then Inl CProtocol
            else case snap_dec (cx_snap X) (subslice 4 end' (sr_body sr)) of
                   None \<Rightarrow> Inl CProtocol | Some body \<Rightarrow> Inr body)"

section \<open>The client\<close>

record Client =
  cli_agent :: OhttpAgent
  cli_sk :: AccountSecretKey
  cli_pk :: AccountPublicKey
  cli_host_pk :: HostPublicKey
  cli_host_account :: bytes
  cli_expected_issuer_key_id :: "bytes option"

definition Client_new ::
  "string \<Rightarrow> OhttpKeyConfig \<Rightarrow> AccountSecretKey \<Rightarrow> AccountPublicKey \<Rightarrow> HostPublicKey \<Rightarrow> bytes \<Rightarrow> Client" where
  "Client_new relay_url gateway_key_config sk pk host_pk host_account =
     \<lparr>cli_agent = \<lparr>ag_relay_url = relay_url, ag_key_config = gateway_key_config\<rparr>, cli_sk = sk, cli_pk = pk,
      cli_host_pk = host_pk, cli_host_account = host_account, cli_expected_issuer_key_id = None\<rparr>"

definition with_expected_issuer_key_id :: "bytes \<Rightarrow> Client \<Rightarrow> Client" where
  "with_expected_issuer_key_id kid c = c\<lparr>cli_expected_issuer_key_id := Some kid\<rparr>"

type_synonym 'w round = "OhttpAgent \<Rightarrow> InnerRequest \<Rightarrow> 'w \<Rightarrow> (NetError + InnerResponse) \<times> 'w"

text \<open>Every call sends one inner request, turns a network error into its own and checks the status.\<close>

definition call :: "'w round \<Rightarrow> Client \<Rightarrow> string \<Rightarrow> string \<Rightarrow> bytes option \<Rightarrow> 'w \<Rightarrow> (ClientError + InnerResponse) \<times> 'w" where
  "call rt c m path json w =
     (case rt (cli_agent c)
             \<lparr>ir_method = m, ir_path = path,
              ir_content_type = (if json = None then None else Some ''application/json''),
              ir_body = (case json of None \<Rightarrow> [] | Some b \<Rightarrow> b)\<rparr> w of
        (Inl e, w') \<Rightarrow> (Inl (ClientError_from_net e), w')
      | (Inr resp, w') \<Rightarrow> (Inr resp, w'))"

definition key_config_checked :: "('cs, 'cr) client_ext \<Rightarrow> Client \<Rightarrow> bytes \<Rightarrow> ClientError + KeyConfigResponse" where
  "key_config_checked X c body =
     (case cx_parse_kc X body of None \<Rightarrow> Inl CProtocol
      | Some kc \<Rightarrow>
          if blake3 (cx_prims X) (kc_issuer_public_key kc) \<noteq> kc_key_id kc then Inl CProtocol
          else if (case cli_expected_issuer_key_id c of None \<Rightarrow> False | Some expected \<Rightarrow> kc_key_id kc \<noteq> expected)
          then Inl CProtocol
          else Inr kc)"

definition client_key_config ::
  "('cs, 'cr) client_ext \<Rightarrow> 'w round \<Rightarrow> Client \<Rightarrow> 'w \<Rightarrow> (ClientError + KeyConfigResponse) \<times> 'w" where
  "client_key_config X rt c w =
     (case call rt c ''GET'' ''/v1/key-config'' None w of (Inl e, w') \<Rightarrow> (Inl e, w')
      | (Inr resp, w') \<Rightarrow>
          if is_status resp \<noteq> 200 then (Inl (CServer (is_status resp)), w')
          else (key_config_checked X c (is_body resp), w'))"

definition acquire_request ::
  "('cs, 'cr) client_ext \<Rightarrow> (bytes \<times> bytes) list \<Rightarrow> bytes \<Rightarrow> u64 \<Rightarrow> KeyConfigResponse \<Rightarrow> Client \<Rightarrow>
   ClientError + (BlindingState list \<times> IssueRequest)" where
  "acquire_request X draws request_id now kc c =
     (case blind_batch (cx_rsa X) (kc_issuer_public_key kc) draws of Inl e \<Rightarrow> Inl (ClientError_from_crypto e)
      | Inr sbs \<Rightarrow>
          (case cx_pc_batch X (map snd sbs) of None \<Rightarrow> Inl CProtocol
           | Some bh \<Rightarrow>
               if length (cli_pk c) \<noteq> 32 then Inl CCrypto
               else
                 let body = \<lparr>ib_version = 1, ib_account = cli_pk c, ib_key_id = kc_key_id kc,
                             ib_request_id = request_id, ib_ts_unix_s = now,
                             ib_blinded_batch_hash = blake3 (cx_prims X) bh\<rparr> in
                 (case issue_request_sign (cx_prims X) (cli_sk c) body of Inl e \<Rightarrow> Inl (ClientError_from_crypto e)
                  | Inr auth_sig \<Rightarrow>
                      Inr (map fst sbs, \<lparr>ireq_body = body, ireq_blinded = map snd sbs, ireq_auth_sig = auth_sig\<rparr>))))"

definition acquire ::
  "('cs, 'cr) client_ext \<Rightarrow> 'w round \<Rightarrow> (bytes \<times> bytes) list \<Rightarrow> bytes \<Rightarrow> u64 \<Rightarrow> KeyConfigResponse \<Rightarrow> Client \<Rightarrow> 'w \<Rightarrow>
   (ClientError + Token list) \<times> 'w" where
  "acquire X rt draws request_id now kc c w =
     (case acquire_request X draws request_id now kc c of Inl e \<Rightarrow> (Inl e, w)
      | Inr (states, req) \<Rightarrow>
          (case cx_json_issue X req of None \<Rightarrow> (Inl CProtocol, w)
           | Some json \<Rightarrow>
               (case call rt c ''POST'' ''/v1/issue'' (Some json) w of (Inl e, w') \<Rightarrow> (Inl e, w')
                | (Inr resp, w') \<Rightarrow>
                    if is_status resp \<noteq> 200 then (Inl (CServer (is_status resp)), w')
                    else (case cx_parse_issue_response X (is_body resp) of None \<Rightarrow> (Inl CProtocol, w')
                          | Some ir \<Rightarrow>
                              if iresp_key_id ir \<noteq> kc_key_id kc \<or> length (iresp_signatures ir) \<noteq> length states
                              then (Inl CProtocol, w')
                              else (case unblind_batch (cx_rsa X) (kc_issuer_public_key kc)
                                           (zip states (iresp_signatures ir)) of
                                      Inl e \<Rightarrow> (Inl (ClientError_from_crypto e), w')
                                    | Inr tokens \<Rightarrow> (Inr tokens, w'))))))"

text \<open>No result when the proof-of-work search does not end.\<close>

definition client_trial_register ::
  "('cs, 'cr) client_ext \<Rightarrow> 'w round \<Rightarrow> bytes \<Rightarrow> u32 \<Rightarrow> Client \<Rightarrow> 'w \<Rightarrow> ((ClientError + bool) \<times> 'w) option" where
  "client_trial_register X rt epoch_salt pow_difficulty c w =
     (if 30 < pow_difficulty then Some (Inl CProtocol, w)
      else if length (cli_pk c) \<noteq> 32 then Some (Inl CCrypto, w)
      else case pow_solve (cx_prims X) POW_TRIAL_DOMAIN (cli_pk c) epoch_salt pow_difficulty of None \<Rightarrow> None
        | Some nonce \<Rightarrow>
            (case cx_json_trial X \<lparr>trr_body = \<lparr>tr_version = 1, tr_account = cli_pk c\<rparr>, trr_pow_nonce = nonce\<rparr> of
               None \<Rightarrow> Some (Inl CProtocol, w)
             | Some json \<Rightarrow>
                 (case call rt c ''POST'' ''/v1/register'' (Some json) w of (Inl e, w') \<Rightarrow> Some (Inl e, w')
                  | (Inr resp, w') \<Rightarrow>
                      Some (if is_status resp = 200 then Inr True
                            else if is_status resp = 429 then Inr False
                            else Inl (CServer (is_status resp)), w'))))"

definition client_snapshot ::
  "('cs, 'cr) client_ext \<Rightarrow> 'w round \<Rightarrow> AccountPublicKey \<Rightarrow> Client \<Rightarrow> 'w \<Rightarrow>
   (ClientError + SnapshotHostEntry list) \<times> 'w" where
  "client_snapshot X rt registry_pk c w =
     (case call rt c ''GET'' ''/v1/snapshot'' None w of (Inl e, w') \<Rightarrow> (Inl e, w')
      | (Inr resp, w') \<Rightarrow>
          if is_status resp \<noteq> 200 then (Inl (CServer (is_status resp)), w')
          else (case cx_parse_snapshot X (is_body resp) of None \<Rightarrow> (Inl CProtocol, w')
                | Some sr \<Rightarrow>
                    (case verify_snapshot X registry_pk sr of Inl e \<Rightarrow> (Inl e, w')
                     | Inr body \<Rightarrow> (Inr (sb_hosts body), w'))))"

text \<open>\<open>rs\<close> and \<open>re\<close> are the randomness of the session key and of the seal.\<close>

definition exec_with_host ::
  "('cs, 'cr) client_ext \<Rightarrow> 'w round \<Rightarrow> bytes \<Rightarrow> bytes \<Rightarrow> KeyConfigResponse \<Rightarrow> Token \<Rightarrow> SnapshotHostEntry \<Rightarrow> bytes \<Rightarrow>
   Client \<Rightarrow> 'w \<Rightarrow> (ClientError + bytes) \<times> 'w" where
  "exec_with_host X rt rs re kc token host prompt c w =
     (let spend_id = token_spend_id (cx_prims X) token in
      case session_keygen (cx_hpke X) rs of Inl e \<Rightarrow> (Inl (ClientError_from_crypto e), w)
      | Inr (sess_sk, sess_pk) \<Rightarrow>
          (case e2e_seal (cx_hpke X) re (se_hpke_pk host) spend_id prompt sess_pk of
             Inl e \<Rightarrow> (Inl (ClientError_from_crypto e), w)
           | Inr sealed \<Rightarrow>
               (case cx_json_exec X \<lparr>ex_key_id = kc_key_id kc, ex_host_account = se_host_account host,
                                     ex_token = token, ex_sealed = sealed\<rparr> of
                  None \<Rightarrow> (Inl CProtocol, w)
                | Some json \<Rightarrow>
                    (case call rt c ''POST'' ''/v1/exec'' (Some json) w of (Inl e, w') \<Rightarrow> (Inl e, w')
                     | (Inr resp, w') \<Rightarrow>
                         if is_status resp \<noteq> 200 then (Inl (CServer (is_status resp)), w')
                         else (case cx_parse_exec_response X (is_body resp) of None \<Rightarrow> (Inl CProtocol, w')
                               | Some er \<Rightarrow>
                                   (case response_setup_client (cx_hpke X) sess_sk (er_preamble er) of
                                      Inl e \<Rightarrow> (Inl (ClientError_from_crypto e), w')
                                    | Inr cctx \<Rightarrow>
                                        (case fst (response_open_chunk (cx_hpke X) (er_chunk er) cctx) of
                                           Inl e \<Rightarrow> (Inl (ClientError_from_crypto e), w')
                                         | Inr (answer, is_final) \<Rightarrow>
                                             if \<not> is_final then (Inl CNotFinal, w') else (Inr answer, w'))))))))"

definition client_exec ::
  "('cs, 'cr) client_ext \<Rightarrow> 'w round \<Rightarrow> bytes \<Rightarrow> bytes \<Rightarrow> KeyConfigResponse \<Rightarrow> Token \<Rightarrow> bytes \<Rightarrow> Client \<Rightarrow> 'w \<Rightarrow>
   (ClientError + bytes) \<times> 'w" where
  "client_exec X rt rs re kc token prompt c w =
     exec_with_host X rt rs re kc token
       \<lparr>se_host_account = cli_host_account c, se_hpke_pk = cli_host_pk c, se_models = [], se_tier_flags = 0,
        se_load_bucket = 0, se_freshness_bucket = 0\<rparr> prompt c w"

section \<open>Facts\<close>

lemma acquire_request_parts:
  assumes "acquire_request X draws request_id now kc c = Inr (states, req)"
  obtains sbs where "blind_batch (cx_rsa X) (kc_issuer_public_key kc) draws = Inr sbs" and "states = map fst sbs"
    and "ireq_blinded req = map snd sbs"
  using assms by (auto simp: acquire_request_def Let_def split: sum.splits option.splits if_splits)

lemma acquire_success:
  assumes "acquire X rt draws request_id now kc c w = (Inr tokens, w')"
  obtains states req sigs where "acquire_request X draws request_id now kc c = Inr (states, req)"
    and "length sigs = length states"
    and "unblind_batch (cx_rsa X) (kc_issuer_public_key kc) (zip states sigs) = Inr tokens"
  using assms by (auto simp: acquire_def split: sum.splits prod.splits option.splits if_splits)

section \<open>Properties\<close>


definition demo_acquire_ext :: "(nat, nat) client_ext" where
  "demo_acquire_ext = \<lparr>cx_prims = demo_prims, cx_rsa = demo_rsa, cx_hpke = demo_hpke, cx_url = (\<lambda>_. None),
     cx_snap = demo_snapshot_codec, cx_parse_bootstrap = (\<lambda>_. None), cx_pc_bootstrap = (\<lambda>_. None),
     cx_parse_kc = (\<lambda>_. None), cx_pc_batch = (\<lambda>_. Some []), cx_json_issue = (\<lambda>_. Some []),
     cx_parse_issue_response = (\<lambda>_. Some \<lparr>iresp_key_id = [7], iresp_signatures = [replicate 256 32]\<rparr>),
     cx_json_trial = (\<lambda>_. None), cx_parse_snapshot = (\<lambda>_. None), cx_json_exec = (\<lambda>_. None),
     cx_parse_exec_response = (\<lambda>_. None)\<rparr>"


text \<open>
  The client's copy of the snapshot check agrees with the broker's. The two
  implementations accept the same responses under the same key, with the same body.
\<close>

lemma snapshot_verifiers_agree:
  "verify_snapshot X pk sr = Inr body \<longleftrightarrow> snapshot_open (cx_prims X) (cx_snap X) pk sr = Inr body"
proof -
  have "snapshot_verify (cx_prims X) pk (sr_body sr) (sr_sig sr) = Inr u \<Longrightarrow> length (sr_sig sr) = 64" for u
    by (auto simp: snapshot_verify_def verify_msg_Inr)
  then show ?thesis
    by (auto simp: verify_snapshot_def snapshot_open_def SnapshotResponse_validate_def LEN_PREFIX_def Let_def is_ok_def
      split: sum.splits option.splits if_splits)
qed

end
