(* ===== verification/Relay.thy ===== *)
theory Relay
  imports Complex_Main Net_Agent Broker_System "HOL-Library.AList"
begin

text \<open>
  \<open>lluma-relay\<close>: the per-address token bucket, the forwarding of an opaque
  capsule to the gateway, the mirror of the signed bootstrap, and the start-up
  of the binary. An \<open>Instant\<close> is its nanosecond count and the bucket's
  \<open>f64\<close> arithmetic is exact rational arithmetic. The handlers start where
  the framework calls them, after its own body limit (the same bound, the same status).
\<close>

section \<open>Configuration, errors, state\<close>

record RateLimitConfig =
  rl_capacity :: u32
  rl_refill_per_sec :: u32

record RelayConfig =
  rc_gateway_url :: string
  rc_max_body_bytes :: nat
  rc_per_ip :: RateLimitConfig
  rc_pow_difficulty :: u8
  rc_bootstrap_blob :: "bytes option"

datatype RelayError = PayloadTooLarge | RateLimited | BadContentType | UpstreamUnavailable

definition RelayError_status :: "RelayError \<Rightarrow> u16" where
  "RelayError_status e =
     (case e of PayloadTooLarge \<Rightarrow> 413 | RateLimited \<Rightarrow> 429 | BadContentType \<Rightarrow> 415 | UpstreamUnavailable \<Rightarrow> 502)"

definition RelayError_into_response :: "RelayError \<Rightarrow> http_resp" where
  "RelayError_into_response e =
     \<lparr>hs_status = RelayError_status e, hs_content_type = None,
      hs_retry_after = (if e = RateLimited then Some ''1'' else None), hs_body = Some []\<rparr>"

record Bucket =
  bk_tokens :: rat
  bk_last :: nat

type_synonym buckets = "(IpAddr \<times> Bucket) list"

section \<open>The token bucket\<close>

definition secs :: "nat \<Rightarrow> rat" where
  "secs ns = of_nat ns / 1000000000"

definition u32_rat :: "u32 \<Rightarrow> rat" where
  "u32_rat x = of_nat (unat x)"

definition refilled :: "RateLimitConfig \<Rightarrow> nat \<Rightarrow> Bucket \<Rightarrow> rat" where
  "refilled rl now b =
     min (bk_tokens b + secs (now - bk_last b) * u32_rat (rl_refill_per_sec rl)) (u32_rat (rl_capacity rl))"

definition allow :: "RateLimitConfig \<Rightarrow> nat \<Rightarrow> IpAddr \<Rightarrow> buckets \<Rightarrow> bool \<times> buckets" where
  "allow rl now ip g0 =
     (let cap = u32_rat (rl_capacity rl);
          g = (if 100000 < length g0 then filter (\<lambda>(_, b). refilled rl now b < cap) g0 else g0);
          b = (case map_of g ip of None \<Rightarrow> \<lparr>bk_tokens = cap, bk_last = now\<rparr> | Some b \<Rightarrow> b);
          tokens = refilled rl now b in
      if 1 \<le> tokens then (True, AList.update ip \<lparr>bk_tokens = tokens - 1, bk_last = now\<rparr> g)
      else (False, AList.update ip \<lparr>bk_tokens = tokens, bk_last = now\<rparr> g))"

section \<open>The handlers\<close>

definition ohttp ::
  "RelayConfig \<Rightarrow> nat \<Rightarrow> IpAddr \<Rightarrow> 'w http \<Rightarrow> http_req \<Rightarrow> buckets \<times> 'w \<Rightarrow> http_resp \<times> buckets \<times> 'w" where
  "ohttp cfg now peer gateway req gw =
     (let (g, w) = gw in
      if hq_content_type req \<noteq> Some (ascii ''message/ohttp-req'')
      then (RelayError_into_response BadContentType, g, w)
      else if rc_max_body_bytes cfg < length (hq_body req)
      then (RelayError_into_response PayloadTooLarge, g, w)
      else case allow (rc_per_ip cfg) now peer g of
             (False, g') \<Rightarrow> (RelayError_into_response RateLimited, g', w)
           | (True, g') \<Rightarrow>
               (case gateway \<lparr>hq_method = ''POST'', hq_url = rc_gateway_url cfg,
                              hq_content_type = Some (ascii ''message/ohttp-req''), hq_body = hq_body req\<rparr> w of
                  (None, w') \<Rightarrow> (RelayError_into_response UpstreamUnavailable, g', w')
                | (Some resp, w') \<Rightarrow>
                    (case hs_body resp of
                       None \<Rightarrow> (RelayError_into_response UpstreamUnavailable, g', w')
                     | Some b \<Rightarrow>
                         (\<lparr>hs_status = hs_status resp,
                           hs_content_type = Some (case hs_content_type resp of Some v \<Rightarrow> v
                                                   | None \<Rightarrow> ascii ''message/ohttp-res''),
                           hs_retry_after = None, hs_body = Some b\<rparr>, g', w'))))"

definition bootstrap :: "RelayConfig \<Rightarrow> http_resp" where
  "bootstrap cfg =
     (case rc_bootstrap_blob cfg of
        Some b \<Rightarrow> \<lparr>hs_status = 200, hs_content_type = Some (ascii ''application/octet-stream''),
                   hs_retry_after = None, hs_body = Some b\<rparr>
      | None \<Rightarrow> \<lparr>hs_status = 404, hs_content_type = None, hs_retry_after = None, hs_body = Some []\<rparr>)"

section \<open>Start-up (main.rs)\<close>

definition env_uint :: "process_env \<Rightarrow> string \<Rightarrow> nat \<Rightarrow> nat \<Rightarrow> nat" where
  "env_uint E k width d =
     (case pe_var E k of None \<Rightarrow> d | Some s \<Rightarrow> (case parse_uint width s of None \<Rightarrow> d | Some n \<Rightarrow> n))"

definition relay_main :: "process_env \<Rightarrow> string + RelayConfig" where
  "relay_main E =
     (let gateway = env_or E ''LLUMA_RELAY_GATEWAY'' [];
          max_body = env_uint E ''LLUMA_RELAY_MAX_BODY'' 64 65536;
          capacity = env_uint E ''LLUMA_RELAY_RL_CAPACITY'' 32 120;
          refill = env_uint E ''LLUMA_RELAY_RL_REFILL'' 32 60;
          path = env_or E ''LLUMA_BOOTSTRAP_FILE'' [];
          cfg = (\<lambda>blob. \<lparr>rc_gateway_url = gateway, rc_max_body_bytes = max_body,
                        rc_per_ip = \<lparr>rl_capacity = of_nat capacity, rl_refill_per_sec = of_nat refill\<rparr>,
                        rc_pow_difficulty = 0, rc_bootstrap_blob = blob\<rparr>) in
      if gateway = [] then Inl ''LLUMA_RELAY_GATEWAY is required (the gateway URL to forward to)''
      else if path = [] then Inr (cfg None)
      else case pe_file E path of Some b \<Rightarrow> Inr (cfg (Some b))
           | None \<Rightarrow> Inl (''LLUMA_BOOTSTRAP_FILE='' @ path @ '' could not be read''))"

section \<open>The rate bound\<close>

text \<open>
  The level of an address at a moment: what its bucket would hold when
  refilled, a full bucket where there is none.
\<close>

definition level :: "RateLimitConfig \<Rightarrow> buckets \<Rightarrow> IpAddr \<Rightarrow> nat \<Rightarrow> rat" where
  "level rl g ip now =
     (case map_of g ip of None \<Rightarrow> u32_rat (rl_capacity rl) | Some b \<Rightarrow> refilled rl now b)"

definition buckets_ok :: "buckets \<Rightarrow> bool" where
  "buckets_ok g \<longleftrightarrow> distinct (map fst g) \<and> (\<forall>k b. map_of g k = Some b \<longrightarrow> 0 \<le> bk_tokens b)"

lemma rat_nonneg [simp]: "0 \<le> secs n" "0 \<le> u32_rat x"
  unfolding u32_rat_def by (simp add: secs_def) (rule of_nat_0_le_iff)

lemma secs_mono: "m \<le> n \<Longrightarrow> secs m \<le> secs n"
  by (simp add: secs_def divide_right_mono)

lemma secs_add: "secs (m + n) = secs m + secs n"
  by (simp add: secs_def add_divide_distrib)

lemma level_le_capacity: "level rl g ip now \<le> u32_rat (rl_capacity rl)"
  by (simp add: level_def refilled_def split: option.split)

lemma level_nonneg: "buckets_ok g \<Longrightarrow> 0 \<le> level rl g ip now"
  by (auto simp: level_def refilled_def buckets_ok_def split: option.split)

lemma min_add_later: "a \<le> b + c \<Longrightarrow> 0 \<le> c \<Longrightarrow> min (x + a) k \<le> min (x + b) k + c" for a b c x k :: rat
  by (simp add: min_def)

lemma refilled_later:
  assumes "t \<le> now"
  shows "refilled rl now b \<le> refilled rl t b + secs (now - t) * u32_rat (rl_refill_per_sec rl)"
proof -
  have "secs (now - bk_last b) \<le> secs ((t - bk_last b) + (now - t))"
    using assms by (intro secs_mono) simp
  then have "secs (now - bk_last b) * u32_rat (rl_refill_per_sec rl)
      \<le> (secs (t - bk_last b) + secs (now - t)) * u32_rat (rl_refill_per_sec rl)"
    unfolding secs_add by (rule mult_right_mono) simp
  moreover have "0 \<le> secs (now - t) * u32_rat (rl_refill_per_sec rl)" by simp
  ultimately show ?thesis
    unfolding refilled_def distrib_right by (rule min_add_later)
qed

lemma level_later:
  "t \<le> now \<Longrightarrow> level rl g ip now \<le> level rl g ip t + secs (now - t) * u32_rat (rl_refill_per_sec rl)"
  by (simp add: level_def refilled_later split: option.split)

text \<open>Forgetting full buckets does not change any level.\<close>

lemma map_of_filter_distinct:
  "distinct (map fst g) \<Longrightarrow>
   map_of (filter Q g) k = (case map_of g k of None \<Rightarrow> None | Some v \<Rightarrow> if Q (k, v) then Some v else None)"
  by (induction g) (auto split: option.splits simp: map_of_eq_None_iff rev_image_eqI dest: map_of_SomeD)

lemma level_evict:
  assumes "distinct (map fst g)"
  shows "level rl (filter (\<lambda>(_, b). refilled rl now b < u32_rat (rl_capacity rl)) g) ip now = level rl g ip now"
  using assms by (auto simp: level_def map_of_filter_distinct refilled_def min_def split: option.split)

lemma refilled_same [simp]: "refilled rl (bk_last b) b = min (bk_tokens b) (u32_rat (rl_capacity rl))"
  by (simp add: refilled_def secs_def)

lemma allow_level:
  assumes "buckets_ok g" and "allow rl now ip g = (ok, g')"
  shows "ok \<longleftrightarrow> 1 \<le> level rl g ip now"
    and "level rl g' ip now = level rl g ip now - (if ok then 1 else 0)"
    and "ip' \<noteq> ip \<Longrightarrow> level rl g' ip' now = level rl g ip' now"
    and "buckets_ok g'"
proof -
  define h where "h = (if 100000 < length g
    then filter (\<lambda>(_, b). refilled rl now b < u32_rat (rl_capacity rl)) g else g)"
  define t where "t = level rl g ip now"
  have same: "level rl h k now = level rl g k now" for k
    using assms(1) by (simp add: h_def level_evict buckets_ok_def)
  have ok_h: "buckets_ok h"
    using assms(1) by (auto simp: h_def buckets_ok_def distinct_map_filter map_of_filter_distinct split: option.splits if_splits)
  have "refilled rl now (case map_of h ip of None \<Rightarrow> \<lparr>bk_tokens = u32_rat (rl_capacity rl), bk_last = now\<rparr>
          | Some b \<Rightarrow> b) = level rl h ip now"
    by (simp add: level_def refilled_def secs_def split: option.split)
  then have r: "ok = (1 \<le> t)" "g' = AList.update ip \<lparr>bk_tokens = (if 1 \<le> t then t - 1 else t), bk_last = now\<rparr> h"
    using assms(2) unfolding allow_def Let_def h_def [symmetric] t_def same
    by (auto split: if_splits)
  have t: "0 \<le> t" "t \<le> u32_rat (rl_capacity rl)"
    unfolding t_def using assms(1) by (rule level_nonneg) (rule level_le_capacity)
  show "ok \<longleftrightarrow> 1 \<le> level rl g ip now"
    using r(1) by (simp add: t_def)
  show "level rl g' ip now = level rl g ip now - (if ok then 1 else 0)"
    using t unfolding r t_def [symmetric]
    by (simp add: level_def update_conv' refilled_def secs_def)
  show "level rl g' ip' now = level rl g ip' now" if "ip' \<noteq> ip"
    using that same [of ip'] by (simp add: r(2) level_def update_conv')
  show "buckets_ok g'"
    using ok_h t unfolding r(2) buckets_ok_def by (auto simp: distinct_update update_conv')
qed

text \<open>The decisions on a sequence of requests, each with its moment and its address.\<close>

fun admit_run ::
  "RateLimitConfig \<Rightarrow> (nat \<times> IpAddr) list \<Rightarrow> buckets \<Rightarrow> (IpAddr \<times> bool) list \<times> buckets" where
  "admit_run rl [] g = ([], g)"
| "admit_run rl ((now, ip) # calls) g =
     (let (ok, g') = allow rl now ip g; (oks, g'') = admit_run rl calls g' in ((ip, ok) # oks, g''))"

definition admitted :: "IpAddr \<Rightarrow> (IpAddr \<times> bool) list \<Rightarrow> nat" where
  "admitted ip oks = length (filter (\<lambda>d. d = (ip, True)) oks)"

lemma admit_run_Cons:
  assumes "admit_run rl ((now, ip) # calls) g = (oks, g'')"
  obtains ok g' oks' where "allow rl now ip g = (ok, g')" and "admit_run rl calls g' = (oks', g'')"
    and "oks = (ip, ok) # oks'"
  using assms by (auto split: prod.splits)

lemma admit_run_ok: "buckets_ok g \<Longrightarrow> admit_run rl calls g = (oks, g') \<Longrightarrow> buckets_ok g'"
proof (induction calls arbitrary: g oks)
  case (Cons c calls)
  obtain now ip where c: "c = (now, ip)" by (cases c)
  from Cons.prems(2) [unfolded c] obtain ok g1 oks' where "allow rl now ip g = (ok, g1)"
    and "admit_run rl calls g1 = (oks', g')"
    by (rule admit_run_Cons)
  with Cons.IH Cons.prems(1) allow_level(4) show ?case by blast
qed simp

lemma admit_run_bound:
  assumes "buckets_ok g" and "admit_run rl calls g = (oks, g')" and "sorted (t0 # map fst calls @ [t1])"
  shows "of_nat (admitted ip oks) + level rl g' ip t1
    \<le> level rl g ip t0 + secs (t1 - t0) * u32_rat (rl_refill_per_sec rl)"
  using assms
proof (induction calls arbitrary: g oks t0)
  case Nil
  then show ?case by (simp add: admitted_def level_later)
next
  case (Cons c calls)
  obtain now a where c: "c = (now, a)" by (cases c)
  from Cons.prems(2) [unfolded c] obtain ok g1 oks' where al: "allow rl now a g = (ok, g1)"
    and run: "admit_run rl calls g1 = (oks', g')" and oks: "oks = (a, ok) # oks'"
    by (rule admit_run_Cons)
  note level = allow_level [OF Cons.prems(1) al]
  have "of_nat (admitted ip oks') + level rl g' ip t1
      \<le> level rl g1 ip now + secs (t1 - now) * u32_rat (rl_refill_per_sec rl)"
    using Cons.prems(3) c by (intro Cons.IH [OF level(4) run]) simp
  moreover have "of_nat (admitted ip oks) + level rl g1 ip now = of_nat (admitted ip oks') + level rl g ip now"
    using level(2) level(3) [of ip] by (cases "ip = a") (auto simp: oks admitted_def)
  moreover have "level rl g ip now \<le> level rl g ip t0 + secs (now - t0) * u32_rat (rl_refill_per_sec rl)"
    using Cons.prems(3) c by (intro level_later) simp
  moreover have "secs (now - t0) + secs (t1 - now) = secs (t1 - t0)"
    using Cons.prems(3) c by (simp add: secs_add [symmetric])
  then have "secs (now - t0) * u32_rat (rl_refill_per_sec rl) + secs (t1 - now) * u32_rat (rl_refill_per_sec rl)
      = secs (t1 - t0) * u32_rat (rl_refill_per_sec rl)"
    by (metis distrib_right)
  ultimately show ?case by linarith
qed

lemma admit_run_unseen:
  assumes "ip \<notin> snd ` set calls" and "map_of g ip = None" and "admit_run rl calls g = (oks, g')"
  shows "map_of g' ip = None"
  using assms
proof (induction calls arbitrary: g oks)
  case (Cons c calls)
  obtain now a where c: "c = (now, a)" by (cases c)
  from Cons.prems(3) [unfolded c] obtain ok g1 oks' where al: "allow rl now a g = (ok, g1)"
    and run: "admit_run rl calls g1 = (oks', g')"
    by (rule admit_run_Cons)
  define h where "h = (if 100000 < length g
    then filter (\<lambda>(_, b). refilled rl now b < u32_rat (rl_capacity rl)) g else g)"
  have "map_of h ip = None"
    using Cons.prems(2) by (auto simp: h_def map_of_eq_None_iff)
  moreover obtain b where "g1 = AList.update a b h"
    using al unfolding allow_def Let_def h_def [symmetric] by (auto split: if_splits)
  ultimately have "map_of g1 ip = None"
    using Cons.prems(1) by (simp add: c update_conv')
  with Cons.IH [OF _ _ run] Cons.prems(1) show ?case by simp
qed simp

section \<open>Properties\<close>



end
