(* ===== verification/Exec_Path.thy ===== *)
theory Exec_Path
  imports Client Relay
begin

text \<open>
  The path of one anonymous request: the client's agent, the relay, the gateway
  and the origin composed as the deployment composes them, and the exchange of
  a sealed prompt and its answer along it through the broker to a host.
\<close>

section \<open>The hops as HTTP peers\<close>

definition via_gateway ::
  "bhttp_prims \<Rightarrow> ('k, 'co, 'so) ohttp_prims \<Rightarrow> gw_url \<Rightarrow> bytes \<Rightarrow> GatewayConfig \<Rightarrow> string \<Rightarrow> 'w http \<Rightarrow> 'w http" where
  "via_gateway B Q UP r st url origin req w =
     (if hq_method req = ''POST'' \<and> hq_url req = url
      then (let (resp, w') = gateway_handle B Q UP r origin st (hq_body req) w in (Some resp, w'))
      else (None, w))"

definition via_relay ::
  "RelayConfig \<Rightarrow> nat \<Rightarrow> IpAddr \<Rightarrow> string \<Rightarrow> 'w http \<Rightarrow> (buckets \<times> 'w) http" where
  "via_relay cfg now peer url gateway req gw =
     (if hq_method req = ''POST'' \<and> hq_url req = url @ ''/ohttp''
      then (let (resp, gw') = ohttp cfg now peer gateway req gw in (Some resp, gw'))
      else (None, gw))"

text \<open>The broker's exec route; \<open>render\<close> gives the JSON of the answers that are not a host's bytes.\<close>

definition broker_http :: "(response \<Rightarrow> bytes) \<Rightarrow> response \<Rightarrow> http_resp" where
  "broker_http render r =
     \<lparr>hs_status = (case r of Err s _ \<Rightarrow> s | _ \<Rightarrow> 200), hs_content_type = Some (ascii ''application/json''),
      hs_retry_after = None, hs_body = Some (case r of OkBody b \<Rightarrow> b | _ \<Rightarrow> render r)\<rparr>"

definition exec_origin ::
  "broker_ext \<Rightarrow> BrokerState \<Rightarrow> exec_env \<Rightarrow> (response \<Rightarrow> bytes) \<Rightarrow> string \<Rightarrow> (TunnelRegistry \<times> store) http" where
  "exec_origin BX S E render url req ts =
     (if hq_method req = ''POST'' \<and> hq_url req = url
      then (let (r, ts') = exec BX S E (hq_body req) ts in (Some (broker_http render r), ts'))
      else (None, ts))"

section \<open>What the codecs promise\<close>

text \<open>RFC 9292: a message reads back as it was written; a header is found by its name.\<close>

definition bhttp_correct :: "bhttp_prims \<Rightarrow> bool" where
  "bhttp_correct B \<longleftrightarrow>
     (\<forall>m b. bh_write B m = Some b \<longrightarrow> bh_read B b = Some m)
     \<and> (\<forall>n v. bh_header_get B [(n, v)] n = Some v) \<and> (\<forall>n. bh_header_get B [] n = None)"

definition exec_codecs_agree :: "('cs, 'cr) client_ext \<Rightarrow> broker_ext \<Rightarrow> host_json \<Rightarrow> bool" where
  "exec_codecs_agree X BX J \<longleftrightarrow>
     (\<forall>q b. cx_json_exec X q = Some b \<longrightarrow> bx_parse_exec BX b = Some q)
     \<and> (\<forall>q b. bx_json_host_exec BX q = Some b \<longrightarrow> hj_parse_exec J b = Some q)
     \<and> (\<forall>r b. hj_exec_response J r = Some b \<longrightarrow> cx_parse_exec_response X b = Some r)"

section \<open>The oblivious round trip\<close>

lemma char_of_byte [simp]: "char_of (unat (of_char c :: u8)) = c"
proof -
  have "unat (of_nat (of_char c) :: u8) = of_char c"
    using nat_of_char_less_256 [of c] by (simp add: unat_of_nat)
  then show ?thesis by (simp only: of_nat_of_char char_of_char)
qed

lemma from_utf8_ascii: "utf8_ok (ascii s) \<Longrightarrow> from_utf8 (ascii s) = Some s"
  by (simp add: from_utf8_def ascii_def comp_def map_idI)

definition inner_message :: "InnerRequest \<Rightarrow> bh_message" where
  "inner_message req =
     \<lparr>bm_control = BRequest (ascii (ir_method req)) (ascii ''https'') [] (ascii (ir_path req)),
      bm_header = (case ir_content_type req of None \<Rightarrow> [] | Some ct \<Rightarrow> [(ascii ''content-type'', ascii ct)]),
      bm_content = ir_body req\<rparr>"

definition forwarded :: "string \<Rightarrow> InnerRequest \<Rightarrow> http_req" where
  "forwarded url req =
     \<lparr>hq_method = ir_method req, hq_url = url, hq_content_type = map_option ascii (ir_content_type req),
      hq_body = (if ir_method req = ''GET'' then [] else ir_body req)\<rparr>"

text \<open>The request the gateway builds from what the agent sealed.\<close>

lemma origin_request_inner:
  assumes "bhttp_correct B" and "ir_method req \<in> {''GET'', ''POST''}" and "utf8_ok (ascii (ir_path req))"
    and "path_allowed (ir_path req) (gc_allowed_path_prefixes st)"
    and "UP (gc_origin_url st @ ir_path req) = Some (url, ppath)"
    and "path_allowed ppath (gc_allowed_path_prefixes st)"
  shows "origin_request B UP st (inner_message req) = Inr (forwarded url req)"
proof -
  have "utf8_ok (ascii (ir_method req))" "to_ascii_uppercase (ir_method req) = ir_method req"
    using assms(2) by (auto simp: ascii_def to_ascii_uppercase_def ascii_upper_def)
  then have m: "inner_method (inner_message req) = Some (ir_method req)"
    by (simp add: inner_method_def inner_message_def from_utf8_ascii)
  have p: "inner_path (inner_message req) = Some (ir_path req)"
    using assms(3) by (simp add: inner_path_def inner_message_def from_utf8_ascii)
  have h: "bh_header_get B (bm_header (inner_message req)) (ascii ''content-type'') = map_option ascii (ir_content_type req)"
    using assms(1) by (simp add: bhttp_correct_def inner_message_def split: option.split)
  show ?thesis
    using assms(2,4-6) m p h by (auto simp: origin_request_def forwarded_def inner_message_def)
qed

lemma gateway_answers:
  assumes B: "bhttp_correct B" and Q: "ohttp_correct Q" and pub: "ohttp_public_from_secret Q (gc_secret st) = Inr kc"
    and enc: "bh_write B (inner_message req) = Some inner"
    and cap: "ohttp_encapsulate Q r kc inner = Inr (capsule, cctx)"
    and oreq: "origin_request B UP st (inner_message req) = Inr oreq"
    and answer: "origin oreq w = (Some resp, w')" "hs_body resp = Some b" "bh_status_ok B (hs_status resp)"
    and wr: "bh_write B \<lparr>bm_control = BResponse (hs_status resp), bm_header = [], bm_content = b\<rparr> = Some rb"
    and live: "\<And>so p. \<exists>ct. oh_resp_encapsulate Q r' so p = Inr ct"
  obtains sealed where "gateway_handle B Q UP r' origin st capsule w
      = (\<lparr>hs_status = 200, hs_content_type = Some (ascii ''message/ohttp-res''), hs_retry_after = None,
          hs_body = Some sealed\<rparr>, w')"
    and "ohttp_open_chunk Q sealed cctx = (Inr (rb, True), None)"
proof -
  obtain sctx where d: "ohttp_decapsulate Q (gc_secret st) capsule = Inr (inner, sctx)"
    and o: "\<And>r' chunk is_last ct s'. ohttp_seal_chunk Q r' chunk is_last sctx = (Inr ct, s') \<Longrightarrow>
           ohttp_open_chunk Q ct cctx = (Inr (chunk, is_last), None)"
    using ohttp_open_encapsulated [OF Q pub cap] by blast
  obtain so where "sctx = Some so"
    using d by (auto simp: ohttp_decapsulate_def split: if_splits sum.splits)
  then obtain ct where ct: "ohttp_seal_chunk Q r' rb True sctx = (Inr ct, None)"
    using live by (metis (no_types, lifting) ohttp_seal_chunk_def option.case(2) sum.case(2))
  have "bh_read B inner = Some (inner_message req)"
    using B enc by (simp add: bhttp_correct_def)
  then have "process B Q UP r' origin st capsule w = (Inr ct, w')"
    using d oreq answer wr ct by (simp add: process_def seal_origin_response_def)
  with that [of ct] o [OF ct] show ?thesis
    by (simp add: gateway_handle_def)
qed

lemma oblivious_round_trip:
  assumes B: "bhttp_correct B" and Q: "ohttp_correct Q"
    and pub: "ohttp_public_from_secret Q (gc_secret st) = Inr (ag_key_config ag)"
    and enc: "bh_write B (inner_message req) = Some inner"
    and cap: "ohttp_encapsulate Q r (ag_key_config ag) inner = Inr (capsule, cctx)"
    and small: "length capsule \<le> rc_max_body_bytes rcfg"
    and allowed: "allow (rc_per_ip rcfg) now peer g = (True, g')"
    and oreq: "origin_request B UP st (inner_message req) = Inr oreq"
    and answer: "origin oreq w = (Some resp, w')" "hs_body resp = Some b" "bh_status_ok B (hs_status resp)"
    and wr: "bh_write B \<lparr>bm_control = BResponse (hs_status resp), bm_header = [], bm_content = b\<rparr> = Some rb"
    and live: "\<And>so p. \<exists>ct. oh_resp_encapsulate Q r' so p = Inr ct"
  shows "round_trip B Q r
      (via_relay rcfg now peer (ag_relay_url ag) (via_gateway B Q UP r' st (rc_gateway_url rcfg) origin)) ag req (g, w)
    = (Inr \<lparr>is_status = hs_status resp, is_body = b\<rparr>, g', w')"
proof -
  obtain sealed where gw: "gateway_handle B Q UP r' origin st capsule w
      = (\<lparr>hs_status = 200, hs_content_type = Some (ascii ''message/ohttp-res''), hs_retry_after = None,
          hs_body = Some sealed\<rparr>, w')"
    and o: "ohttp_open_chunk Q sealed cctx = (Inr (rb, True), None)"
    using gateway_answers [where origin = origin, OF B Q pub enc cap oreq answer wr live] by blast
  have "encode_request B req = Inr inner"
    using enc by (simp add: encode_request_def inner_message_def)
  moreover have "via_relay rcfg now peer (ag_relay_url ag) (via_gateway B Q UP r' st (rc_gateway_url rcfg) origin)
      \<lparr>hq_method = ''POST'', hq_url = ag_relay_url ag @ ''/ohttp'',
       hq_content_type = Some (ascii ''message/ohttp-req''), hq_body = capsule\<rparr> (g, w)
    = (Some \<lparr>hs_status = 200, hs_content_type = Some (ascii ''message/ohttp-res''), hs_retry_after = None,
             hs_body = Some sealed\<rparr>, g', w')"
    using small allowed gw by (simp add: via_relay_def ohttp_def via_gateway_def)
  moreover have "decode_response B rb = Inr \<lparr>is_status = hs_status resp, is_body = b\<rparr>"
    using B wr by (simp add: decode_response_def bhttp_correct_def)
  ultimately show ?thesis
    using cap o by (simp add: round_trip_def is_success_def)
qed

section \<open>The sealed exchange\<close>

text \<open>What the broker's HTTP client gets from a host that serves its exec route at an address.\<close>

definition dials_host :: "exec_env \<Rightarrow> string \<Rightarrow> (bytes \<Rightarrow> http_resp) \<Rightarrow> bool" where
  "dials_host E addr handler \<longleftrightarrow>
     (\<forall>body. ee_http E (addr @ ''/v1/exec'') body = Some (hs_status (handler body), hs_body (handler body)))"

lemma host_exec_serves:
  assumes "hj_parse_exec J hbody = Some \<lparr>he_spend_id = spend_id, he_sealed = sealed\<rparr>"
    and "sealed \<noteq> []" and "length sealed \<le> MAX_SEALED_LEN"
    and "serve_sealed H r sk spend_id sealed up = Inr er" and "hj_exec_response J er = Some out"
  shows "hs_status (host_exec H J r sk up hbody) = 200 \<and> hs_body (host_exec H J r sk up hbody) = Some out"
  using assms by (simp add: host_exec_def HostExecRequest_validate_def)

lemma exec_relays_host:
  assumes "bx_parse_exec BX body = Some req" and "is_ok (ExecRequest_validate req)" and "ex_key_id req = bs_key_id S"
    and "is_ok (token_verify (bx_rsa BX) (bs_issuer_pk S) (ex_token req))"
    and "exec_route E (ex_host_account req) (T, st) = (Inr (Http addr), T')"
    and "with_write (ee_flt_write E) (spend_txn (token_spend_id (bx_prims BX) (ex_token req)) (ex_host_account req)
           (cfg_epoch (bs_cfg S))) st = (Inr Spent, st')"
    and "bx_json_host_exec BX \<lparr>he_spend_id = token_spend_id (bx_prims BX) (ex_token req), he_sealed = ex_sealed req\<rparr>
           = Some hbody"
    and "ee_http E (addr @ ''/v1/exec'') hbody = Some (200, Some out)"
  shows "exec BX S E body (T, st) = (OkBody out, T', st')"
  using assms by (simp add: exec_def exec_spend_def exec_forward_def drop_route_def Let_def)

text \<open>
  The client's half: over any round trip that returns the host's served answer
  with status 200, it obtains the upstream's answer.
\<close>

lemma exec_with_host_answer:
  assumes H: "hpke_correct (cx_hpke X) linked"
    and host: "host_keygen (cx_hpke X) r0 = Inr (sk, se_hpke_pk entry)"
    and session: "session_keygen (cx_hpke X) rs = Inr (ssk, spk)"
    and sealed: "e2e_seal (cx_hpke X) re (se_hpke_pk entry) (token_spend_id (cx_prims X) token) prompt spk = Inr sealed"
    and json: "cx_json_exec X \<lparr>ex_key_id = kc_key_id kc, ex_host_account = se_host_account entry,
                 ex_token = token, ex_sealed = sealed\<rparr> = Some body"
    and rt: "rt (cli_agent c) \<lparr>ir_method = ''POST'', ir_path = ''/v1/exec'',
               ir_content_type = Some ''application/json'', ir_body = body\<rparr> w
               = (Inr \<lparr>is_status = 200, is_body = out\<rparr>, w')"
    and served: "serve_sealed (cx_hpke X) rh sk (token_spend_id (cx_prims X) token) sealed up = Inr er"
    and out: "cx_parse_exec_response X out = Some er"
  shows "\<exists>answer. up prompt = Inr answer \<and> exec_with_host X rt rs re kc token entry prompt c w = (Inr answer, w')"
proof -
  obtain answer cr where "up prompt = Inr answer"
    and "response_setup_client (cx_hpke X) ssk (er_preamble er) = Inr cr"
    and "fst (response_open_chunk (cx_hpke X) (er_chunk er) cr) = Inr (answer, True)"
    using serve_sealed_opens [OF H host session sealed served] by blast
  then show ?thesis
    using session sealed json rt out by (auto simp: exec_with_host_def call_def Let_def)
qed

section \<open>A concrete exchange\<close>

text \<open>
  One exchange with the transparent instances: the codecs know exactly the
  messages of this exchange, each under a short name.
\<close>

definition demo_entry :: SnapshotHostEntry where
  "demo_entry = \<lparr>se_host_account = replicate 32 4, se_hpke_pk = replicate 32 0, se_models = [], se_tier_flags = 0,
     se_load_bucket = 0, se_freshness_bucket = 0\<rparr>"

definition demo_prompt :: bytes where "demo_prompt = [104, 105]"

definition demo_sealed :: SealedRequest where
  "demo_sealed = replicate 32 0 @ demo_hdr 0 (token_spend_id demo_prims demo_token) @ replicate 32 0 @ demo_prompt"

definition demo_exec_request :: ExecRequest where
  "demo_exec_request = \<lparr>ex_key_id = 7 # replicate 31 0, ex_host_account = replicate 32 4, ex_token = demo_token,
     ex_sealed = demo_sealed\<rparr>"

definition demo_host_request :: HostExecRequest where
  "demo_host_request = \<lparr>he_spend_id = token_spend_id demo_prims demo_token, he_sealed = demo_sealed\<rparr>"

definition demo_exec_response :: ExecResponse where
  "demo_exec_response = \<lparr>er_preamble = replicate 32 0, er_chunk = 1 # demo_hdr 0 [1] @ 65 # demo_prompt\<rparr>"

definition demo_client_ext :: "(nat, nat) client_ext" where
  "demo_client_ext = \<lparr>cx_prims = demo_prims, cx_rsa = demo_rsa, cx_hpke = demo_hpke, cx_url = (\<lambda>_. None),
     cx_snap = demo_snapshot_codec, cx_parse_bootstrap = (\<lambda>_. None), cx_pc_bootstrap = (\<lambda>_. None),
     cx_parse_kc = (\<lambda>_. None), cx_pc_batch = (\<lambda>_. Some []), cx_json_issue = (\<lambda>_. Some []),
     cx_parse_issue_response = (\<lambda>_. None), cx_json_trial = (\<lambda>_. None), cx_parse_snapshot = (\<lambda>_. None),
     cx_json_exec = (\<lambda>q. if q = demo_exec_request then Some [1] else None),
     cx_parse_exec_response = (\<lambda>b. Some demo_exec_response)\<rparr>"

definition demo_path_ext :: broker_ext where
  "demo_path_ext = demo_broker_ext\<lparr>bx_parse_exec := (\<lambda>b. Some demo_exec_request),
     bx_json_host_exec := (\<lambda>q. if q = demo_host_request then Some [2] else None)\<rparr>"

definition demo_host_json :: host_json where
  "demo_host_json = \<lparr>hj_parse_exec = (\<lambda>b. Some demo_host_request),
     hj_exec_response = (\<lambda>r. if r = demo_exec_response then Some [3] else None), hj_error = (\<lambda>_. [])\<rparr>"

definition demo_path_env :: exec_env where
  "demo_path_env = demo_exec_env\<lparr>ee_http := (\<lambda>_ body.
     let resp = host_exec demo_hpke demo_host_json [] (replicate 32 0) (echo_complete [65]) body in
     Some (hs_status resp, hs_body resp))\<rparr>"

definition demo_inner :: InnerRequest where
  "demo_inner = \<lparr>ir_method = ''POST'', ir_path = ''/v1/exec'', ir_content_type = Some ''application/json'', ir_body = [1]\<rparr>"

definition demo_bhttp :: bhttp_prims where
  "demo_bhttp = \<lparr>
     bh_write = (\<lambda>m. if m = inner_message demo_inner then Some [0]
                     else if m = \<lparr>bm_control = BResponse 200, bm_header = [], bm_content = [3]\<rparr> then Some [1] else None),
     bh_read = (\<lambda>b. if b = [0] then Some (inner_message demo_inner)
                    else if b = [1] then Some \<lparr>bm_control = BResponse 200, bm_header = [], bm_content = [3]\<rparr> else None),
     bh_header_get = (\<lambda>hs n. map_of hs n),
     bh_status_ok = (\<lambda>s. 100 \<le> s \<and> s < 600)\<rparr>"

definition demo_gateway :: GatewayConfig where
  "demo_gateway = \<lparr>gc_secret = 1 # replicate 32 5, gc_origin_url = ''http://o'', gc_allowed_path_prefixes = [''/v1/'']\<rparr>"

definition demo_relay :: RelayConfig where
  "demo_relay = \<lparr>rc_gateway_url = ''http://g/'', rc_max_body_bytes = 100,
     rc_per_ip = \<lparr>rl_capacity = 2, rl_refill_per_sec = 0\<rparr>, rc_pow_difficulty = 0, rc_bootstrap_blob = None\<rparr>"

definition demo_client :: Client where
  "demo_client = Client_new ''http://r'' (1 # replicate 32 5) [] [] [] []"

definition demo_kc :: KeyConfigResponse where
  "demo_kc = \<lparr>kc_key_id = 7 # replicate 31 0, kc_issuer_public_key = [7], kc_epoch = 1, kc_denomination = 1\<rparr>"

lemma demo_bhttp_correct: "bhttp_correct demo_bhttp"
  by (simp add: bhttp_correct_def demo_bhttp_def)

lemma demo_exec_codecs: "exec_codecs_agree demo_client_ext demo_path_ext demo_host_json"
  by (simp add: exec_codecs_agree_def demo_client_ext_def demo_path_ext_def demo_host_json_def)

section \<open>Properties\<close>

text \<open>
  C5: an anonymous request end to end. A client seals a prompt to a host of the
  snapshot, spends a valid fresh token, and sends the request through the relay
  (which admits it), the gateway (whose allowlist has the path) and the broker
  (which routes the host at its address and burns the token) to the host. If
  the codecs and libraries on the way do what they promise, every party's
  handler composed as deployed returns to the client exactly the answer of the
  host's upstream to that prompt, and the broker's store is the one in which
  the token is spent.
\<close>

theorem exec_end_to_end:
  assumes H: "hpke_correct (cx_hpke X) linked" and B: "bhttp_correct B" and Q: "ohttp_correct Q"
    and codecs: "exec_codecs_agree X BX J" and prims: "cx_prims X = bx_prims BX"
    and host: "host_keygen (cx_hpke X) seed = Inr (sk, se_hpke_pk entry)"
    and pub: "ohttp_public_from_secret Q (gc_secret gcfg) = Inr (ag_key_config (cli_agent c))"
    and session: "session_keygen (cx_hpke X) rs = Inr (ssk, spk)"
    and sealed: "e2e_seal (cx_hpke X) re (se_hpke_pk entry) (token_spend_id (cx_prims X) token) prompt spk = Inr sealed"
    and size: "sealed \<noteq> []" "length sealed \<le> MAX_SEALED_LEN" "length token = 320"
    and json: "cx_json_exec X \<lparr>ex_key_id = kc_key_id kc, ex_host_account = se_host_account entry,
                 ex_token = token, ex_sealed = sealed\<rparr> = Some body"
    and inner: "bh_write B (inner_message \<lparr>ir_method = ''POST'', ir_path = ''/v1/exec'',
                 ir_content_type = Some ''application/json'', ir_body = body\<rparr>) = Some inner"
    and capsule: "ohttp_encapsulate Q r (ag_key_config (cli_agent c)) inner = Inr (capsule, cctx)"
      "length capsule \<le> rc_max_body_bytes rcfg" "allow (rc_per_ip rcfg) now peer g = (True, g')"
    and path: "path_allowed ''/v1/exec'' (gc_allowed_path_prefixes gcfg)"
      "UP (gc_origin_url gcfg @ ''/v1/exec'') = Some (url, ppath)" "path_allowed ppath (gc_allowed_path_prefixes gcfg)"
    and token: "kc_key_id kc = bs_key_id S" "is_ok (token_verify (bx_rsa BX) (bs_issuer_pk S) token)"
    and route: "exec_route E (se_host_account entry) (T, st) = (Inr (Http addr), T')"
    and spent: "with_write (ee_flt_write E) (spend_txn (token_spend_id (bx_prims BX) token) (se_host_account entry)
                 (cfg_epoch (bs_cfg S))) st = (Inr Spent, st')"
    and hbody: "bx_json_host_exec BX \<lparr>he_spend_id = token_spend_id (bx_prims BX) token, he_sealed = sealed\<rparr> = Some hbody"
    and dials: "dials_host E addr (host_exec (cx_hpke X) J rh sk up)"
    and served: "serve_sealed (cx_hpke X) rh sk (token_spend_id (cx_prims X) token) sealed up = Inr er"
      "hj_exec_response J er = Some out"
    and back_ok: "bh_status_ok B 200"
      "bh_write B \<lparr>bm_control = BResponse 200, bm_header = [], bm_content = out\<rparr> = Some rb"
      "\<forall>so p. \<exists>ct. oh_resp_encapsulate Q r' so p = Inr ct"
  shows "\<exists>answer. up prompt = Inr answer
    \<and> exec_with_host X (round_trip B Q r (via_relay rcfg now peer (ag_relay_url (cli_agent c))
          (via_gateway B Q UP r' gcfg (rc_gateway_url rcfg) (exec_origin BX S E render url))))
        rs re kc token entry prompt c (g, T, st)
      = (Inr answer, g', T', st')"
proof (rule exec_with_host_answer [OF H host session sealed json _ served(1)])
  let ?req = "\<lparr>ir_method = ''POST'', ir_path = ''/v1/exec'', ir_content_type = Some ''application/json'', ir_body = body\<rparr>"
  let ?er = "\<lparr>ex_key_id = kc_key_id kc, ex_host_account = se_host_account entry, ex_token = token, ex_sealed = sealed\<rparr>"
  have parse: "bx_parse_exec BX body = Some ?er" "hj_parse_exec J hbody
      = Some \<lparr>he_spend_id = token_spend_id (cx_prims X) token, he_sealed = sealed\<rparr>"
    using codecs json hbody prims by (simp_all add: exec_codecs_agree_def)
  show "cx_parse_exec_response X out = Some er"
    using codecs served(2) by (simp add: exec_codecs_agree_def)
  have "ee_http E (addr @ ''/v1/exec'') hbody = Some (200, Some out)"
    using host_exec_serves [OF parse(2) size(1,2) served] dials by (simp add: dials_host_def)
  then have "exec BX S E body (T, st) = (OkBody out, T', st')"
    using parse(1) size token route spent hbody
    by (intro exec_relays_host [where req = ?er]) (simp_all add: ExecRequest_validate_def)
  then have origin: "exec_origin BX S E render url (forwarded url ?req) (T, st)
      = (Some (broker_http render (OkBody out)), T', st')"
    by (simp add: exec_origin_def forwarded_def)
  have "origin_request B UP gcfg (inner_message ?req) = Inr (forwarded url ?req)"
    using path by (intro origin_request_inner [OF B, where ppath = ppath]) (simp_all add: ascii_def)
  from oblivious_round_trip [where origin = "exec_origin BX S E render url", OF B Q pub inner capsule this origin, of out rb r']
  show "round_trip B Q r (via_relay rcfg now peer (ag_relay_url (cli_agent c))
      (via_gateway B Q UP r' gcfg (rc_gateway_url rcfg) (exec_origin BX S E render url))) (cli_agent c) ?req (g, T, st)
    = (Inr \<lparr>is_status = 200, is_body = out\<rparr>, g', T', st')"
    using back_ok by (simp add: broker_http_def)
qed

theorem exec_end_to_end_witness:
  "\<exists>answer. echo_complete [65] demo_prompt = Inr answer
    \<and> exec_with_host demo_client_ext (round_trip demo_bhttp demo_ohttp []
          (via_relay demo_relay 9 (V4 [1, 2, 3, 4]) (ag_relay_url (cli_agent demo_client))
            (via_gateway demo_bhttp demo_ohttp (\<lambda>_. Some (''http://o/v1/exec'', ''/v1/exec'')) [] demo_gateway
               (rc_gateway_url demo_relay) (exec_origin demo_path_ext demo_broker demo_path_env (\<lambda>_. []) ''http://o/v1/exec''))))
        [] [] demo_kc demo_token demo_entry demo_prompt demo_client ([], tunnels_new, demo_serving_store)
      = (Inr answer, [(V4 [1, 2, 3, 4], \<lparr>bk_tokens = 1, bk_last = 9\<rparr>)], tunnels_new,
         spent_store (token_spend_id demo_prims demo_token) (replicate 32 4) 1 demo_serving_store)"
proof (rule exec_end_to_end [where J = demo_host_json and ppath = "''/v1/exec''" and linked = "(=)" and seed = "[]"
      and sk = "replicate 32 0" and ssk = "replicate 32 0" and spk = "replicate 32 0" and sealed = demo_sealed
      and body = "[1]" and inner = "[0]" and capsule = "1 # replicate 32 5 @ [0]" and cctx = "Some ()"
      and addr = "''http://h''" and hbody = "[2]" and er = demo_exec_response and out = "[3]" and rb = "[1]" and rh = "[]"])
  show "hpke_correct (cx_hpke demo_client_ext) (=)"
    using demo_hpke_correct by (simp add: demo_client_ext_def)
  show "bhttp_correct demo_bhttp" by (rule demo_bhttp_correct)
  show "ohttp_correct demo_ohttp" by (rule demo_ohttp_correct)
  show "exec_codecs_agree demo_client_ext demo_path_ext demo_host_json" by (rule demo_exec_codecs)
  have tok: "length demo_token = 320" "length (token_spend_id demo_prims demo_token) = 32"
    by (simp_all add: demo_token_def token_spend_id_def demo_prims_def)
  show "length demo_token = 320" by (rule tok)
  show "length demo_sealed \<le> MAX_SEALED_LEN" "demo_sealed \<noteq> []"
    by (simp_all add: demo_sealed_def demo_hdr_def tok MAX_SEALED_LEN_def demo_prompt_def)
  show seal: "e2e_seal (cx_hpke demo_client_ext) [] (se_hpke_pk demo_entry)
      (token_spend_id (cx_prims demo_client_ext) demo_token) demo_prompt (replicate 32 0) = Inr demo_sealed"
    by (simp add: demo_client_ext_def e2e_seal_def kem_pk_def demo_hpke_def demo_entry_def demo_sealed_def)
  have host: "host_keygen demo_hpke [] = Inr (replicate 32 0, se_hpke_pk demo_entry)"
    by (simp add: host_keygen_def demo_hpke_def demo_entry_def)
  then show "host_keygen (cx_hpke demo_client_ext) [] = Inr (replicate 32 0, se_hpke_pk demo_entry)"
    by (simp add: demo_client_ext_def)
  have "e2e_open demo_hpke (replicate 32 0) (token_spend_id demo_prims demo_token) demo_sealed
      = Inr (demo_prompt, replicate 32 0)"
    using seal by (intro e2e_open_seal [OF demo_hpke_correct host]) (simp add: demo_client_ext_def)
  then show "serve_sealed (cx_hpke demo_client_ext) [] (replicate 32 0)
      (token_spend_id (cx_prims demo_client_ext) demo_token) demo_sealed (echo_complete [65]) = Inr demo_exec_response"
    by (simp add: demo_client_ext_def serve_sealed_def echo_complete_def response_setup_host_def kem_pk_def
      response_seal_chunk_def flag_byte_def demo_hpke_def demo_exec_response_def)
  show "is_ok (token_verify (bx_rsa demo_path_ext) (bs_issuer_pk demo_broker) demo_token)"
    using demo_token_valid by (simp add: demo_path_ext_def)
  show "exec_route demo_path_env (se_host_account demo_entry) (tunnels_new, demo_serving_store)
      = (Inr (Http ''http://h''), tunnels_new)"
    using demo_exec_route by (simp add: exec_route_def demo_path_env_def demo_entry_def)
  show "with_write (ee_flt_write demo_path_env) (spend_txn (token_spend_id (bx_prims demo_path_ext) demo_token)
        (se_host_account demo_entry) (cfg_epoch (bs_cfg demo_broker))) demo_serving_store
      = (Inr Spent, spent_store (token_spend_id demo_prims demo_token) (replicate 32 4) 1 demo_serving_store)"
    using demo_spend by (simp add: demo_path_env_def demo_path_ext_def demo_entry_def demo_broker_ext_def
      demo_exec_env_def demo_broker_def BrokerState_new_def BrokerConfig_default_def)
  show "path_allowed ''/v1/exec'' (gc_allowed_path_prefixes demo_gateway)"
    "path_allowed ''/v1/exec'' (gc_allowed_path_prefixes demo_gateway)"
    by (simp_all add: path_allowed_def demo_gateway_def starts_with_def ends_with_char_def)
  show "dials_host demo_path_env ''http://h'' (host_exec (cx_hpke demo_client_ext) demo_host_json [] (replicate 32 0)
      (echo_complete [65]))"
    by (simp add: dials_host_def demo_path_env_def demo_client_ext_def Let_def)
  show "allow (rc_per_ip demo_relay) 9 (V4 [1, 2, 3, 4]) []
      = (True, [(V4 [1, 2, 3, 4], \<lparr>bk_tokens = 1, bk_last = 9\<rparr>)])"
    by (simp add: allow_def refilled_def secs_def u32_rat_def demo_relay_def)
  show "kc_key_id demo_kc = bs_key_id demo_broker"
    by (simp add: demo_kc_def demo_broker_def BrokerState_new_def demo_prims_def)
qed (simp_all add: demo_client_ext_def demo_path_ext_def demo_broker_ext_def demo_bhttp_def demo_ohttp_def demo_gateway_def
    demo_relay_def demo_client_def Client_new_def demo_kc_def demo_entry_def demo_host_json_def demo_exec_request_def
    demo_host_request_def demo_inner_def inner_message_def session_keygen_def demo_hpke_def ohttp_public_from_secret_def
    ohttp_encapsulate_def IKM_LEN_def subslice_def)

end
