(* ===== verification/Origin_Routes.thy ===== *)
theory Origin_Routes
  imports Exec_Path
begin

text \<open>
  The routing tables of the services, and which handler of the co-located origin a
  request reaches. axum is a parameter: a function from a table, a method and a path
  to the handler or the status it answers with, of which \<open>axum_routes\<close> states what
  its documentation promises for paths without parameters. The gateway's allowlist
  decides which of the routes on the core listener a client can reach at all.
\<close>

section \<open>Routers\<close>

type_synonym 'h router = "(string \<times> string \<times> 'h) list"

datatype 'h routed = Run 'h | NotFound | MethodNotAllowed

type_synonym 'h axum = "'h router \<Rightarrow> string \<Rightarrow> string \<Rightarrow> 'h routed"

text \<open>
  A path is matched exactly, a handler is run for its own method, and that of \<open>GET\<close>
  for \<open>HEAD\<close> too; anything else is answered with 404 or 405.
\<close>

definition axum_routes :: "'h axum \<Rightarrow> bool" where
  "axum_routes A \<longleftrightarrow>
     (\<forall>R m path h. A R m path = Run h \<longrightarrow> (\<exists>m'. (path, m', h) \<in> set R \<and> (m' = m \<or> m' = ''GET'' \<and> m = ''HEAD'')))
     \<and> (\<forall>R m path h. distinct (map (\<lambda>(p, m, _). (p, m)) R) \<longrightarrow> (path, m, h) \<in> set R \<longrightarrow> A R m path = Run h)"

datatype core_handler =
  key_config_h | issue_h | redeem_h | admin_grant_h | exec_h | trial_register_h | snapshot_get_h

datatype ingress_handler = host_register_h | host_heartbeat_h | receipt_submit_h | tunnel_ws_h | admin_invariant_h

definition issuer_router :: "core_handler router" where
  "issuer_router =
     [(''/v1/key-config'', ''GET'', key_config_h), (''/v1/issue'', ''POST'', issue_h),
      (''/v1/redeem'', ''POST'', redeem_h), (''/v1/admin/grant'', ''POST'', admin_grant_h)]"

definition core_router :: "core_handler router" where
  "core_router =
     [(''/v1/exec'', ''POST'', exec_h), (''/v1/register'', ''POST'', trial_register_h),
      (''/v1/snapshot'', ''GET'', snapshot_get_h)]"

definition TUNNEL_PATH :: string where
  "TUNNEL_PATH = ''/v1/host/tunnel''"

definition ingress_router :: "ingress_handler router" where
  "ingress_router =
     [(''/v1/host/register'', ''POST'', host_register_h), (''/v1/heartbeat'', ''POST'', host_heartbeat_h),
      (''/v1/receipt'', ''POST'', receipt_submit_h), (TUNNEL_PATH, ''GET'', tunnel_ws_h),
      (''/admin/invariant'', ''GET'', admin_invariant_h)]"

text \<open>The issuer's router merged with the broker's; merging panics on a path and method in both.\<close>

definition core_app :: "core_handler router" where
  "core_app = issuer_router @ core_router"

lemma core_app_disjoint: "distinct (map (\<lambda>(p, m, _). (p, m)) core_app)"
  by code_simp

section \<open>Serving\<close>

text \<open>What one request meets: the third-party code, the origin, the clock, faults, randomness and network.\<close>

record core_env =
  ce_issuer :: issuer_ext
  ce_broker :: broker_ext
  ce_origin :: origin
  ce_now :: u64
  ce_flt :: faults
  ce_rand :: "nat \<Rightarrow> bytes"
  ce_exec :: exec_env

datatype core_reply =
    RStatus u16
  | RKeyConfig KeyConfigResponse
  | RIssue "IssuerError + IssueResponse"
  | RRedeem "IssuerError + RedeemResponse"
  | RGrant "IssuerError + unit"
  | RBroker response

type_synonym core_state = "IssueIdempotencyCache \<times> TunnelRegistry \<times> store"

definition core_run :: "core_env \<Rightarrow> core_handler \<Rightarrow> string option \<Rightarrow> bytes \<Rightarrow> core_state \<Rightarrow> core_reply \<times> core_state" where
  "core_run V h secret_header body cs =
     (let (c, T, st) = cs; D = ce_origin V;
          S = colocated (or_keys D) (or_admin_secret D) (ce_now V) (ce_flt V) in
      case h of
        key_config_h \<Rightarrow> (RKeyConfig (key_config (ix_prims (ce_issuer V)) S), cs)
      | issue_h \<Rightarrow> (let (r, c', st') = issue (ce_issuer V) S (ce_rand V) body (c, st) in (RIssue r, c', T, st'))
      | redeem_h \<Rightarrow> (let (r, st') = redeem (ce_issuer V) S body st in (RRedeem r, c, T, st'))
      | admin_grant_h \<Rightarrow> (let (r, st') = admin_grant (ce_issuer V) S secret_header body st in (RGrant r, c, T, st'))
      | exec_h \<Rightarrow> (let (r, T', st') = exec (ce_broker V) (or_broker D) (ce_exec V) body (T, st) in (RBroker r, c, T', st'))
      | trial_register_h \<Rightarrow>
          (let (r, st') = trial_register (ce_broker V) (or_broker D) (ce_flt V) (ce_now V) body st in (RBroker r, c, T, st'))
      | snapshot_get_h \<Rightarrow> (RBroker (snapshot_get (ce_broker V) (or_broker D) (ce_flt V) (ce_now V) st), cs))"

definition core_serve ::
  "core_handler axum \<Rightarrow> core_env \<Rightarrow> string \<Rightarrow> string \<Rightarrow> string option \<Rightarrow> bytes \<Rightarrow> core_state \<Rightarrow> core_reply \<times> core_state" where
  "core_serve A V m path secret_header body cs =
     (case A core_app m path of
        NotFound \<Rightarrow> (RStatus 404, cs)
      | MethodNotAllowed \<Rightarrow> (RStatus 405, cs)
      | Run h \<Rightarrow> core_run V h secret_header body cs)"

lemma dispatch_run:
  "axum_routes A \<Longrightarrow> A R m path = Run h \<Longrightarrow> \<exists>m'. (path, m', h) \<in> set R"
  unfolding axum_routes_def by blast

lemma dispatch_core: "axum_routes A \<Longrightarrow> (path, m, h) \<in> set core_app \<Longrightarrow> A core_app m path = Run h"
  using core_app_disjoint unfolding axum_routes_def by blast

section \<open>What the gateway lets through\<close>

text \<open>
  The five requests of \<open>lluma-client\<close>, the allowlist of the deployment scripts
  and documents (\<open>ops/deploy\<close>), and the one the gateway falls back to.
\<close>

definition client_calls :: "core_handler router" where
  "client_calls =
     [(''/v1/key-config'', ''GET'', key_config_h), (''/v1/issue'', ''POST'', issue_h), (''/v1/register'', ''POST'', trial_register_h),
      (''/v1/snapshot'', ''GET'', snapshot_get_h), (''/v1/exec'', ''POST'', exec_h)]"

definition deployed_allowlist :: string where
  "deployed_allowlist = ''/v1/key-config,/v1/issue,/v1/register,/v1/exec,/v1/snapshot''"

definition deployed_prefixes :: "string list" where
  "deployed_prefixes = parse_prefixes deployed_allowlist"

definition default_prefixes :: "string list" where
  "default_prefixes = parse_prefixes ''/v1/issue,/v1/redeem,/v1/key-config''"

lemma main_prefixes:
  assumes "gateway_main Q E ikm write_ok = Inr (st, kc, f)"
  shows "gc_allowed_path_prefixes st =
    (case pe_var E ''LLUMA_GATEWAY_PREFIXES'' of None \<Rightarrow> default_prefixes | Some v \<Rightarrow> parse_prefixes v)"
  using assms
  by (auto simp: gateway_main_def Let_def env_or_def default_prefixes_def split: if_splits sum.splits option.splits)

lemma deployed_list: "deployed_prefixes = [''/v1/key-config'', ''/v1/issue'', ''/v1/register'', ''/v1/exec'', ''/v1/snapshot'']"
  by code_simp

lemma default_list: "default_prefixes = [''/v1/issue'', ''/v1/redeem'', ''/v1/key-config'']"
  by code_simp

lemma deployed_paths:
  "list_all (\<lambda>(p, m, h). path_allowed p deployed_prefixes = (h \<noteq> redeem_h \<and> h \<noteq> admin_grant_h)) core_app"
  by code_simp

lemma default_paths:
  "list_all (\<lambda>(p, m, h). path_allowed p default_prefixes = (h \<in> {key_config_h, issue_h, redeem_h})) core_app"
  by code_simp

lemma client_calls_routed:
  "list_all (\<lambda>(p, m, h). (p, m, h) \<in> set core_app \<and> path_allowed p deployed_prefixes) client_calls"
  by code_simp

lemma client_calls_served:
  "axum_routes A \<Longrightarrow> list_all (\<lambda>(p, m, h). A core_app m p = Run h \<and> path_allowed p deployed_prefixes) client_calls"
  using client_calls_routed dispatch_core unfolding list_all_iff by fastforce

lemma redeem_exposed:
  "path_allowed ''/v1/redeem'' default_prefixes" "(''/v1/redeem'', ''POST'', redeem_h) \<in> set core_app"
  "\<not> path_allowed ''/v1/register'' default_prefixes" "\<not> path_allowed ''/v1/snapshot'' default_prefixes"
  "\<not> path_allowed ''/v1/exec'' default_prefixes"
  by code_simp+

lemma only_client_calls:
  "list_all (\<lambda>(p, m, h). h = redeem_h \<or> h = admin_grant_h \<or> (p, m, h) \<in> set client_calls) core_app"
  by code_simp

section \<open>What a served request does to the spent set\<close>

definition spends_bound_only :: "store \<Rightarrow> store \<Rightarrow> bool" where
  "spends_bound_only st st' \<longleftrightarrow>
     SPENT st' = SPENT st \<and> SPEND_HOST st' = SPEND_HOST st
     \<or> (\<exists>i h e. tbl_get (SPENT st) i = None \<and> st' = spent_store i h e st
           \<and> c_redeemed (redeemed_row (counter st e)) \<le> c_issued (counter st e))"

lemma spends_bound_only_refl [simp]: "spends_bound_only st st"
  by (simp add: spends_bound_only_def)

lemma debit_keeps_spends:
  "SPENT (snd (redb_debit flt a n st)) = SPENT st \<and> SPEND_HOST (snd (redb_debit flt a n st)) = SPEND_HOST st"
  by (rule redb_debit_cases [of flt a n st]) simp_all

lemma grant_keeps_spends: "SPENT (redb_grant flt a n st) = SPENT st \<and> SPEND_HOST (redb_grant flt a n st) = SPEND_HOST st"
  by (rule redb_grant_cases [of flt a n st]) simp_all

lemma bump_keeps_spends:
  "SPENT (snd (bump_issued flt e n st)) = SPENT st \<and> SPEND_HOST (snd (bump_issued flt e n st)) = SPEND_HOST st"
  by (rule bump_issued_cases [of flt e n st]) (simp_all add: bump_issued_clean)

lemma issue_keeps_spends:
  assumes "issue X (colocated keys admin now flt) r body (c, st) = (res, c', st')"
  shows "SPENT st' = SPENT st \<and> SPEND_HOST st' = SPEND_HOST st"
proof -
  let ?S = "colocated keys admin now flt"
  have reserved: "SPENT (snd (snd (issue_reserved X ?S r req (c, st)))) = SPENT st
      \<and> SPEND_HOST (snd (snd (issue_reserved X ?S r req (c, st)))) = SPEND_HOST st" for req c
    using debit_keeps_spends [of flt "issue_account X req" "batch_amount req" st]
    by (auto simp: issue_reserved_def Let_def bump_keeps_spends grant_keeps_spends split: prod.splits sum.splits)
  show ?thesis
    using assms reserved by (auto simp: issue_def split: sum.splits prod.splits BeginOutcome.splits) (metis snd_conv)+
qed

lemma trial_keeps_spends:
  "SPENT (snd (trial_register B S flt now body st)) = SPENT st \<and> SPEND_HOST (snd (trial_register B S flt now body st)) = SPEND_HOST st"
proof (cases "bx_parse_trial B body")
  case (Some req)
  show ?thesis
    unfolding trial_register_store Some option.case
    by (rule trial_cases [of "bx_prims B" flt req "bs_cfg S" "now div 86400" st]) (simp_all add: trial_store_def)
qed (simp add: trial_register_store)

lemma exec_binds_spends:
  assumes "exec B S E body (T, st) = (r, T', st')"
  shows "spends_bound_only st st'"
  using assms by (cases rule: exec_cases) (auto simp: spends_bound_only_def)

lemma client_call_binds:
  assumes "h \<noteq> redeem_h" "h \<noteq> admin_grant_h" and "core_run V h hdr body (c, T, st) = (r, c', T', st')"
  shows "spends_bound_only st st'"
proof (cases h)
  case exec_h
  with assms(3) show ?thesis by (auto simp: core_run_def Let_def split: prod.splits dest: exec_binds_spends)
next
  case issue_h
  with assms(3) show ?thesis
    by (auto simp: core_run_def Let_def spends_bound_only_def split: prod.splits dest: issue_keeps_spends)
next
  case trial_register_h
  with assms(3) show ?thesis
    using trial_keeps_spends [of "ce_broker V" "or_broker (ce_origin V)" "ce_flt V" "ce_now V" body st]
    by (auto simp: core_run_def Let_def spends_bound_only_def split: prod.splits)
qed (use assms in \<open>auto simp: core_run_def Let_def spends_bound_only_def\<close>)

lemma redeem_marks:
  assumes "redeem X (colocated keys admin now flt) body st = (Inr resp, st')"
  shows "tbl_get (SPENT st) (rr_spend_id resp) = None \<and> st' = st\<lparr>SPENT := tbl_insert (rr_spend_id resp) (ek_epoch keys) (SPENT st)\<rparr>"
proof -
  obtain req where req: "ix_parse_redeem X body = Some req" "resp = \<lparr>rr_spend_id = token_spend_id (ix_prims X) (rd_token req)\<rparr>"
      "redb_spent_insert flt (ek_epoch keys) (token_spend_id (ix_prims X) (rd_token req)) st = (Inserted, st')"
    using assms by (auto simp: redeem_def parse_body_def Let_def split: sum.splits option.splits prod.splits InsertOutcome.splits if_splits)
  show ?thesis
    by (rule redb_spent_insert_cases [of flt "ek_epoch keys" "token_spend_id (ix_prims X) (rd_token req)" st]) (use req in auto)
qed

section \<open>A concrete instance\<close>

definition demo_axum :: "'h axum" where
  "demo_axum R m path =
     (case find (\<lambda>(p, m', _). p = path \<and> m' = m) R of Some (_, _, h) \<Rightarrow> Run h
      | None \<Rightarrow>
          (case find (\<lambda>(p, m', _). p = path \<and> m' = ''GET'' \<and> m = ''HEAD'') R of Some (_, _, h) \<Rightarrow> Run h
           | None \<Rightarrow> if path \<in> fst ` set R then MethodNotAllowed else NotFound))"

lemma find_member: "find Q xs = Some x \<Longrightarrow> x \<in> set xs \<and> Q x"
  by (induction xs) (auto split: if_splits)

lemma find_route: "distinct (map (\<lambda>(p, m, _). (p, m)) R) \<Longrightarrow> (path, m, h) \<in> set R \<Longrightarrow>
    find (\<lambda>(p, m', _). p = path \<and> m' = m) R = Some (path, m, h)"
  by (induction R) force+

lemma demo_axum_routes: "axum_routes demo_axum"
  unfolding axum_routes_def
proof (intro conjI allI impI)
  fix R :: "'a router" and m path h
  assume "demo_axum R m path = Run h"
  then show "\<exists>m'. (path, m', h) \<in> set R \<and> (m' = m \<or> m' = ''GET'' \<and> m = ''HEAD'')"
    by (auto simp: demo_axum_def split: option.splits if_splits dest!: find_member)
next
  fix R :: "'a router" and m path h
  assume "distinct (map (\<lambda>(p, m, _). (p, m)) R)" "(path, m, h) \<in> set R"
  from find_route [OF this] show "demo_axum R m path = Run h" by (simp add: demo_axum_def)
qed

definition demo_gateway_env :: "string option \<Rightarrow> process_env" where
  "demo_gateway_env prefixes = \<lparr>pe_var = (\<lambda>k. if k = ''LLUMA_GATEWAY_ORIGIN'' then Some ''http://o''
       else if k = ''LLUMA_GATEWAY_PREFIXES'' then prefixes else None), pe_file = (\<lambda>_. None), pe_store_opens = True\<rparr>"

definition demo_started :: "string list \<Rightarrow> GatewayConfig" where
  "demo_started prefixes = \<lparr>gc_secret = 1 # replicate 32 5, gc_origin_url = ''http://o'', gc_allowed_path_prefixes = prefixes\<rparr>"

lemma demo_gateway_starts:
  "gateway_main demo_ohttp (demo_gateway_env v) (replicate 32 5) (\<lambda>_. True)
   = Inr (demo_started (case v of None \<Rightarrow> default_prefixes | Some t \<Rightarrow> parse_prefixes t), 1 # replicate 32 5, None)"
  by (cases v) (simp_all add: gateway_main_def Let_def env_or_def demo_gateway_env_def demo_started_def ohttp_keygen_def
      ohttp_public_from_secret_def demo_ohttp_def IKM_LEN_def default_prefixes_def)

lemma demo_started_deployed:
  "gateway_main demo_ohttp (demo_gateway_env (Some deployed_allowlist)) (replicate 32 5) (\<lambda>_. True)
    = Inr (demo_started deployed_prefixes, 1 # replicate 32 5, None)"
  "pe_var (demo_gateway_env (Some deployed_allowlist)) ''LLUMA_GATEWAY_PREFIXES'' = Some deployed_allowlist"
  using demo_gateway_starts [of "Some deployed_allowlist"] by (simp_all add: deployed_prefixes_def demo_gateway_env_def)

lemma demo_started_default:
  "gateway_main demo_ohttp (demo_gateway_env None) (replicate 32 5) (\<lambda>_. True)
    = Inr (demo_started default_prefixes, 1 # replicate 32 5, None)"
  "pe_var (demo_gateway_env None) ''LLUMA_GATEWAY_PREFIXES'' = None"
  using demo_gateway_starts [of None] by (simp_all add: demo_gateway_env_def)

definition demo_redeem_inner :: InnerRequest where
  "demo_redeem_inner = \<lparr>ir_method = ''POST'', ir_path = ''/v1/redeem'', ir_content_type = None, ir_body = [2]\<rparr>"

definition demo_redeem_bhttp :: bhttp_prims where
  "demo_redeem_bhttp = demo_bhttp
     \<lparr>bh_write := (\<lambda>m. if m = inner_message demo_redeem_inner then Some [0] else None),
      bh_read := (\<lambda>b. Some (inner_message demo_redeem_inner))\<rparr>"

lemma demo_redeem_bhttp_correct: "bhttp_correct demo_redeem_bhttp"
  by (simp add: bhttp_correct_def demo_redeem_bhttp_def demo_bhttp_def)

definition demo_redeem_env :: core_env where
  "demo_redeem_env = \<lparr>ce_issuer = demo_ext, ce_broker = demo_path_ext,
     ce_origin = \<lparr>or_keys = demo_keys, or_admin_secret = ''s'', or_broker = demo_broker\<rparr>,
     ce_now = 0, ce_flt = ok_faults, ce_rand = (\<lambda>_. []), ce_exec = demo_path_env\<rparr>"

lemma demo_redeemed:
  "redeem demo_ext (colocated demo_keys ''s'' 0 ok_faults) [2] empty_store
   = (Inr \<lparr>rr_spend_id = replicate 32 1\<rparr>, empty_store\<lparr>SPENT := tbl_insert (replicate 32 1) 1 tbl_empty\<rparr>)"
proof -
  have "token_verify demo_rsa [7] demo_token = Inr ()"
    by (simp add: token_verify_def split_token_def demo_token_def demo_rsa_def subslice_def sum_list_replicate)
  moreover have "token_spend_id demo_prims demo_token = replicate 32 1"
    by (simp add: token_spend_id_def demo_prims_def demo_token_def)
  moreover have "key_id demo_prims demo_keys = 7 # replicate 31 0"
    by (simp add: key_id_def demo_keys_def demo_prims_def)
  moreover have "RedeemRequest_validate \<lparr>rd_key_id = 7 # replicate 31 0, rd_token = demo_token\<rparr> = Inr ()"
    by (simp add: RedeemRequest_validate_def demo_token_def)
  moreover have "redb_spent_insert ok_faults 1 (replicate 32 1) empty_store
      = (Inserted, empty_store\<lparr>SPENT := tbl_insert (replicate 32 1) 1 tbl_empty\<rparr>)"
    by (simp add: redb_spent_insert_def try_insert_def with_write_def txn_defs ok_faults_def empty_store_def)
  ultimately show ?thesis
    by (simp add: redeem_def parse_body_def demo_ext_def Let_def) (simp add: demo_keys_def Let_def)
qed

section \<open>Properties\<close>

text \<open>
  C10: the deployed gateway exposes the client's five requests and nothing else.
  With the allowlist of the deployment scripts, whatever capsule arrives, the
  gateway either sends nothing or sends one request whose path the origin serves
  with one of the five handlers the client calls, or answers 404 or 405: never the
  issuer's redeem, the operator's grant, or a route of the ingress listener. So no
  spend id enters the spent set without a host bound to it and the redeemed counter
  within the issued one. All five requests of the client pass.
\<close>

theorem deployed_gateway_exposes:
  assumes "axum_routes A" and "gateway_main Q E ikm write_ok = Inr (st, kc, f)"
    and "pe_var E ''LLUMA_GATEWAY_PREFIXES'' = Some deployed_allowlist"
  shows "((\<exists>e. process B Q UP r origin st body w = (Inl e, w))
      \<or> (\<exists>req path ppath resp w'. origin req w = (resp, w') \<and> snd (process B Q UP r origin st body w) = w'
           \<and> UP (gc_origin_url st @ path) = Some (hq_url req, ppath)
           \<and> A core_app (hq_method req) ppath
               \<in> {NotFound, MethodNotAllowed} \<union> Run ` {key_config_h, issue_h, trial_register_h, snapshot_get_h, exec_h}
           \<and> (\<forall>V hdr c T s rep c' T' s'. core_serve A V (hq_method req) ppath hdr (hq_body req) (c, T, s) = (rep, c', T', s') \<longrightarrow>
                spends_bound_only s s')))
    \<and> list_all (\<lambda>(p, m, h). A core_app m p = Run h \<and> path_allowed p (gc_allowed_path_prefixes st)) client_calls"
proof -
  have prefixes: "gc_allowed_path_prefixes st = deployed_prefixes"
    using main_prefixes [OF assms(2)] by (simp add: assms(3) deployed_prefixes_def)
  have served: "h \<noteq> redeem_h \<and> h \<noteq> admin_grant_h" if "A core_app m p = Run h" "path_allowed p deployed_prefixes" for m p h
    using dispatch_run [OF assms(1) that(1)] deployed_paths that(2) by (auto simp: list_all_iff)
  have safe: "spends_bound_only s s'"
    if "core_serve A V m p hdr b (c, T, s) = (rep, c', T', s')" "path_allowed p deployed_prefixes" for V m p hdr b c T s rep c' T' s'
    using that served [OF _ that(2), of m] client_call_binds
    by (auto simp: core_serve_def split: routed.splits)
  have among: "A core_app m p \<in> {NotFound, MethodNotAllowed} \<union> Run ` {key_config_h, issue_h, trial_register_h, snapshot_get_h, exec_h}"
    if "path_allowed p deployed_prefixes" for m p
    using served [OF _ that, of m] by (cases "A core_app m p") (auto, metis core_handler.exhaust)
  have calls: "list_all (\<lambda>(p, m, h). A core_app m p = Run h \<and> path_allowed p (gc_allowed_path_prefixes st)) client_calls"
    using client_calls_served [OF assms(1)] by (simp only: prefixes)
  from process_forwards [of B Q UP r origin st body w] show ?thesis
  proof
    assume "\<exists>e. process B Q UP r origin st body w = (Inl e, w)"
    with calls show ?thesis by blast
  next
    assume "\<exists>req path ppath resp w'. origin req w = (resp, w') \<and> snd (process B Q UP r origin st body w) = w'
      \<and> hq_method req \<in> {''GET'', ''POST''} \<and> UP (gc_origin_url st @ path) = Some (hq_url req, ppath)
      \<and> under_allowlist (gc_allowed_path_prefixes st) path \<and> under_allowlist (gc_allowed_path_prefixes st) ppath"
    then obtain req path ppath resp w' where sent: "origin req w = (resp, w')" "snd (process B Q UP r origin st body w) = w'"
        "UP (gc_origin_url st @ path) = Some (hq_url req, ppath)" and p: "path_allowed ppath deployed_prefixes"
      unfolding prefixes path_allowed_exact by blast
    show ?thesis
      by (intro conjI disjI2 exI allI impI, rule sent, rule sent, rule sent, rule among [OF p], erule safe [OF _ p], rule calls)
  qed
qed

theorem deployed_gateway_exposes_witness:
  "list_all (\<lambda>(p, m, h). demo_axum core_app m p = Run h
     \<and> path_allowed p (gc_allowed_path_prefixes (demo_started deployed_prefixes))) client_calls"
  by (rule conjunct2 [OF deployed_gateway_exposes [OF demo_axum_routes demo_started_deployed]])

text \<open>
  C38: the allowlist the gateway falls back to exposes the issuer's redeem. When
  \<open>LLUMA_GATEWAY_PREFIXES\<close> is not set, the request any client seals for
  \<open>POST /v1/redeem\<close> is sent to the origin, whose core listener serves it: a valid
  token is burned with no host bound to it and without counting in the tripwire
  (the comment in the origin's \<open>main.rs\<close> says the allowlist must not expose this
  path). The client's own requests to
  register, to fetch the snapshot and to execute are refused.
\<close>

theorem default_gateway_exposes_redeem:
  assumes axum: "axum_routes A" and start: "gateway_main Q E ikm write_ok = Inr (st, kc, f)" "pe_var E ''LLUMA_GATEWAY_PREFIXES'' = None"
    and bhttp: "bhttp_correct B" "bh_write B (inner_message req) = Some inner"
    and capsule: "ohttp_decapsulate Q (gc_secret st) body = Inr (inner, ctx)"
    and req: "ir_method req = ''POST''" "ir_path req = ''/v1/redeem''"
    and url: "UP (gc_origin_url st @ ''/v1/redeem'') = Some (url, ''/v1/redeem'')"
    and valid: "redeem (ce_issuer V) (colocated (or_keys (ce_origin V)) (or_admin_secret (ce_origin V)) (ce_now V) (ce_flt V))
      (ir_body req) s = (Inr resp, s')"
  shows "snd (process B Q UP r origin st body w) = snd (origin (forwarded url req) w)
    \<and> core_serve A V ''POST'' ''/v1/redeem'' hdr (hq_body (forwarded url req)) (c, T, s) = (RRedeem (Inr resp), c, T, s')
    \<and> tbl_get (SPENT s) (rr_spend_id resp) = None \<and> tbl_get (SPENT s') (rr_spend_id resp) \<noteq> None
    \<and> SPEND_HOST s' = SPEND_HOST s \<and> COUNTERS s' = COUNTERS s
    \<and> (\<forall>p\<in>{''/v1/register'', ''/v1/snapshot'', ''/v1/exec''}. \<not> path_allowed p (gc_allowed_path_prefixes st))"
proof -
  have prefixes: "gc_allowed_path_prefixes st = default_prefixes"
    using main_prefixes [OF start(1)] by (simp add: start(2))
  have run: "A core_app ''POST'' ''/v1/redeem'' = Run redeem_h" by (rule dispatch_core [OF axum redeem_exposed(2)])
  have ascii: "utf8_ok (ascii ''/v1/redeem'')" by (simp add: ascii_def)
  have "origin_request B UP st (inner_message req) = Inr (forwarded url req)"
    by (rule origin_request_inner [OF bhttp(1), where ppath = "''/v1/redeem''"]) (simp_all add: req prefixes redeem_exposed ascii url)
  moreover have "bh_read B inner = Some (inner_message req)" using bhttp by (simp add: bhttp_correct_def)
  ultimately have "snd (process B Q UP r origin st body w) = snd (origin (forwarded url req) w)"
    by (simp add: process_def capsule split: prod.splits option.splits)
  moreover have "core_serve A V ''POST'' ''/v1/redeem'' hdr (hq_body (forwarded url req)) (c, T, s) = (RRedeem (Inr resp), c, T, s')"
    by (simp add: core_serve_def core_run_def run forwarded_def req valid)
  ultimately show ?thesis using redeem_marks [OF valid] by (simp add: prefixes redeem_exposed)
qed

theorem default_gateway_exposes_redeem_witness:
  "let s' = empty_store\<lparr>SPENT := tbl_insert (replicate 32 1) 1 tbl_empty\<rparr> in
   snd (process demo_redeem_bhttp demo_ohttp (\<lambda>_. Some (''http://o/v1/redeem'', ''/v1/redeem'')) []
       (\<lambda>req ts. (None, snd (core_serve demo_axum demo_redeem_env (hq_method req) ''/v1/redeem'' None (hq_body req) ts)))
       (demo_started default_prefixes) ((1 # replicate 32 5) @ [0]) (idem_new, tunnels_new, empty_store))
     = (idem_new, tunnels_new, s')
   \<and> SPEND_HOST s' = SPEND_HOST empty_store"
proof -
  let ?s' = "empty_store\<lparr>SPENT := tbl_insert (replicate 32 1) 1 tbl_empty\<rparr>"
  let ?origin = "\<lambda>req ts. (None :: http_resp option, snd (core_serve demo_axum demo_redeem_env (hq_method req) ''/v1/redeem'' None (hq_body req) ts))"
  have written: "bh_write demo_redeem_bhttp (inner_message demo_redeem_inner) = Some [0]"
    by (simp add: demo_redeem_bhttp_def)
  have open_capsule: "ohttp_decapsulate demo_ohttp (gc_secret (demo_started default_prefixes)) ((1 # replicate 32 5) @ [0]) = Inr ([0], Some ())"
    by (simp add: ohttp_decapsulate_def demo_ohttp_def demo_started_def subslice_def IKM_LEN_def)
  have inner: "ir_method demo_redeem_inner = ''POST''" "ir_path demo_redeem_inner = ''/v1/redeem''" by (simp_all add: demo_redeem_inner_def)
  have valid: "redeem (ce_issuer demo_redeem_env) (colocated (or_keys (ce_origin demo_redeem_env)) (or_admin_secret (ce_origin demo_redeem_env))
      (ce_now demo_redeem_env) (ce_flt demo_redeem_env)) (ir_body demo_redeem_inner) empty_store = (Inr \<lparr>rr_spend_id = replicate 32 1\<rparr>, ?s')"
    using demo_redeemed by (simp add: demo_redeem_env_def demo_redeem_inner_def)
  note exposed = default_gateway_exposes_redeem [OF demo_axum_routes demo_started_default demo_redeem_bhttp_correct written open_capsule inner _ valid,
      where UP = "\<lambda>_. Some (''http://o/v1/redeem'', ''/v1/redeem'')" and url = "''http://o/v1/redeem''" and r = "[]"
      and origin = ?origin and w = "(idem_new, tunnels_new, empty_store)" and hdr = None and c = idem_new and T = tunnels_new]
  show ?thesis using exposed by (simp add: Let_def forwarded_def inner)
qed

end
