(* ===== verification/Core_Dto.thy ===== *)
theory Core_Dto
  imports Core_Json
begin

text \<open>
  The JSON form of the requests, responses and tunnel frames of \<open>proto.rs\<close>:
  one writer and one reader per type, from its fields and serde attributes. The
  lemmas show that every type reads back as it was written, that a reader only
  yields fixed arrays of the declared length, and that a \<open>deny_unknown_fields\<close>
  type refuses an object with a foreign field.
\<close>

section \<open>Requests and responses\<close>

definition KeyConfigResponse_ser :: "base64 \<Rightarrow> KeyConfigResponse \<Rightarrow> json" where
  "KeyConfigResponse_ser C x = JObject
     [(''key_id'', bytes_ser (kc_key_id x)), (''issuer_public_key'', b64_ser C (kc_issuer_public_key x)),
      (''epoch'', word_ser (kc_epoch x)), (''denomination'', word_ser (kc_denomination x))]"

definition KeyConfigResponse_de :: "base64 \<Rightarrow> json \<Rightarrow> KeyConfigResponse option" where
  "KeyConfigResponse_de C v = do {
     f \<leftarrow> struct_fields False [''key_id'', ''issuer_public_key'', ''epoch'', ''denomination''] v;
     key_id \<leftarrow> arr32_de (f ! 0); issuer_public_key \<leftarrow> b64_de C (f ! 1);
     epoch \<leftarrow> word_de (f ! 2); denomination \<leftarrow> word_de (f ! 3);
     Some \<lparr>kc_key_id = key_id, kc_issuer_public_key = issuer_public_key, kc_epoch = epoch, kc_denomination = denomination\<rparr> }"

definition IssueRequest_ser :: "base64 \<Rightarrow> IssueRequest \<Rightarrow> json" where
  "IssueRequest_ser C x = JObject
     [(''body'', IssueRequestBody_ser (ireq_body x)), (''blinded'', b64s_ser C (ireq_blinded x)),
      (''auth_sig'', b64_ser C (ireq_auth_sig x))]"

definition IssueRequest_de :: "base64 \<Rightarrow> json \<Rightarrow> IssueRequest option" where
  "IssueRequest_de C v = do {
     f \<leftarrow> struct_fields True [''body'', ''blinded'', ''auth_sig''] v;
     body \<leftarrow> IssueRequestBody_de (f ! 0); blinded \<leftarrow> b64s_de C (f ! 1);
     auth_sig \<leftarrow> b64_de C (f ! 2);
     Some \<lparr>ireq_body = body, ireq_blinded = blinded, ireq_auth_sig = auth_sig\<rparr> }"

definition IssueResponse_ser :: "base64 \<Rightarrow> IssueResponse \<Rightarrow> json" where
  "IssueResponse_ser C x = JObject
     [(''key_id'', bytes_ser (iresp_key_id x)), (''signatures'', b64s_ser C (iresp_signatures x))]"

definition IssueResponse_de :: "base64 \<Rightarrow> json \<Rightarrow> IssueResponse option" where
  "IssueResponse_de C v = do {
     f \<leftarrow> struct_fields False [''key_id'', ''signatures''] v;
     key_id \<leftarrow> arr32_de (f ! 0); signatures \<leftarrow> b64s_de C (f ! 1);
     Some \<lparr>iresp_key_id = key_id, iresp_signatures = signatures\<rparr> }"

definition RedeemRequest_ser :: "base64 \<Rightarrow> RedeemRequest \<Rightarrow> json" where
  "RedeemRequest_ser C x = JObject
     [(''key_id'', bytes_ser (rd_key_id x)), (''token'', b64_ser C (rd_token x))]"

definition RedeemRequest_de :: "base64 \<Rightarrow> json \<Rightarrow> RedeemRequest option" where
  "RedeemRequest_de C v = do {
     f \<leftarrow> struct_fields True [''key_id'', ''token''] v;
     key_id \<leftarrow> arr32_de (f ! 0); token \<leftarrow> b64_de C (f ! 1);
     Some \<lparr>rd_key_id = key_id, rd_token = token\<rparr> }"

definition RedeemResponse_ser :: "RedeemResponse \<Rightarrow> json" where
  "RedeemResponse_ser x = JObject
     [(''spend_id'', bytes_ser (rr_spend_id x))]"

definition RedeemResponse_de :: "json \<Rightarrow> RedeemResponse option" where
  "RedeemResponse_de v = do {
     f \<leftarrow> struct_fields False [''spend_id''] v;
     spend_id \<leftarrow> arr32_de (f ! 0);
     Some \<lparr>rr_spend_id = spend_id\<rparr> }"

definition GrantRequest_ser :: "GrantRequest \<Rightarrow> json" where
  "GrantRequest_ser x = JObject
     [(''account_id'', bytes_ser (gr_account_id x)), (''amount'', word_ser (gr_amount x))]"

definition GrantRequest_de :: "json \<Rightarrow> GrantRequest option" where
  "GrantRequest_de v = do {
     f \<leftarrow> struct_fields True [''account_id'', ''amount''] v;
     account_id \<leftarrow> arr32_de (f ! 0); amount \<leftarrow> word_de (f ! 1);
     Some \<lparr>gr_account_id = account_id, gr_amount = amount\<rparr> }"

definition ExecRequest_ser :: "base64 \<Rightarrow> ExecRequest \<Rightarrow> json" where
  "ExecRequest_ser C x = JObject
     [(''key_id'', bytes_ser (ex_key_id x)), (''host_account'', bytes_ser (ex_host_account x)),
      (''token'', b64_ser C (ex_token x)), (''sealed'', b64_ser C (ex_sealed x))]"

definition ExecRequest_de :: "base64 \<Rightarrow> json \<Rightarrow> ExecRequest option" where
  "ExecRequest_de C v = do {
     f \<leftarrow> struct_fields True [''key_id'', ''host_account'', ''token'', ''sealed''] v;
     key_id \<leftarrow> arr32_de (f ! 0); host_account \<leftarrow> arr32_de (f ! 1);
     token \<leftarrow> b64_de C (f ! 2); sealed \<leftarrow> b64_de C (f ! 3);
     Some \<lparr>ex_key_id = key_id, ex_host_account = host_account, ex_token = token, ex_sealed = sealed\<rparr> }"

definition ExecResponse_ser :: "base64 \<Rightarrow> ExecResponse \<Rightarrow> json" where
  "ExecResponse_ser C x = JObject
     [(''preamble'', b64_ser C (er_preamble x)), (''chunk'', b64_ser C (er_chunk x))]"

definition ExecResponse_de :: "base64 \<Rightarrow> json \<Rightarrow> ExecResponse option" where
  "ExecResponse_de C v = do {
     f \<leftarrow> struct_fields True [''preamble'', ''chunk''] v;
     preamble \<leftarrow> b64_de C (f ! 0); chunk \<leftarrow> b64_de C (f ! 1);
     Some \<lparr>er_preamble = preamble, er_chunk = chunk\<rparr> }"

definition HostExecRequest_ser :: "base64 \<Rightarrow> HostExecRequest \<Rightarrow> json" where
  "HostExecRequest_ser C x = JObject
     [(''spend_id'', bytes_ser (he_spend_id x)), (''sealed'', b64_ser C (he_sealed x))]"

definition HostExecRequest_de :: "base64 \<Rightarrow> json \<Rightarrow> HostExecRequest option" where
  "HostExecRequest_de C v = do {
     f \<leftarrow> struct_fields True [''spend_id'', ''sealed''] v;
     spend_id \<leftarrow> arr32_de (f ! 0); sealed \<leftarrow> b64_de C (f ! 1);
     Some \<lparr>he_spend_id = spend_id, he_sealed = sealed\<rparr> }"

definition HostRegisterRequest_ser :: "base64 \<Rightarrow> HostRegisterRequest \<Rightarrow> json" where
  "HostRegisterRequest_ser C x = JObject
     [(''body'', HostRegisterBody_ser (hrr_body x)), (''sig'', b64_ser C (hrr_sig x)),
      (''pow_nonce'', b64_ser C (hrr_pow_nonce x))]"

definition HostRegisterRequest_de :: "base64 \<Rightarrow> json \<Rightarrow> HostRegisterRequest option" where
  "HostRegisterRequest_de C v = do {
     f \<leftarrow> struct_fields True [''body'', ''sig'', ''pow_nonce''] v;
     body \<leftarrow> HostRegisterBody_de (f ! 0); sig \<leftarrow> b64_de C (f ! 1);
     pow_nonce \<leftarrow> b64_de C (f ! 2);
     Some \<lparr>hrr_body = body, hrr_sig = sig, hrr_pow_nonce = pow_nonce\<rparr> }"

definition HeartbeatRequest_ser :: "base64 \<Rightarrow> HeartbeatRequest \<Rightarrow> json" where
  "HeartbeatRequest_ser C x = JObject
     [(''body'', HeartbeatBody_ser (hbr_body x)), (''sig'', b64_ser C (hbr_sig x))]"

definition HeartbeatRequest_de :: "base64 \<Rightarrow> json \<Rightarrow> HeartbeatRequest option" where
  "HeartbeatRequest_de C v = do {
     f \<leftarrow> struct_fields True [''body'', ''sig''] v;
     body \<leftarrow> HeartbeatBody_de (f ! 0); sig \<leftarrow> b64_de C (f ! 1);
     Some \<lparr>hbr_body = body, hbr_sig = sig\<rparr> }"

definition TrialRegisterRequest_ser :: "base64 \<Rightarrow> TrialRegisterRequest \<Rightarrow> json" where
  "TrialRegisterRequest_ser C x = JObject
     [(''body'', TrialRegisterBody_ser (trr_body x)), (''pow_nonce'', b64_ser C (trr_pow_nonce x))]"

definition TrialRegisterRequest_de :: "base64 \<Rightarrow> json \<Rightarrow> TrialRegisterRequest option" where
  "TrialRegisterRequest_de C v = do {
     f \<leftarrow> struct_fields True [''body'', ''pow_nonce''] v;
     body \<leftarrow> TrialRegisterBody_de (f ! 0); pow_nonce \<leftarrow> b64_de C (f ! 1);
     Some \<lparr>trr_body = body, trr_pow_nonce = pow_nonce\<rparr> }"

definition ReceiptSubmit_ser :: "base64 \<Rightarrow> ReceiptSubmit \<Rightarrow> json" where
  "ReceiptSubmit_ser C x = JObject
     [(''body'', UsageReceiptBody_ser (rs_body x)), (''sig'', b64_ser C (rs_sig x))]"

definition ReceiptSubmit_de :: "base64 \<Rightarrow> json \<Rightarrow> ReceiptSubmit option" where
  "ReceiptSubmit_de C v = do {
     f \<leftarrow> struct_fields True [''body'', ''sig''] v;
     body \<leftarrow> UsageReceiptBody_de (f ! 0); sig \<leftarrow> b64_de C (f ! 1);
     Some \<lparr>rs_body = body, rs_sig = sig\<rparr> }"

definition SnapshotResponse_ser :: "base64 \<Rightarrow> SnapshotResponse \<Rightarrow> json" where
  "SnapshotResponse_ser C x = JObject
     [(''body'', b64_ser C (sr_body x)), (''sig'', b64_ser C (sr_sig x))]"

definition SnapshotResponse_de :: "base64 \<Rightarrow> json \<Rightarrow> SnapshotResponse option" where
  "SnapshotResponse_de C v = do {
     f \<leftarrow> struct_fields True [''body'', ''sig''] v;
     body \<leftarrow> b64_de C (f ! 0); sig \<leftarrow> b64_de C (f ! 1);
     Some \<lparr>sr_body = body, sr_sig = sig\<rparr> }"

definition SignedBootstrap_ser :: "base64 \<Rightarrow> SignedBootstrap \<Rightarrow> json" where
  "SignedBootstrap_ser C x = JObject
     [(''doc'', b64_ser C (sbs_doc x)), (''sig'', b64_ser C (sbs_sig x))]"

definition SignedBootstrap_de :: "base64 \<Rightarrow> json \<Rightarrow> SignedBootstrap option" where
  "SignedBootstrap_de C v = do {
     f \<leftarrow> struct_fields True [''doc'', ''sig''] v;
     doc \<leftarrow> b64_de C (f ! 0); sig \<leftarrow> b64_de C (f ! 1);
     Some \<lparr>sbs_doc = doc, sbs_sig = sig\<rparr> }"

section \<open>Tunnel frames\<close>

text \<open>
  An internally tagged enum: the tag \<open>t\<close> is one more field of the object, or the
  first element of the array. Foreign fields are ignored.
\<close>

definition TunnelFrame_ser :: "base64 \<Rightarrow> TunnelFrame \<Rightarrow> json" where
  "TunnelFrame_ser C f = (case f of
     Hello v host_account \<Rightarrow> JObject [(''t'', JString ''hello''), (''v'', word_ser v), (''host_account'', bytes_ser host_account)]
   | Challenge v challenge \<Rightarrow> JObject [(''t'', JString ''challenge''), (''v'', word_ser v), (''challenge'', bytes_ser challenge)]
   | Auth v sig \<Rightarrow> JObject [(''t'', JString ''auth''), (''v'', word_ser v), (''sig'', b64_ser C sig)]
   | AuthOk v \<Rightarrow> JObject [(''t'', JString ''auth_ok''), (''v'', word_ser v)]
   | Job v request_id spend_id sealed \<Rightarrow> JObject [(''t'', JString ''job''), (''v'', word_ser v),
       (''request_id'', word_ser request_id), (''spend_id'', bytes_ser spend_id), (''sealed'', b64_ser C sealed)]
   | Done v request_id preamble chunk \<Rightarrow> JObject [(''t'', JString ''done''), (''v'', word_ser v),
       (''request_id'', word_ser request_id), (''preamble'', b64_ser C preamble), (''chunk'', b64_ser C chunk)]
   | Fail v request_id \<Rightarrow> JObject [(''t'', JString ''fail''), (''v'', word_ser v), (''request_id'', word_ser request_id)])"

definition tagged :: "string \<Rightarrow> json \<Rightarrow> (string \<times> json) option" where
  "tagged t v = (case v of
     JObject kvs \<Rightarrow>
       if count_list (map fst kvs) t = 1
       then do { tag \<leftarrow> map_of kvs t; s \<leftarrow> json_str tag; Some (s, JObject (filter (\<lambda>(k, _). k \<noteq> t) kvs)) }
       else None
   | JArray (tag # rest) \<Rightarrow> do { s \<leftarrow> json_str tag; Some (s, JArray rest) }
   | _ \<Rightarrow> None)"

definition TunnelFrame_de :: "base64 \<Rightarrow> json \<Rightarrow> TunnelFrame option" where
  "TunnelFrame_de C j = do {
     (tag, content) \<leftarrow> tagged ''t'' j;
     if tag = ''hello'' then do {
       f \<leftarrow> struct_fields False [''v'', ''host_account''] content;
       v \<leftarrow> word_de (f ! 0); host_account \<leftarrow> arr32_de (f ! 1); Some (Hello v host_account) }
     else if tag = ''challenge'' then do {
       f \<leftarrow> struct_fields False [''v'', ''challenge''] content;
       v \<leftarrow> word_de (f ! 0); challenge \<leftarrow> arr32_de (f ! 1); Some (Challenge v challenge) }
     else if tag = ''auth'' then do {
       f \<leftarrow> struct_fields False [''v'', ''sig''] content;
       v \<leftarrow> word_de (f ! 0); sig \<leftarrow> b64_de C (f ! 1); Some (Auth v sig) }
     else if tag = ''auth_ok'' then do {
       f \<leftarrow> struct_fields False [''v''] content; v \<leftarrow> word_de (f ! 0); Some (AuthOk v) }
     else if tag = ''job'' then do {
       f \<leftarrow> struct_fields False [''v'', ''request_id'', ''spend_id'', ''sealed''] content;
       v \<leftarrow> word_de (f ! 0); request_id \<leftarrow> word_de (f ! 1); spend_id \<leftarrow> arr32_de (f ! 2); sealed \<leftarrow> b64_de C (f ! 3);
       Some (Job v request_id spend_id sealed) }
     else if tag = ''done'' then do {
       f \<leftarrow> struct_fields False [''v'', ''request_id'', ''preamble'', ''chunk''] content;
       v \<leftarrow> word_de (f ! 0); request_id \<leftarrow> word_de (f ! 1); preamble \<leftarrow> b64_de C (f ! 2); chunk \<leftarrow> b64_de C (f ! 3);
       Some (Done v request_id preamble chunk) }
     else if tag = ''fail'' then do {
       f \<leftarrow> struct_fields False [''v'', ''request_id''] content;
       v \<leftarrow> word_de (f ! 0); request_id \<leftarrow> word_de (f ! 1); Some (Fail v request_id) }
     else None }"

section \<open>Fields read back\<close>

named_theorems codec_rt

lemma those_map: "(\<And>x. x \<in> set xs \<Longrightarrow> f x = Some (g x)) \<Longrightarrow> those (map f xs) = Some (map g xs)"
  by (induction xs) simp_all

lemma word_rt [codec_rt]: "word_de (word_ser w) = Some (w :: 'a::len word)"
proof -
  have "unat w < 2 ^ LENGTH('a)" by (rule unsigned_less)
  then show ?thesis by (simp add: word_de_def word_ser_def json_uint_def show_dec_decimal parse_show_dec)
qed

lemma bytes_rt [codec_rt]: "bytes_de (bytes_ser b) = Some b"
  by (simp add: bytes_de_def bytes_ser_def seq_de_def seq_ser_def word_rt comp_def those_map [where g = id])

lemma arr32_rt [codec_rt]: "id32 b \<Longrightarrow> arr32_de (bytes_ser b) = Some b"
  by (simp add: arr32_de_def bytes_rt id32_def)

lemma models_rt [codec_rt]: "models_de (models_ser ms) = Some ms"
  by (simp add: models_de_def models_ser_def seq_de_def seq_ser_def json_str_def comp_def those_map [where g = id])

lemma str_rt [codec_rt]: "json_str (JString s) = Some s"
  by (simp add: json_str_def)

definition base64_correct :: "base64 \<Rightarrow> bool" where
  "base64_correct C \<longleftrightarrow> (\<forall>b. be_decode C (be_encode C b) = Some b)"

lemma b64_rt [codec_rt]: "base64_correct C \<Longrightarrow> b64_de C (b64_ser C b) = Some b"
  by (simp add: base64_correct_def b64_de_def b64_ser_def json_str_def)

lemma b64s_rt [codec_rt]: "base64_correct C \<Longrightarrow> b64s_de C (b64s_ser C bs) = Some bs"
  by (simp add: base64_correct_def b64s_de_def b64s_ser_def seq_de_def seq_ser_def json_str_def comp_def
      those_map [where g = id] those_map [where g = "be_encode C"])

lemma arr32_typed: "arr32_de v = Some b \<Longrightarrow> id32 b"
  by (auto simp: arr32_de_def id32_def split: if_splits bind_splits)

lemma map_of_pairs: "distinct (map fst kvs) \<Longrightarrow> those (map (map_of kvs) (map fst kvs)) = Some (map snd kvs)"
  by (simp add: those_map [where g = snd] comp_def)

lemma count_distinct: "distinct xs \<Longrightarrow> x \<in> set xs \<Longrightarrow> count_list xs x = 1"
  by (induction xs) auto

lemma struct_rt:
  "map fst kvs = names \<Longrightarrow> distinct names \<Longrightarrow> struct_fields deny names (JObject kvs) = Some (map snd kvs)"
  by (auto simp: struct_fields_def map_of_pairs [simplified] list_all_iff count_distinct) (metis fst_conv image_eqI)

section \<open>Fixed arrays\<close>

text \<open>What the Rust type \<open>[u8; 32]\<close> says of a message's fields.\<close>

definition UsageReceiptBody_fixed :: "UsageReceiptBody \<Rightarrow> bool" where
  "UsageReceiptBody_fixed x \<longleftrightarrow> id32 (ur_host_account x) \<and> id32 (ur_spend_id x)"

definition IssueRequestBody_fixed :: "IssueRequestBody \<Rightarrow> bool" where
  "IssueRequestBody_fixed x \<longleftrightarrow> id32 (ib_account x) \<and> id32 (ib_key_id x) \<and> id32 (ib_request_id x) \<and> id32 (ib_blinded_batch_hash x)"

definition HostRegisterBody_fixed :: "HostRegisterBody \<Rightarrow> bool" where
  "HostRegisterBody_fixed x \<longleftrightarrow> id32 (hr_host_account x)"

definition HeartbeatBody_fixed :: "HeartbeatBody \<Rightarrow> bool" where
  "HeartbeatBody_fixed x \<longleftrightarrow> id32 (hb_host_account x)"

definition TrialRegisterBody_fixed :: "TrialRegisterBody \<Rightarrow> bool" where
  "TrialRegisterBody_fixed x \<longleftrightarrow> id32 (tr_account x)"

definition KeyConfigResponse_fixed :: "KeyConfigResponse \<Rightarrow> bool" where
  "KeyConfigResponse_fixed x \<longleftrightarrow> id32 (kc_key_id x)"

definition IssueRequest_fixed :: "IssueRequest \<Rightarrow> bool" where
  "IssueRequest_fixed x \<longleftrightarrow> IssueRequestBody_fixed (ireq_body x)"

definition IssueResponse_fixed :: "IssueResponse \<Rightarrow> bool" where
  "IssueResponse_fixed x \<longleftrightarrow> id32 (iresp_key_id x)"

definition RedeemRequest_fixed :: "RedeemRequest \<Rightarrow> bool" where
  "RedeemRequest_fixed x \<longleftrightarrow> id32 (rd_key_id x)"

definition RedeemResponse_fixed :: "RedeemResponse \<Rightarrow> bool" where
  "RedeemResponse_fixed x \<longleftrightarrow> id32 (rr_spend_id x)"

definition GrantRequest_fixed :: "GrantRequest \<Rightarrow> bool" where
  "GrantRequest_fixed x \<longleftrightarrow> id32 (gr_account_id x)"

definition ExecRequest_fixed :: "ExecRequest \<Rightarrow> bool" where
  "ExecRequest_fixed x \<longleftrightarrow> id32 (ex_key_id x) \<and> id32 (ex_host_account x)"

definition HostExecRequest_fixed :: "HostExecRequest \<Rightarrow> bool" where
  "HostExecRequest_fixed x \<longleftrightarrow> id32 (he_spend_id x)"

definition HostRegisterRequest_fixed :: "HostRegisterRequest \<Rightarrow> bool" where
  "HostRegisterRequest_fixed x \<longleftrightarrow> HostRegisterBody_fixed (hrr_body x)"

definition HeartbeatRequest_fixed :: "HeartbeatRequest \<Rightarrow> bool" where
  "HeartbeatRequest_fixed x \<longleftrightarrow> HeartbeatBody_fixed (hbr_body x)"

definition TrialRegisterRequest_fixed :: "TrialRegisterRequest \<Rightarrow> bool" where
  "TrialRegisterRequest_fixed x \<longleftrightarrow> TrialRegisterBody_fixed (trr_body x)"

definition ReceiptSubmit_fixed :: "ReceiptSubmit \<Rightarrow> bool" where
  "ReceiptSubmit_fixed x \<longleftrightarrow> UsageReceiptBody_fixed (rs_body x)"

definition TunnelFrame_fixed :: "TunnelFrame \<Rightarrow> bool" where
  "TunnelFrame_fixed f \<longleftrightarrow> (case f of
     Hello _ host_account \<Rightarrow> id32 host_account | Challenge _ challenge \<Rightarrow> id32 challenge
   | Job _ _ spend_id _ \<Rightarrow> id32 spend_id | _ \<Rightarrow> True)"

lemmas fixed_defs = UsageReceiptBody_fixed_def
  IssueRequestBody_fixed_def
  HostRegisterBody_fixed_def
  HeartbeatBody_fixed_def
  TrialRegisterBody_fixed_def
  KeyConfigResponse_fixed_def
  IssueRequest_fixed_def
  IssueResponse_fixed_def
  RedeemRequest_fixed_def
  RedeemResponse_fixed_def
  GrantRequest_fixed_def
  ExecRequest_fixed_def
  HostExecRequest_fixed_def
  HostRegisterRequest_fixed_def
  HeartbeatRequest_fixed_def
  TrialRegisterRequest_fixed_def
  ReceiptSubmit_fixed_def

section \<open>Codecs\<close>

text \<open>
  What the callers of a message type rely on: a value of the type reads back as it
  was written, and whatever is read is a value of the type.
\<close>

locale codec =
  fixes ser :: "'a \<Rightarrow> json" and de :: "json \<Rightarrow> 'a option" and fixed :: "'a \<Rightarrow> bool"
  assumes reads_back: "fixed x \<Longrightarrow> de (ser x) = Some x"
    and reads_typed: "de v = Some x \<Longrightarrow> fixed x"
begin

lemma ser_inject: "fixed x \<Longrightarrow> fixed y \<Longrightarrow> ser x = ser y \<longleftrightarrow> x = y"
  by (metis option.inject reads_back)

lemma reread: "de v = Some x \<Longrightarrow> de (ser x) = Some x"
  using reads_back reads_typed by blast

end

interpretation UsageReceiptBody: codec UsageReceiptBody_ser UsageReceiptBody_de UsageReceiptBody_fixed
proof
  show "UsageReceiptBody_de (UsageReceiptBody_ser x) = Some x" if "UsageReceiptBody_fixed x" for x
    using that by (simp add: UsageReceiptBody_ser_def UsageReceiptBody_de_def UsageReceiptBody_fixed_def struct_rt codec_rt)
  show "UsageReceiptBody_fixed x" if "UsageReceiptBody_de v = Some x" for v x
    using that by (auto simp: UsageReceiptBody_de_def UsageReceiptBody_fixed_def Option.bind_eq_Some_conv dest!: arr32_typed)
qed

interpretation IssueRequestBody: codec IssueRequestBody_ser IssueRequestBody_de IssueRequestBody_fixed
proof
  show "IssueRequestBody_de (IssueRequestBody_ser x) = Some x" if "IssueRequestBody_fixed x" for x
    using that by (simp add: IssueRequestBody_ser_def IssueRequestBody_de_def IssueRequestBody_fixed_def struct_rt codec_rt)
  show "IssueRequestBody_fixed x" if "IssueRequestBody_de v = Some x" for v x
    using that by (auto simp: IssueRequestBody_de_def IssueRequestBody_fixed_def Option.bind_eq_Some_conv dest!: arr32_typed)
qed

interpretation HostRegisterBody: codec HostRegisterBody_ser HostRegisterBody_de HostRegisterBody_fixed
proof
  show "HostRegisterBody_de (HostRegisterBody_ser x) = Some x" if "HostRegisterBody_fixed x" for x
    using that by (simp add: HostRegisterBody_ser_def HostRegisterBody_de_def HostRegisterBody_fixed_def struct_rt codec_rt)
  show "HostRegisterBody_fixed x" if "HostRegisterBody_de v = Some x" for v x
    using that by (auto simp: HostRegisterBody_de_def HostRegisterBody_fixed_def Option.bind_eq_Some_conv dest!: arr32_typed)
qed

interpretation HeartbeatBody: codec HeartbeatBody_ser HeartbeatBody_de HeartbeatBody_fixed
proof
  show "HeartbeatBody_de (HeartbeatBody_ser x) = Some x" if "HeartbeatBody_fixed x" for x
    using that by (simp add: HeartbeatBody_ser_def HeartbeatBody_de_def HeartbeatBody_fixed_def struct_rt codec_rt)
  show "HeartbeatBody_fixed x" if "HeartbeatBody_de v = Some x" for v x
    using that by (auto simp: HeartbeatBody_de_def HeartbeatBody_fixed_def Option.bind_eq_Some_conv dest!: arr32_typed)
qed

interpretation TrialRegisterBody: codec TrialRegisterBody_ser TrialRegisterBody_de TrialRegisterBody_fixed
proof
  show "TrialRegisterBody_de (TrialRegisterBody_ser x) = Some x" if "TrialRegisterBody_fixed x" for x
    using that by (simp add: TrialRegisterBody_ser_def TrialRegisterBody_de_def TrialRegisterBody_fixed_def struct_rt codec_rt)
  show "TrialRegisterBody_fixed x" if "TrialRegisterBody_de v = Some x" for v x
    using that by (auto simp: TrialRegisterBody_de_def TrialRegisterBody_fixed_def Option.bind_eq_Some_conv dest!: arr32_typed)
qed

lemma KeyConfigResponse_codec:
  assumes "base64_correct C"
  shows "codec (KeyConfigResponse_ser C) (KeyConfigResponse_de C) KeyConfigResponse_fixed"
proof
  show "KeyConfigResponse_de C (KeyConfigResponse_ser C x) = Some x" if "KeyConfigResponse_fixed x" for x
    using assms that by (simp add: KeyConfigResponse_ser_def KeyConfigResponse_de_def KeyConfigResponse_fixed_def struct_rt codec_rt)
  show "KeyConfigResponse_fixed x" if "KeyConfigResponse_de C v = Some x" for v x
    using that by (auto simp: KeyConfigResponse_de_def KeyConfigResponse_fixed_def Option.bind_eq_Some_conv dest!: arr32_typed)
qed

lemma IssueRequest_codec:
  assumes "base64_correct C"
  shows "codec (IssueRequest_ser C) (IssueRequest_de C) IssueRequest_fixed"
proof
  show "IssueRequest_de C (IssueRequest_ser C x) = Some x" if "IssueRequest_fixed x" for x
    using assms that by (simp add: IssueRequest_ser_def IssueRequest_de_def IssueRequest_fixed_def struct_rt codec_rt IssueRequestBody.reads_back)
  show "IssueRequest_fixed x" if "IssueRequest_de C v = Some x" for v x
    using that by (auto simp: IssueRequest_de_def IssueRequest_fixed_def Option.bind_eq_Some_conv dest!: arr32_typed IssueRequestBody.reads_typed)
qed

lemma IssueResponse_codec:
  assumes "base64_correct C"
  shows "codec (IssueResponse_ser C) (IssueResponse_de C) IssueResponse_fixed"
proof
  show "IssueResponse_de C (IssueResponse_ser C x) = Some x" if "IssueResponse_fixed x" for x
    using assms that by (simp add: IssueResponse_ser_def IssueResponse_de_def IssueResponse_fixed_def struct_rt codec_rt)
  show "IssueResponse_fixed x" if "IssueResponse_de C v = Some x" for v x
    using that by (auto simp: IssueResponse_de_def IssueResponse_fixed_def Option.bind_eq_Some_conv dest!: arr32_typed)
qed

lemma RedeemRequest_codec:
  assumes "base64_correct C"
  shows "codec (RedeemRequest_ser C) (RedeemRequest_de C) RedeemRequest_fixed"
proof
  show "RedeemRequest_de C (RedeemRequest_ser C x) = Some x" if "RedeemRequest_fixed x" for x
    using assms that by (simp add: RedeemRequest_ser_def RedeemRequest_de_def RedeemRequest_fixed_def struct_rt codec_rt)
  show "RedeemRequest_fixed x" if "RedeemRequest_de C v = Some x" for v x
    using that by (auto simp: RedeemRequest_de_def RedeemRequest_fixed_def Option.bind_eq_Some_conv dest!: arr32_typed)
qed

interpretation RedeemResponse: codec RedeemResponse_ser RedeemResponse_de RedeemResponse_fixed
proof
  show "RedeemResponse_de (RedeemResponse_ser x) = Some x" if "RedeemResponse_fixed x" for x
    using that by (simp add: RedeemResponse_ser_def RedeemResponse_de_def RedeemResponse_fixed_def struct_rt codec_rt)
  show "RedeemResponse_fixed x" if "RedeemResponse_de v = Some x" for v x
    using that by (auto simp: RedeemResponse_de_def RedeemResponse_fixed_def Option.bind_eq_Some_conv dest!: arr32_typed)
qed

interpretation GrantRequest: codec GrantRequest_ser GrantRequest_de GrantRequest_fixed
proof
  show "GrantRequest_de (GrantRequest_ser x) = Some x" if "GrantRequest_fixed x" for x
    using that by (simp add: GrantRequest_ser_def GrantRequest_de_def GrantRequest_fixed_def struct_rt codec_rt)
  show "GrantRequest_fixed x" if "GrantRequest_de v = Some x" for v x
    using that by (auto simp: GrantRequest_de_def GrantRequest_fixed_def Option.bind_eq_Some_conv dest!: arr32_typed)
qed

lemma ExecRequest_codec:
  assumes "base64_correct C"
  shows "codec (ExecRequest_ser C) (ExecRequest_de C) ExecRequest_fixed"
proof
  show "ExecRequest_de C (ExecRequest_ser C x) = Some x" if "ExecRequest_fixed x" for x
    using assms that by (simp add: ExecRequest_ser_def ExecRequest_de_def ExecRequest_fixed_def struct_rt codec_rt)
  show "ExecRequest_fixed x" if "ExecRequest_de C v = Some x" for v x
    using that by (auto simp: ExecRequest_de_def ExecRequest_fixed_def Option.bind_eq_Some_conv dest!: arr32_typed)
qed

lemma ExecResponse_codec:
  assumes "base64_correct C"
  shows "codec (ExecResponse_ser C) (ExecResponse_de C) (\<lambda>_. True)"
proof
  show "ExecResponse_de C (ExecResponse_ser C x) = Some x" for x
    using assms by (simp add: ExecResponse_ser_def ExecResponse_de_def struct_rt codec_rt)
qed simp

lemma HostExecRequest_codec:
  assumes "base64_correct C"
  shows "codec (HostExecRequest_ser C) (HostExecRequest_de C) HostExecRequest_fixed"
proof
  show "HostExecRequest_de C (HostExecRequest_ser C x) = Some x" if "HostExecRequest_fixed x" for x
    using assms that by (simp add: HostExecRequest_ser_def HostExecRequest_de_def HostExecRequest_fixed_def struct_rt codec_rt)
  show "HostExecRequest_fixed x" if "HostExecRequest_de C v = Some x" for v x
    using that by (auto simp: HostExecRequest_de_def HostExecRequest_fixed_def Option.bind_eq_Some_conv dest!: arr32_typed)
qed

lemma HostRegisterRequest_codec:
  assumes "base64_correct C"
  shows "codec (HostRegisterRequest_ser C) (HostRegisterRequest_de C) HostRegisterRequest_fixed"
proof
  show "HostRegisterRequest_de C (HostRegisterRequest_ser C x) = Some x" if "HostRegisterRequest_fixed x" for x
    using assms that by (simp add: HostRegisterRequest_ser_def HostRegisterRequest_de_def HostRegisterRequest_fixed_def struct_rt codec_rt HostRegisterBody.reads_back)
  show "HostRegisterRequest_fixed x" if "HostRegisterRequest_de C v = Some x" for v x
    using that by (auto simp: HostRegisterRequest_de_def HostRegisterRequest_fixed_def Option.bind_eq_Some_conv dest!: arr32_typed HostRegisterBody.reads_typed)
qed

lemma HeartbeatRequest_codec:
  assumes "base64_correct C"
  shows "codec (HeartbeatRequest_ser C) (HeartbeatRequest_de C) HeartbeatRequest_fixed"
proof
  show "HeartbeatRequest_de C (HeartbeatRequest_ser C x) = Some x" if "HeartbeatRequest_fixed x" for x
    using assms that by (simp add: HeartbeatRequest_ser_def HeartbeatRequest_de_def HeartbeatRequest_fixed_def struct_rt codec_rt HeartbeatBody.reads_back)
  show "HeartbeatRequest_fixed x" if "HeartbeatRequest_de C v = Some x" for v x
    using that by (auto simp: HeartbeatRequest_de_def HeartbeatRequest_fixed_def Option.bind_eq_Some_conv dest!: arr32_typed HeartbeatBody.reads_typed)
qed

lemma TrialRegisterRequest_codec:
  assumes "base64_correct C"
  shows "codec (TrialRegisterRequest_ser C) (TrialRegisterRequest_de C) TrialRegisterRequest_fixed"
proof
  show "TrialRegisterRequest_de C (TrialRegisterRequest_ser C x) = Some x" if "TrialRegisterRequest_fixed x" for x
    using assms that by (simp add: TrialRegisterRequest_ser_def TrialRegisterRequest_de_def TrialRegisterRequest_fixed_def struct_rt codec_rt TrialRegisterBody.reads_back)
  show "TrialRegisterRequest_fixed x" if "TrialRegisterRequest_de C v = Some x" for v x
    using that by (auto simp: TrialRegisterRequest_de_def TrialRegisterRequest_fixed_def Option.bind_eq_Some_conv dest!: arr32_typed TrialRegisterBody.reads_typed)
qed

lemma ReceiptSubmit_codec:
  assumes "base64_correct C"
  shows "codec (ReceiptSubmit_ser C) (ReceiptSubmit_de C) ReceiptSubmit_fixed"
proof
  show "ReceiptSubmit_de C (ReceiptSubmit_ser C x) = Some x" if "ReceiptSubmit_fixed x" for x
    using assms that by (simp add: ReceiptSubmit_ser_def ReceiptSubmit_de_def ReceiptSubmit_fixed_def struct_rt codec_rt UsageReceiptBody.reads_back)
  show "ReceiptSubmit_fixed x" if "ReceiptSubmit_de C v = Some x" for v x
    using that by (auto simp: ReceiptSubmit_de_def ReceiptSubmit_fixed_def Option.bind_eq_Some_conv dest!: arr32_typed UsageReceiptBody.reads_typed)
qed

lemma SnapshotResponse_codec:
  assumes "base64_correct C"
  shows "codec (SnapshotResponse_ser C) (SnapshotResponse_de C) (\<lambda>_. True)"
proof
  show "SnapshotResponse_de C (SnapshotResponse_ser C x) = Some x" for x
    using assms by (simp add: SnapshotResponse_ser_def SnapshotResponse_de_def struct_rt codec_rt)
qed simp

lemma SignedBootstrap_codec:
  assumes "base64_correct C"
  shows "codec (SignedBootstrap_ser C) (SignedBootstrap_de C) (\<lambda>_. True)"
proof
  show "SignedBootstrap_de C (SignedBootstrap_ser C x) = Some x" for x
    using assms by (simp add: SignedBootstrap_ser_def SignedBootstrap_de_def struct_rt codec_rt)
qed simp

lemma tagged_rt:
  "t \<notin> set (map fst kvs) \<Longrightarrow> tagged t (JObject ((t, JString s) # kvs)) = Some (s, JObject kvs)"
  by (force simp: tagged_def count_list_0_iff json_str_def filter_id_conv)

lemma TunnelFrame_codec:
  assumes "base64_correct C"
  shows "codec (TunnelFrame_ser C) (TunnelFrame_de C) TunnelFrame_fixed"
proof
  show "TunnelFrame_de C (TunnelFrame_ser C x) = Some x" if "TunnelFrame_fixed x" for x
    using assms that by (cases x) (simp_all add: TunnelFrame_ser_def TunnelFrame_de_def TunnelFrame_fixed_def
      tagged_rt struct_rt codec_rt)
  show "TunnelFrame_fixed x" if "TunnelFrame_de C v = Some x" for v x
    using that by (auto simp: TunnelFrame_de_def TunnelFrame_fixed_def Option.bind_eq_Some_conv
      dest!: arr32_typed split: if_splits)
qed

text \<open>
  With \<open>deny_unknown_fields\<close> the object has exactly the declared fields; a tag
  that names no variant is refused whatever follows it.
\<close>

lemma struct_refuses_foreign: "k \<notin> set names \<Longrightarrow> (k, v) \<in> set kvs \<Longrightarrow> struct_fields True names (JObject kvs) = None"
  by (auto simp: struct_fields_def list_all_iff)

lemma struct_needs_each: "n \<in> set names \<Longrightarrow> n \<notin> set (map fst kvs) \<Longrightarrow> struct_fields deny names (JObject kvs) = None"
  by (auto simp: struct_fields_def list_all_iff count_list_0_iff)

lemma struct_refuses_repeats:
  "n \<in> set names \<Longrightarrow> 1 < count_list (map fst kvs) n \<Longrightarrow> struct_fields deny names (JObject kvs) = None"
  by (auto simp: struct_fields_def list_all_iff)

end
