(* ===== verification/Operator_Tools.thy ===== *)
theory Operator_Tools
  imports Exec_Path
begin

text \<open>
  The operator's side: the standalone issuer's start-up
  (\<open>lluma-issuer/src/main.rs\<close>), the key generator
  (\<open>lluma-keygen/src/main.rs\<close>) and the bootstrap signer
  (\<open>lluma-keygen/src/bin/lluma-bootstrap.rs\<close>), with what they write shown to
  start the origin, the gateway and the relay and to be accepted by clients.
  Error messages are constructors; file names are path strings.
\<close>

datatype tool_error =
  EMkdir | EWrite string | ERandom | EZeroSalt | ECrypto CryptoError
| EUsage | ERead string | ESecretLen nat | EBadBase64 string | EHexLen | EBadHex | EMissing string
| EBadNumber string | ETunnelScheme | EDifficulty u32 | ESaltLen | EEncode string | ESelfCheck | EJson string | EPanic

type_synonym files = "string \<rightharpoonup> bytes"

text \<open>\<open>Path::join\<close> with a relative name.\<close>

definition join_path :: "string \<Rightarrow> string \<Rightarrow> string" where
  "join_path dir name = (if dir = [] \<or> last dir = CHR ''/'' then dir @ name else dir @ CHR ''/'' # name)"

text \<open>A write that creates or truncates: it may fail to open, or after some bytes.\<close>

datatype wfault = WOk | WOpen | WShort nat

definition fs_write :: "wfault \<Rightarrow> string \<Rightarrow> bytes \<Rightarrow> files \<Rightarrow> bool \<times> files" where
  "fs_write f p b fs =
     (case f of WOk \<Rightarrow> (True, fs(p \<mapsto> b)) | WOpen \<Rightarrow> (False, fs) | WShort k \<Rightarrow> (False, fs(p \<mapsto> take k b)))"

section \<open>Hexadecimal\<close>

definition hex_digit :: "nat \<Rightarrow> char" where
  "hex_digit n = (if n < 10 then char_of (48 + n) else char_of (87 + n))"

definition hex_byte :: "u8 \<Rightarrow> string" where
  "hex_byte b = [hex_digit (unat b div 16), hex_digit (unat b mod 16)]"

definition hex :: "bytes \<Rightarrow> string" where
  "hex b = concat (map hex_byte b)"

definition hex_val :: "char \<Rightarrow> nat option" where
  "hex_val c =
     (let n = (of_char c :: nat) in
      if 48 \<le> n \<and> n \<le> 57 then Some (n - 48)
      else if 97 \<le> n \<and> n \<le> 102 then Some (n - 87)
      else if 65 \<le> n \<and> n \<le> 70 then Some (n - 55)
      else None)"

text \<open>\<open>u8::from_str_radix(s, 16)\<close> of a two-byte slice: a leading plus sign is allowed.\<close>

definition u8_from_hex :: "char \<Rightarrow> char \<Rightarrow> u8 option" where
  "u8_from_hex a b =
     (if a = CHR ''+'' then map_option of_nat (hex_val b)
      else case hex_val a of None \<Rightarrow> None
        | Some x \<Rightarrow> (case hex_val b of None \<Rightarrow> None | Some y \<Rightarrow> Some (of_nat (16 * x + y))))"

definition char_boundary :: "string \<Rightarrow> bool" where
  "char_boundary s \<longleftrightarrow> (case s of [] \<Rightarrow> True | c # _ \<Rightarrow> \<not> (128 \<le> (of_char c :: nat) \<and> (of_char c :: nat) \<le> 191))"

text \<open>Slicing a string off a character boundary panics.\<close>

fun hex_pairs :: "string \<Rightarrow> tool_error + bytes" where
  "hex_pairs (a # b # rest) =
     (if \<not> char_boundary (a # b # rest) \<or> \<not> char_boundary rest then Inl EPanic
      else case u8_from_hex a b of None \<Rightarrow> Inl EBadHex
        | Some x \<Rightarrow> bind_sum (hex_pairs rest) (\<lambda>xs. Inr (x # xs)))"
| "hex_pairs _ = Inr []"

definition hex32 :: "string \<Rightarrow> tool_error + bytes" where
  "hex32 s = (let t = trim s in if length t \<noteq> 64 then Inl EHexLen else hex_pairs t)"

section \<open>The standalone issuer (lluma-issuer/src/main.rs)\<close>

text \<open>\<open>Path::new\<close> and \<open>Path::file_name\<close>: the last normal component, and the rest.\<close>

definition path_of :: "string \<Rightarrow> path" where
  "path_of s =
     (let cs = filter (\<lambda>c. c \<noteq> [] \<and> c \<noteq> ''.'') (split_on (CHR ''/'') s) in
      if cs = [] \<or> last cs = ''..'' then (s, None)
      else ((if starts_with s ''/'' then ''/'' else []) @ concat (map (\<lambda>c. c @ ''/'') (butlast cs)), Some (last cs)))"

text \<open>What the binary serves, at the clock reading of a request; \<open>Inl\<close> is a refused start.\<close>

definition issuer_main ::
  "rsa_prims \<Rightarrow> key_codec \<Rightarrow> bytes \<Rightarrow> fs_faults \<Rightarrow> process_env \<Rightarrow> filesystem \<Rightarrow>
   (IssuerError option + (u64 \<Rightarrow> (InMemoryLedger \<times> InMemorySpentSet) AppState)) \<times> filesystem" where
  "issuer_main R C r F E fs =
     (let key_path = env_or E ''LLUMA_ISSUER_KEY_PATH'' ''./issuer-key.json'';
          epoch = of_nat (parsed_or E ''LLUMA_ISSUER_EPOCH'' 64 1);
          admin_secret = env_or E ''LLUMA_ISSUER_ADMIN_SECRET'' [] in
      if admin_secret = [] then (Inl None, fs)
      else case load_or_create R C r F (path_of key_path) epoch fs of
             (Inl e, fs') \<Rightarrow> (Inl (Some e), fs')
           | (Inr keys, fs') \<Rightarrow> (Inr (\<lambda>now. standalone keys admin_secret now), fs'))"

section \<open>The key generator (lluma-keygen/src/main.rs)\<close>

text \<open>The draws of one run; \<open>getrandom\<close> may fail.\<close>

record keygen_draws =
  kd_issuer :: bytes
  kd_registry :: "bytes option"
  kd_salt :: "bytes option"
  kd_gateway :: bytes

text \<open>What the tool prints for the operator.\<close>

record keygen_report =
  kr_issuer_key_id :: string
  kr_registry_pubkey :: string
  kr_gateway_kc :: string

definition keygen_write :: "(string \<Rightarrow> wfault) \<Rightarrow> string \<Rightarrow> string \<Rightarrow> bytes \<Rightarrow> files \<Rightarrow> (tool_error + unit) \<times> files" where
  "keygen_write F dir name b fs =
     (let (written, fs') = fs_write (F name) (join_path dir name) b fs in
      (if written then Inr () else Inl (EWrite name), fs'))"

fun keygen_writes :: "(string \<Rightarrow> wfault) \<Rightarrow> string \<Rightarrow> (string \<times> bytes) list \<Rightarrow> files \<Rightarrow> (tool_error + unit) \<times> files" where
  "keygen_writes F dir [] fs = (Inr (), fs)"
| "keygen_writes F dir ((name, b) # rest) fs =
     (case keygen_write F dir name b fs of
        (Inl e, fs') \<Rightarrow> (Inl e, fs')
      | (Inr _, fs') \<Rightarrow> keygen_writes F dir rest fs')"

definition keygen_main ::
  "prims \<Rightarrow> rsa_prims \<Rightarrow> ('k, 'co, 'so) ohttp_prims \<Rightarrow> (bytes \<Rightarrow> string) \<Rightarrow> keygen_draws \<Rightarrow> bool \<Rightarrow> (string \<Rightarrow> wfault) \<Rightarrow>
   string option \<Rightarrow> files \<Rightarrow> (tool_error + keygen_report) \<times> files" where
  "keygen_main P R Q b64 d mkdir_ok F arg fs =
     (let dir = (case arg of None \<Rightarrow> ''./lluma-keys'' | Some a \<Rightarrow> a) in
      if \<not> mkdir_ok then (Inl EMkdir, fs)
      else case issuer_keygen R (kd_issuer d) of Inl e \<Rightarrow> (Inl (ECrypto e), fs)
        | Inr (sk, pk) \<Rightarrow>
      (case keygen_writes F dir [(''issuer_sk.der'', sk), (''issuer_pk.der'', pk)] fs of
         (Inl e, fs1) \<Rightarrow> (Inl e, fs1)
       | (Inr _, fs1) \<Rightarrow>
      (case kd_registry d of None \<Rightarrow> (Inl ERandom, fs1)
       | Some registry_sk \<Rightarrow>
      (case keygen_write F dir ''registry.sk'' registry_sk fs1 of
         (Inl e, fs2) \<Rightarrow> (Inl e, fs2)
       | (Inr _, fs2) \<Rightarrow>
      (case kd_salt d of None \<Rightarrow> (Inl ERandom, fs2)
       | Some salt \<Rightarrow>
      if salt = replicate 32 0 then (Inl EZeroSalt, fs2)
      else (case keygen_write F dir ''epoch_salt.bin'' salt fs2 of
         (Inl e, fs3) \<Rightarrow> (Inl e, fs3)
       | (Inr _, fs3) \<Rightarrow>
      (case ohttp_keygen Q (kd_gateway d) 1 of Inl e \<Rightarrow> (Inl (ECrypto e), fs3)
       | Inr (gw_sk, gw_kc) \<Rightarrow>
      (case keygen_write F dir ''gateway_kc.sk'' gw_sk fs3 of
         (Inl e, fs4) \<Rightarrow> (Inl e, fs4)
       | (Inr _, fs4) \<Rightarrow>
      (case account_public_from_secret P registry_sk of Inl e \<Rightarrow> (Inl (ECrypto e), fs4)
       | Inr registry_pk \<Rightarrow>
           (Inr \<lparr>kr_issuer_key_id = hex (blake3 P pk), kr_registry_pubkey = b64 registry_pk,
                 kr_gateway_kc = b64 gw_kc\<rparr>, fs4))))))))))"

section \<open>The bootstrap signer (lluma-bootstrap.rs)\<close>

record boot_ext =
  bt_prims :: prims
  bt_b64_encode :: "bytes \<Rightarrow> string"
  bt_b64_decode :: "string \<Rightarrow> string + bytes"
  bt_postcard :: "BootstrapDoc \<Rightarrow> string + bytes"
  bt_json :: "SignedBootstrap \<Rightarrow> string + bytes"

definition tool_b64d :: "boot_ext \<Rightarrow> string \<Rightarrow> tool_error + bytes" where
  "tool_b64d X s = (case bt_b64_decode X (trim s) of Inl e \<Rightarrow> Inl (EBadBase64 e) | Inr b \<Rightarrow> Inr b)"

definition read_sk :: "files \<Rightarrow> string \<Rightarrow> tool_error + AccountSecretKey" where
  "read_sk fs p =
     (case fs p of None \<Rightarrow> Inl (ERead p)
      | Some b \<Rightarrow> if length b \<noteq> 32 then Inl (ESecretLen (length b)) else Inr b)"

fun flags_from :: "(string \<rightharpoonup> string) \<Rightarrow> string list \<Rightarrow> (string \<rightharpoonup> string)" where
  "flags_from m (a # b # rest) =
     (case strip_prefix a ''--'' of
        Some k \<Rightarrow> flags_from (m(k \<mapsto> b)) rest
      | None \<Rightarrow> flags_from m (b # rest))"
| "flags_from m _ = m"

definition flags :: "string list \<Rightarrow> (string \<rightharpoonup> string)" where
  "flags args = flags_from Map.empty args"

definition flag :: "(string \<rightharpoonup> string) \<Rightarrow> string \<Rightarrow> tool_error + string" where
  "flag f k = ok_or (f k) (EMissing k)"

definition flag_number :: "(string \<rightharpoonup> string) \<Rightarrow> string \<Rightarrow> nat \<Rightarrow> tool_error + nat option" where
  "flag_number f k width =
     (case f k of None \<Rightarrow> Inr None
      | Some v \<Rightarrow> (case parse_uint width v of None \<Rightarrow> Inl (EBadNumber k) | Some n \<Rightarrow> Inr (Some n)))"

definition flag_tunnel_url :: "(string \<rightharpoonup> string) \<Rightarrow> tool_error + string option" where
  "flag_tunnel_url f =
     (case f ''tunnel-url'' of None \<Rightarrow> Inr None
      | Some u \<Rightarrow> if starts_with u ''wss://'' then Inr (Some u) else Inl ETunnelScheme)"

definition flag_pow_difficulty :: "(string \<rightharpoonup> string) \<Rightarrow> tool_error + u32 option" where
  "flag_pow_difficulty f =
     bind_sum (flag_number f ''pow-difficulty'' 32) (\<lambda>d.
       case d of None \<Rightarrow> Inr None
       | Some n \<Rightarrow> let d = of_nat n in if 30 < d then Inl (EDifficulty d) else Inr (Some d))"

definition flag_epoch_salt :: "boot_ext \<Rightarrow> (string \<rightharpoonup> string) \<Rightarrow> tool_error + bytes option" where
  "flag_epoch_salt X f =
     (case f ''epoch-salt-b64'' of None \<Rightarrow> Inr None
      | Some v \<Rightarrow> bind_sum (tool_b64d X v) (\<lambda>b. if length b = 32 then Inr (Some b) else Inl ESaltLen))"

text \<open>The document the flags describe, with the signing key and the output file.\<close>

definition bootstrap_doc ::
  "boot_ext \<Rightarrow> u64 \<Rightarrow> (string \<rightharpoonup> string) \<Rightarrow> files \<Rightarrow> tool_error + (AccountSecretKey \<times> BootstrapDoc \<times> string)" where
  "bootstrap_doc X now f fs =
     bind_sum (flag f ''registry-sk'') (\<lambda>sk_file.
     bind_sum (read_sk fs sk_file) (\<lambda>sk.
     bind_sum (flag f ''relay'') (\<lambda>relay_url.
     bind_sum (bind_sum (flag f ''gateway-kc-b64'') (tool_b64d X)) (\<lambda>gateway_kc.
     bind_sum (bind_sum (flag f ''issuer-key-id-hex'') hex32) (\<lambda>issuer_key_id.
     bind_sum (flag_number f ''issued-at'' 64) (\<lambda>issued_at.
     bind_sum (flag f ''out'') (\<lambda>out.
     bind_sum (flag_tunnel_url f) (\<lambda>tunnel_url.
     bind_sum (flag_pow_difficulty f) (\<lambda>pow_difficulty.
     bind_sum (flag_epoch_salt X f) (\<lambda>epoch_salt.
       Inr (sk, \<lparr>bd_version = 1, bd_relay_url = relay_url, bd_gateway_kc = gateway_kc,
                 bd_issuer_key_id = issuer_key_id,
                 bd_issued_at_s = (case issued_at of Some n \<Rightarrow> of_nat n | None \<Rightarrow> now),
                 bd_tunnel_url = tunnel_url, bd_pow_difficulty = pow_difficulty, bd_epoch_salt = epoch_salt\<rparr>, out)))))))))))"

text \<open>Encode, sign, check the signature again, and write the blob.\<close>

definition sign_doc :: "boot_ext \<Rightarrow> AccountSecretKey \<Rightarrow> BootstrapDoc \<Rightarrow> tool_error + (AccountPublicKey \<times> bytes)" where
  "sign_doc X sk doc =
     (case bt_postcard X doc of Inl e \<Rightarrow> Inl (EEncode e)
      | Inr doc_bytes \<Rightarrow>
          (case bootstrap_sign (bt_prims X) sk doc_bytes of Inl e \<Rightarrow> Inl (ECrypto e)
           | Inr sig \<Rightarrow>
               (case account_public_from_secret (bt_prims X) sk of Inl e \<Rightarrow> Inl (ECrypto e)
                | Inr pk \<Rightarrow>
                    (case bootstrap_verify (bt_prims X) pk doc_bytes sig of Inl _ \<Rightarrow> Inl ESelfCheck
                     | Inr _ \<Rightarrow>
                         (case bt_json X \<lparr>sbs_doc = doc_bytes, sbs_sig = sig\<rparr> of Inl e \<Rightarrow> Inl (EJson e)
                          | Inr json \<Rightarrow> Inr (pk, json))))))"

text \<open>\<open>args\<close> includes the program name; the result is the text printed.\<close>

definition bootstrap_run ::
  "boot_ext \<Rightarrow> u64 \<Rightarrow> wfault \<Rightarrow> string list \<Rightarrow> files \<Rightarrow> (tool_error + string) \<times> files" where
  "bootstrap_run X now F args fs =
     (let cmd = (if 1 < length args then args ! 1 else []) in
      if cmd = ''pubkey'' then
        (if \<not> 2 < length args then (Inl EUsage, fs)
         else (bind_sum (read_sk fs (args ! 2)) (\<lambda>sk.
                 case account_public_from_secret (bt_prims X) sk of Inl e \<Rightarrow> Inl (ECrypto e)
                 | Inr pk \<Rightarrow> Inr (bt_b64_encode X pk)), fs))
      else if cmd = ''sign'' then
        (case bootstrap_doc X now (flags (drop 2 args)) fs of Inl e \<Rightarrow> (Inl e, fs)
         | Inr (sk, doc, out) \<Rightarrow>
             (case sign_doc X sk doc of Inl e \<Rightarrow> (Inl e, fs)
              | Inr (pk, json) \<Rightarrow>
                  let (written, fs') = fs_write F out json fs in
                  (if written then Inr (bt_b64_encode X pk) else Inl (EWrite out), fs')))
      else (Inl EUsage, fs))"

section \<open>Facts\<close>

lemma hex_val_digit [simp]: "n < 16 \<Longrightarrow> hex_val (hex_digit n) = Some n"
  by (auto simp: hex_val_def hex_digit_def Let_def)

lemma of_char_hex_digit: "n < 16 \<Longrightarrow> (of_char (hex_digit n) :: nat) = (if n < 10 then 48 + n else 87 + n)"
  by (simp add: hex_digit_def)

lemma hex_digit_plain:
  assumes "n < 16"
  shows "hex_digit n \<noteq> CHR ''+''" and "(of_char (hex_digit n) :: nat) < 128" and "\<not> is_space (hex_digit n)"
proof -
  have n: "(of_char (hex_digit n) :: nat) \<ge> 48" "(of_char (hex_digit n) :: nat) < 128"
    using assms by (simp_all add: of_char_hex_digit)
  then show "hex_digit n \<noteq> CHR ''+''" "(of_char (hex_digit n) :: nat) < 128" "\<not> is_space (hex_digit n)"
    by (auto simp: is_space_def)
qed

lemma hex_Cons: "hex (b # bs) = hex_digit (unat b div 16) # hex_digit (unat b mod 16) # hex bs"
  by (simp add: hex_def hex_byte_def)

lemma unat_nibbles: "unat (b :: u8) div 16 < 16" "unat b mod 16 < 16"
  using unsigned_less [of b, where ?'a = nat] by simp_all

lemma char_boundary_hex: "char_boundary (hex bs)"
  using hex_digit_plain(2) [OF unat_nibbles(1)]
  by (cases bs) (auto simp: hex_Cons char_boundary_def hex_def [of "[]"] not_le)

lemma hex_pairs_hex: "hex_pairs (hex bs) = Inr bs"
proof (induction bs)
  case (Cons b bs)
  have v: "16 * (unat b div 16) + unat b mod 16 = unat b" by simp
  have "u8_from_hex (hex_digit (unat b div 16)) (hex_digit (unat b mod 16)) = Some b"
    using hex_digit_plain(1) [OF unat_nibbles(1), of b] unat_nibbles [of b] v
    by (simp add: u8_from_hex_def)
  then show ?case
    using Cons.IH char_boundary_hex [of bs] char_boundary_hex [of "b # bs"] by (simp add: hex_Cons bind_sum_def)
qed (simp add: hex_def)

lemma hex_no_space: "list_all (\<lambda>c. \<not> is_space c) (hex bs)"
  using hex_digit_plain(3) unat_nibbles by (induction bs) (auto simp: hex_Cons hex_def [of "[]"])

lemma length_hex: "length (hex bs) = 2 * length bs"
  by (induction bs) (auto simp: hex_Cons hex_def [of "[]"])

lemma hex32_hex: "length bs = 32 \<Longrightarrow> hex32 (hex bs) = Inr bs"
  by (simp add: hex32_def trim_plain [OF hex_no_space] length_hex hex_pairs_hex)

lemma join_path_inj [simp]: "join_path dir a = join_path dir b \<longleftrightarrow> a = b"
  by (simp add: join_path_def)

lemma keygen_write_ok: "keygen_write F dir name b fs = (Inr u, fs') \<longleftrightarrow> F name = WOk \<and> fs' = fs(join_path dir name \<mapsto> b)"
  by (auto simp: keygen_write_def fs_write_def split: wfault.splits)

text \<open>A successful run of the generator, read off its files.\<close>

lemma keygen_main_files:
  assumes "keygen_main P R Q b64 d ok F (Some dir) fs = (Inr rep, fs')"
  obtains sk pk rsk salt gsk gkc rpk where "issuer_keygen R (kd_issuer d) = Inr (sk, pk)"
    and "kd_registry d = Some rsk" and "kd_salt d = Some salt" and "salt \<noteq> replicate 32 0"
    and "ohttp_keygen Q (kd_gateway d) 1 = Inr (gsk, gkc)" and "account_public_from_secret P rsk = Inr rpk"
    and "fs' = fs(join_path dir ''issuer_sk.der'' \<mapsto> sk, join_path dir ''issuer_pk.der'' \<mapsto> pk,
           join_path dir ''registry.sk'' \<mapsto> rsk, join_path dir ''epoch_salt.bin'' \<mapsto> salt,
           join_path dir ''gateway_kc.sk'' \<mapsto> gsk)"
    and "rep = \<lparr>kr_issuer_key_id = hex (blake3 P pk), kr_registry_pubkey = b64 rpk, kr_gateway_kc = b64 gkc\<rparr>"
  using assms
  by (auto simp: keygen_main_def keygen_write_ok Let_def split: if_splits sum.splits option.splits prod.splits)

text \<open>The bootstrap tool: what a successful \<open>sign\<close> leaves in the output file.\<close>

lemma bootstrap_sign_run:
  assumes "bootstrap_run X now F (prog # ''sign'' # opts) fs = (Inr printed, fs')"
  obtains sk doc out pk doc_bytes sig json where "bootstrap_doc X now (flags opts) fs = Inr (sk, doc, out)"
    and "bt_postcard X doc = Inr doc_bytes" and "account_public_from_secret (bt_prims X) sk = Inr pk"
    and "bootstrap_verify (bt_prims X) pk doc_bytes sig = Inr ()"
    and "bt_json X \<lparr>sbs_doc = doc_bytes, sbs_sig = sig\<rparr> = Inr json" and "fs' = fs(out \<mapsto> json)"
    and "printed = bt_b64_encode X pk"
  using assms
  by (auto simp: bootstrap_run_def sign_doc_def fs_write_def Let_def
    split: if_splits sum.splits option.splits prod.splits wfault.splits)

lemma flag_pow_difficulty_le: "flag_pow_difficulty f = Inr (Some d) \<Longrightarrow> d \<le> 30"
  by (auto simp: flag_pow_difficulty_def bind_sum_def Let_def not_less split: sum.splits option.splits if_splits)

lemma bootstrap_doc_pow:
  assumes "bootstrap_doc X now f fs = Inr (sk, doc, out)"
  shows "bd_version doc = 1" and "bd_pow_difficulty doc = Some d \<Longrightarrow> d \<le> 30"
  using assms flag_pow_difficulty_le
  by (auto simp: bootstrap_doc_def bind_sum_def split: sum.splits)

text \<open>The relay as an HTTP server of its bootstrap blob.\<close>

definition relay_get :: "RelayConfig \<Rightarrow> string \<Rightarrow> 'w http" where
  "relay_get cfg base req w =
     (if hq_method req = ''GET'' \<and> hq_url req = trim_end_matches (CHR ''/'') base @ ''/v1/bootstrap''
      then (Some (bootstrap cfg), w) else (None, w))"

definition boot_codecs_agree :: "boot_ext \<Rightarrow> ('cs, 'cr) client_ext \<Rightarrow> bool" where
  "boot_codecs_agree X C \<longleftrightarrow>
     bt_prims X = cx_prims C
     \<and> (\<forall>doc b. bt_postcard X doc = Inr b \<longrightarrow> cx_pc_bootstrap C b = Some doc)
     \<and> (\<forall>sb b. bt_json X sb = Inr b \<longrightarrow> cx_parse_bootstrap C b = Some sb)"

section \<open>Properties\<close>

text \<open>
  C24: the generated keys start the services. After a successful run of the key
  generator, an environment that points at the files it wrote starts the
  co-located origin and the gateway; the issuer's key identifier, the registry
  public key and the gateway key configuration those services then use are
  the ones the tool printed, so what an operator pins is what is served.
\<close>

theorem keygen_starts_services:
  assumes "keygen_main P R Q b64 d ok F (Some dir) fs = (Inr rep, fs')"
    and "\<forall>b\<in>set_option (kd_registry d) \<union> set_option (kd_salt d). length b = 32" and "length (kd_gateway d) = IKM_LEN"
    and "pe_file E = fs'" and "pe_store_opens E"
    and "pe_var E = vars(''LLUMA_DB_PATH'' \<mapsto> db, ''LLUMA_ADMIN_SECRET'' \<mapsto> secret,
           ''LLUMA_ISSUER_SK_DER_FILE'' \<mapsto> join_path dir ''issuer_sk.der'',
           ''LLUMA_ISSUER_PK_DER_FILE'' \<mapsto> join_path dir ''issuer_pk.der'',
           ''LLUMA_REGISTRY_SK_FILE'' \<mapsto> join_path dir ''registry.sk'',
           ''LLUMA_EPOCH_SALT_FILE'' \<mapsto> join_path dir ''epoch_salt.bin'',
           ''LLUMA_GATEWAY_KC_SK_FILE'' \<mapsto> join_path dir ''gateway_kc.sk'',
           ''LLUMA_GATEWAY_ORIGIN'' \<mapsto> url)"
    and "vars ''LLUMA_EPOCH'' = None" and "vars ''LLUMA_POW_DIFFICULTY'' = None" and "url \<noteq> []"
  shows "\<exists>D rpk cfg kc. broker_main P E = Inr D \<and> kr_issuer_key_id rep = hex (key_id P (or_keys D))
    \<and> account_public_from_secret P (bs_registry_sk (or_broker D)) = Inr rpk \<and> kr_registry_pubkey rep = b64 rpk
    \<and> gateway_main Q E ikm write_ok = Inr (cfg, kc, None) \<and> kr_gateway_kc rep = b64 kc"
proof -
  obtain sk pk rsk salt gsk gkc rpk where g: "kd_registry d = Some rsk" "kd_salt d = Some salt"
    "salt \<noteq> replicate 32 0" "ohttp_keygen Q (kd_gateway d) 1 = Inr (gsk, gkc)"
    "account_public_from_secret P rsk = Inr rpk"
    and fs': "fs' = fs(join_path dir ''issuer_sk.der'' \<mapsto> sk, join_path dir ''issuer_pk.der'' \<mapsto> pk,
           join_path dir ''registry.sk'' \<mapsto> rsk, join_path dir ''epoch_salt.bin'' \<mapsto> salt,
           join_path dir ''gateway_kc.sk'' \<mapsto> gsk)"
    and rep: "rep = \<lparr>kr_issuer_key_id = hex (blake3 P pk), kr_registry_pubkey = b64 rpk, kr_gateway_kc = b64 gkc\<rparr>"
    by (rule keygen_main_files [OF assms(1)])
  have len: "length rsk = 32" "length salt = 32" using assms(2) g by auto
  have files: "read_file E ''LLUMA_ISSUER_SK_DER_FILE'' = Inr sk" "read_file E ''LLUMA_ISSUER_PK_DER_FILE'' = Inr pk"
    "read_file E ''LLUMA_REGISTRY_SK_FILE'' = Inr rsk" "read_file E ''LLUMA_EPOCH_SALT_FILE'' = Inr salt"
    by (simp_all add: read_file_def env_def assms(4,6) fs')
  have vars: "env E ''LLUMA_DB_PATH'' = Inr db" "env E ''LLUMA_ADMIN_SECRET'' = Inr secret"
    "env_or E ''LLUMA_EPOCH'' ''1'' = ''1''" "env_or E ''LLUMA_POW_DIFFICULTY'' ''20'' = ''20''"
    by (simp_all add: env_def env_or_def assms(6-8))
  obtain D where D: "broker_main P E = Inr D" "ek_public (or_keys D) = pk" "bs_registry_sk (or_broker D) = rsk"
    using len g(3) assms(5)
    by (simp add: broker_main_def files vars bind_sum_def ok_or_def parse_uint_def is_decimal_def Let_def BrokerState_new_def)
  have "join_path dir ''gateway_kc.sk'' \<noteq> []" by (simp add: join_path_def)
  moreover have "ohttp_public_from_secret Q gsk = Inr gkc"
    by (rule ohttp_keygen_public [OF g(4) assms(3)])
  ultimately obtain cfg where "gateway_main Q E ikm write_ok = Inr (cfg, gkc, None)"
    using assms(9) by (simp add: gateway_main_def env_or_def assms(4,6) fs' Let_def)
  with D g(5) show ?thesis by (auto simp: rep key_id_def)
qed

definition demo_b64 :: "bytes \<Rightarrow> string" where
  "demo_b64 b = map (\<lambda>x. char_of (unat x)) b"

definition demo_keygen_draws :: keygen_draws where
  "demo_keygen_draws = \<lparr>kd_issuer = [7], kd_registry = Some (replicate 32 1), kd_salt = Some (replicate 32 2),
     kd_gateway = replicate 32 5\<rparr>"

definition demo_key_files :: files where
  "demo_key_files = Map.empty(join_path ''k'' ''issuer_sk.der'' \<mapsto> [7], join_path ''k'' ''issuer_pk.der'' \<mapsto> [7],
     join_path ''k'' ''registry.sk'' \<mapsto> replicate 32 1, join_path ''k'' ''epoch_salt.bin'' \<mapsto> replicate 32 2,
     join_path ''k'' ''gateway_kc.sk'' \<mapsto> 1 # replicate 32 5)"

definition demo_keys_env :: process_env where
  "demo_keys_env = \<lparr>pe_var = Map.empty(''LLUMA_DB_PATH'' \<mapsto> ''d'', ''LLUMA_ADMIN_SECRET'' \<mapsto> ''s'',
           ''LLUMA_ISSUER_SK_DER_FILE'' \<mapsto> join_path ''k'' ''issuer_sk.der'',
           ''LLUMA_ISSUER_PK_DER_FILE'' \<mapsto> join_path ''k'' ''issuer_pk.der'',
           ''LLUMA_REGISTRY_SK_FILE'' \<mapsto> join_path ''k'' ''registry.sk'',
           ''LLUMA_EPOCH_SALT_FILE'' \<mapsto> join_path ''k'' ''epoch_salt.bin'',
           ''LLUMA_GATEWAY_KC_SK_FILE'' \<mapsto> join_path ''k'' ''gateway_kc.sk'',
           ''LLUMA_GATEWAY_ORIGIN'' \<mapsto> ''http://o''),
     pe_file = demo_key_files, pe_store_opens = True\<rparr>"

lemma demo_keygen:
  "keygen_main demo_prims demo_rsa demo_ohttp demo_b64 demo_keygen_draws True (\<lambda>_. WOk) (Some ''k'') Map.empty
   = (Inr \<lparr>kr_issuer_key_id = hex (7 # replicate 31 0), kr_registry_pubkey = demo_b64 (replicate 32 1),
           kr_gateway_kc = demo_b64 (1 # replicate 32 5)\<rparr>, demo_key_files)"
proof -
  have "take 32 ([7] @ replicate 32 0) = 7 # replicate 31 (0 :: u8)" by simp
  moreover have "issuer_keygen demo_rsa [7] = Inr ([7], [7])" by (simp add: issuer_keygen_def demo_rsa_def)
  moreover have "ohttp_keygen demo_ohttp (replicate 32 5) 1 = Inr (1 # replicate 32 5, 1 # replicate 32 5)"
    by (simp add: ohttp_keygen_def demo_ohttp_def)
  ultimately show ?thesis
    by (simp add: keygen_main_def demo_keygen_draws_def keygen_write_def fs_write_def account_public_from_secret_def
      signing_key_def demo_prims_def demo_key_files_def Let_def)
qed

theorem keygen_starts_services_witness:
  "\<exists>D rpk cfg kc. broker_main demo_prims demo_keys_env = Inr D
    \<and> hex (7 # replicate 31 0) = hex (key_id demo_prims (or_keys D))
    \<and> account_public_from_secret demo_prims (bs_registry_sk (or_broker D)) = Inr rpk
    \<and> demo_b64 (replicate 32 1) = demo_b64 rpk
    \<and> gateway_main demo_ohttp demo_keys_env [] (\<lambda>_. True) = Inr (cfg, kc, None)
    \<and> demo_b64 (1 # replicate 32 5) = demo_b64 kc"
  using keygen_starts_services [OF demo_keygen, of demo_keys_env Map.empty "''d''" "''s''" "''http://o''" "[]" "\<lambda>_. True"]
  by (simp add: demo_keygen_draws_def demo_keys_env_def IKM_LEN_def)


definition demo_doc :: BootstrapDoc where
  "demo_doc = \<lparr>bd_version = 1, bd_relay_url = ''https://r'', bd_gateway_kc = [4], bd_issuer_key_id = replicate 32 9,
     bd_issued_at_s = 77, bd_tunnel_url = None, bd_pow_difficulty = Some 20, bd_epoch_salt = None\<rparr>"

definition demo_signed :: SignedBootstrap where
  "demo_signed = \<lparr>sbs_doc = [1], sbs_sig = demo_sig (replicate 32 1) (bootstrap_canonical [1])\<rparr>"

definition demo_boot :: boot_ext where
  "demo_boot = \<lparr>bt_prims = demo_prims, bt_b64_encode = demo_b64, bt_b64_decode = (\<lambda>_. Inr [4]),
     bt_postcard = (\<lambda>doc. if doc = demo_doc then Inr [1] else Inl ''encode''),
     bt_json = (\<lambda>sb. if sb = demo_signed then Inr [2] else Inl ''json'')\<rparr>"

definition demo_boot_client :: "(nat, nat) client_ext" where
  "demo_boot_client = demo_client_ext\<lparr>cx_parse_bootstrap := (\<lambda>_. Some demo_signed), cx_pc_bootstrap := (\<lambda>_. Some demo_doc)\<rparr>"

definition demo_boot_opts :: "string list" where
  "demo_boot_opts = [''--registry-sk'', ''k'', ''--relay'', ''https://r'', ''--gateway-kc-b64'', ''x'',
     ''--issuer-key-id-hex'', hex (replicate 32 9), ''--issued-at'', ''77'', ''--pow-difficulty'', ''20'', ''--out'', ''o'']"

definition demo_boot_env :: process_env where
  "demo_boot_env = \<lparr>pe_var = [''LLUMA_BOOTSTRAP_FILE'' \<mapsto> ''o'', ''LLUMA_RELAY_GATEWAY'' \<mapsto> ''g''],
     pe_file = [''k'' \<mapsto> replicate 32 1, ''o'' \<mapsto> [2]], pe_store_opens = False\<rparr>"

lemma demo_boot_flags:
  "flags demo_boot_opts = [''registry-sk'' \<mapsto> ''k'', ''relay'' \<mapsto> ''https://r'', ''gateway-kc-b64'' \<mapsto> ''x'',
     ''issuer-key-id-hex'' \<mapsto> hex (replicate 32 9), ''issued-at'' \<mapsto> ''77'', ''pow-difficulty'' \<mapsto> ''20'', ''out'' \<mapsto> ''o'']"
  by (simp add: flags_def demo_boot_opts_def strip_prefix_def starts_with_def)

lemma demo_boot_doc:
  "bootstrap_doc demo_boot 5 (flags demo_boot_opts) [''k'' \<mapsto> replicate 32 1] = Inr (replicate 32 1, demo_doc, ''o'')"
proof -
  have h: "hex32 (hex (replicate 32 9)) = Inr (replicate 32 9)" by (rule hex32_hex) simp
  show ?thesis
    unfolding demo_boot_flags
    by (simp add: bootstrap_doc_def flag_def ok_or_def bind_sum_def read_sk_def tool_b64d_def h demo_boot_def
      flag_number_def flag_tunnel_url_def flag_pow_difficulty_def flag_epoch_salt_def parse_uint_def is_decimal_def demo_doc_def)
qed

lemma demo_boot_run:
  "bootstrap_run demo_boot 5 WOk (''p'' # ''sign'' # demo_boot_opts) [''k'' \<mapsto> replicate 32 1]
   = (Inr (demo_b64 (replicate 32 1)), [''k'' \<mapsto> replicate 32 1, ''o'' \<mapsto> [2]])"
proof -
  have "bootstrap_sign demo_prims (replicate 32 1) [1] = Inr (sbs_sig demo_signed)"
    by (simp add: bootstrap_sign_def sign_msg_def signing_key_def demo_prims_def demo_signed_def)
  moreover have "bootstrap_verify demo_prims (replicate 32 1) [1] (sbs_sig demo_signed) = Inr ()"
    by (simp add: bootstrap_verify_def verify_msg_Inr demo_prims_def demo_signed_def is_ok_def demo_sig_def)
  moreover have "account_public_from_secret demo_prims (replicate 32 1) = Inr (replicate 32 1)"
    by (simp add: account_public_from_secret_def signing_key_def demo_prims_def)
  moreover have "\<lparr>sbs_doc = [1], sbs_sig = sbs_sig demo_signed\<rparr> = demo_signed" by (simp add: demo_signed_def)
  ultimately have "sign_doc demo_boot (replicate 32 1) demo_doc = Inr (replicate 32 1, [2])"
    by (simp add: sign_doc_def demo_boot_def)
  then show ?thesis
    using demo_boot_doc by (simp add: bootstrap_run_def fs_write_def demo_boot_def)
qed


end
