(* ===== verification/Broker_Types.thy ===== *)
theory Broker_Types
  imports Broker_System
begin

text \<open>
  The tables of the durable store have byte strings for keys (\<open>store.rs\<close>
  declares them over \<open>&[u8]\<close>), while the program means fixed arrays: the
  snapshot and the eviction skip, without a word, any row whose key is not 32 bytes
  long. This theory shows that no handler ever writes such a row, and that nothing
  is skipped.
\<close>

section \<open>Typed stores\<close>

definition fixed_keys :: "(bytes, 'v) otable \<Rightarrow> bool" where
  "fixed_keys t \<longleftrightarrow> (\<forall>k\<in>tbl_keys t. id32 k)"

definition store_typed :: "store \<Rightarrow> bool" where
  "store_typed st \<longleftrightarrow>
     fixed_keys (SPENT st) \<and> fixed_keys (LEDGER st) \<and> fixed_keys (RECEIPTS st) \<and> fixed_keys (HOSTS st)
     \<and> fixed_keys (TRIAL_ACCTS st) \<and> fixed_keys (SPEND_HOST st)
     \<and> (\<forall>i h. tbl_get (SPEND_HOST st) i = Some h \<longrightarrow> id32 h)
     \<and> (\<forall>i row. tbl_get (RECEIPTS st) i = Some row \<longrightarrow> id32 (r_host_account row))"

text \<open>
  What the Rust types say of code outside the model: a BLAKE3 digest has 32 bytes,
  and a parsed request carries arrays of the declared length.
\<close>

definition arrays_fixed :: "issuer_ext \<Rightarrow> broker_ext \<Rightarrow> bool" where
  "arrays_fixed X B \<longleftrightarrow>
     (\<forall>b. id32 (blake3 (ix_prims X) b)) \<and> (\<forall>b. id32 (blake3 (bx_prims B) b))
     \<and> (\<forall>b r. ix_parse_grant X b = Some r \<longrightarrow> id32 (gr_account_id r))
     \<and> (\<forall>b r. bx_parse_exec B b = Some r \<longrightarrow> id32 (ex_host_account r))
     \<and> (\<forall>b r. bx_parse_register B b = Some r \<longrightarrow> id32 (hr_host_account (hrr_body r)))
     \<and> (\<forall>b r. bx_parse_receipt B b = Some r \<longrightarrow> id32 (ur_spend_id (rs_body r)) \<and> id32 (ur_host_account (rs_body r)))
     \<and> (\<forall>b r. bx_parse_trial B b = Some r \<longrightarrow> id32 (tr_account (trr_body r)))"

lemma fixed_keys_simps [simp]:
  "fixed_keys tbl_empty" "fixed_keys (tbl_insert k v t) \<longleftrightarrow> id32 k \<and> fixed_keys t"
  by (auto simp: fixed_keys_def)

lemma fixed_keysD: "fixed_keys t \<Longrightarrow> tbl_get t k = Some v \<Longrightarrow> id32 k"
  by (auto simp: fixed_keys_def in_tbl_keys)

lemma fixed_keys_cong: "(\<And>k. tbl_get t' k = None \<longleftrightarrow> tbl_get t k = None) \<Longrightarrow> fixed_keys t' = fixed_keys t"
  by (simp add: fixed_keys_def in_tbl_keys Ball_def)

lemma typed_fingerprint: "arrays_fixed X B \<Longrightarrow> id32 (account_fingerprint (ix_prims X) pk) \<and> id32 (account_fingerprint (bx_prims B) pk)"
  by (simp add: arrays_fixed_def account_fingerprint_def)

lemma typed_spend_id: "arrays_fixed X B \<Longrightarrow> id32 (token_spend_id (ix_prims X) t) \<and> id32 (token_spend_id (bx_prims B) t)"
  by (simp add: arrays_fixed_def token_spend_id_def)

lemma typed_empty: "store_typed empty_store"
  by (simp add: store_typed_def empty_store_def)

lemma typed_counters [simp]: "store_typed (st\<lparr>COUNTERS := c\<rparr>) = store_typed st"
  by (simp add: store_typed_def)

section \<open>Every storage operation keeps the types\<close>

lemma typed_ledger: "store_typed st \<Longrightarrow> id32 a \<Longrightarrow> store_typed (st\<lparr>LEDGER := tbl_insert a row (LEDGER st)\<rparr>)"
  by (simp add: store_typed_def)

lemma typed_debit: "store_typed st \<Longrightarrow> id32 a \<Longrightarrow> store_typed (snd (redb_debit flt a n st))"
  by (rule redb_debit_cases [of flt a n st]) (simp_all add: typed_ledger)

lemma typed_grant: "store_typed st \<Longrightarrow> id32 a \<Longrightarrow> store_typed (redb_grant flt a n st)"
  by (rule redb_grant_cases [of flt a n st]) (simp_all add: typed_ledger)

lemma typed_bump: "store_typed st \<Longrightarrow> store_typed (snd (bump_issued flt e n st))"
  by (rule bump_issued_cases [of flt e n st]) (simp_all add: bump_issued_clean)

lemma typed_mark: "store_typed st \<Longrightarrow> id32 i \<Longrightarrow> store_typed (snd (redb_spent_insert flt e i st))"
  by (rule redb_spent_insert_cases [of flt e i st]) (simp_all add: store_typed_def)

lemma typed_spend: "store_typed st \<Longrightarrow> id32 i \<Longrightarrow> id32 h \<Longrightarrow> store_typed (snd (with_write flt (spend_txn i h e) st))"
  by (rule spend_cases [of flt i h e st]) (auto simp: store_typed_def spent_store_def)

lemma typed_register:
  "store_typed st \<Longrightarrow> id32 (hr_host_account (hrr_body req)) \<Longrightarrow> store_typed (snd (register P U flt req cfg now st))"
  by (rule register_cases [of P U flt req cfg now st]) (simp_all add: store_typed_def)

lemma typed_heartbeat: "store_typed st \<Longrightarrow> store_typed (snd (heartbeat P flt flt' req now cfg st))"
  by (rule heartbeat_cases [of P flt flt' req now cfg st]) (auto simp: store_typed_def dest: fixed_keysD)

lemma typed_evict: "store_typed st \<Longrightarrow> store_typed (snd (evict_stale flt now cfg st))"
proof (rule evict_cases [of flt now cfg st])
  fix n hosts
  assume st: "store_typed st" and e: "evict_stale flt now cfg st = (Inr n, st\<lparr>HOSTS := hosts\<rparr>)"
    and h: "\<And>k. tbl_get hosts k = map_option (demoted_row now (sat_mul (cfg_heartbeat_interval_s cfg) 3) k) (tbl_get (HOSTS st) k)"
  have "fixed_keys hosts = fixed_keys (HOSTS st)" by (rule fixed_keys_cong) (simp add: h)
  with st e show "store_typed (snd (evict_stale flt now cfg st))" by (simp add: store_typed_def)
qed simp

lemma typed_ingest:
  assumes "store_typed st" and "id32 (ur_spend_id (rs_body r))" and "id32 (ur_host_account (rs_body r))"
    and "id32 (account_fingerprint P (ur_host_account (rs_body r)))"
  shows "store_typed (snd (ingest P flt r cfg st))"
  by (rule ingest_cases [of P flt r cfg st]) (use assms in \<open>auto simp: store_typed_def receipt_row_def Let_def\<close>)

lemma typed_trial:
  assumes "store_typed st" and "id32 (tr_account (trr_body r))" and "id32 (account_fingerprint P (tr_account (trr_body r)))"
  shows "store_typed (snd (grant_trial P flt r cfg day st))"
  by (rule trial_cases [of P flt r cfg day st]) (use assms in \<open>auto simp: store_typed_def trial_store_def\<close>)

section \<open>Every step keeps the types\<close>

lemma typed_redeem:
  assumes "arrays_fixed X B" and "store_typed st"
  shows "store_typed (snd (redeem X (colocated keys admin now flt) body st))"
  using assms(2) typed_mark [OF assms(2) conjunct1 [OF typed_spend_id [OF assms(1)]]]
  by (auto simp: redeem_def Let_def split: sum.splits prod.splits InsertOutcome.splits) (metis snd_conv)+

lemma typed_task:
  assumes "arrays_fixed X B" and "issue_task_step X (colocated keys admin now flt) r t (c, st) = (t', c', st')"
    and "store_typed st"
  shows "store_typed st'"
proof -
  have a: "id32 (issue_account X req)" for req
    using typed_fingerprint [OF assms(1)] by (simp add: issue_account_def)
  show ?thesis
  proof (cases t)
    case (Holding req)
    then show ?thesis
      using assms(2) typed_debit [OF assms(3) a, of flt req "batch_amount req"] by (auto split: prod.splits sum.splits)
  next
    case (Charged req)
    then show ?thesis
      using assms(2) typed_bump [OF assms(3), of flt "ek_epoch keys" "batch_amount req"] by auto
  next
    case (Unsigned req)
    then show ?thesis using assms(2) typed_grant [OF assms(3) a, of flt req "batch_amount req"] by auto
  qed (use assms(2,3) in \<open>auto split: sum.splits prod.splits BeginOutcome.splits\<close>)
qed

lemma typed_step:
  assumes "arrays_fixed X B"
  shows "sys_step X B D s s' \<Longrightarrow> store_typed (sy_store s) \<Longrightarrow> store_typed (sy_store s')"
proof (induction rule: sys_step.induct)
  case (advance i s flt r t c st)
  then show ?case using typed_task [OF assms] by simp
next
  case (redeem s flt body res st)
  then show ?case
    using typed_redeem [OF assms redeem(2), of "or_keys D" "or_admin_secret D" "sy_now s" flt body] by simp
next
  case (grant s flt hdr body res st)
  then show ?case
    using admin_grant_store [of X "colocated (or_keys D) (or_admin_secret D) (sy_now s) flt" hdr body "sy_store s"]
      typed_grant [OF grant(2)] assms by (auto simp: arrays_fixed_def)
next
  case (spend body req E route T s resp T' st)
  have "st = snd (with_write (ee_flt_write E) (spend_txn (token_spend_id (bx_prims B) (ex_token req)) (ex_host_account req)
      (cfg_epoch (bs_cfg (or_broker D)))) (sy_store s))"
    using exec_spend_store [of B "or_broker D" E route req T "sy_store s"] spend(3) by simp
  moreover have "id32 (ex_host_account req)" using assms spend(1) by (simp add: arrays_fixed_def)
  ultimately show ?case using typed_spend [OF spend(4) conjunct2 [OF typed_spend_id [OF assms]]] by simp
next
  case (register body req flt s resp st)
  then show ?case
    using host_register_store [of B "or_broker D" flt "sy_now s" body "sy_store s"] typed_register [OF register(3)] assms
    by (auto simp: arrays_fixed_def)
next
  case (heartbeat flt flt' s body resp st)
  then show ?case
    using host_heartbeat_store [of B "or_broker D" flt flt' "sy_now s" body "sy_store s"] typed_heartbeat
    by (cases "bx_parse_heartbeat B body") simp_all
next
  case (receipt flt body s resp st)
  then show ?case
    using receipt_submit_store [of B "or_broker D" flt body "sy_store s"] typed_ingest [OF receipt(2)]
      conjunct2 [OF typed_fingerprint [OF assms]] assms
    by (cases "bx_parse_receipt B body") (auto simp: arrays_fixed_def)
next
  case (trial flt s body resp st)
  then show ?case
    using trial_register_store [of B "or_broker D" flt "sy_now s" body "sy_store s"] typed_trial [OF trial(2)]
      conjunct2 [OF typed_fingerprint [OF assms]] assms
    by (cases "bx_parse_trial B body") (auto simp: arrays_fixed_def)
next
  case (evict flt s resp st)
  then show ?case using typed_evict [OF evict(2), of flt "sy_now s" "bs_cfg (or_broker D)"] by simp
qed simp_all

lemma reachable_typed:
  assumes "arrays_fixed X B" and "sys_reachable X B D s"
  shows "store_typed (sy_store s)"
  using assms(2) by (induction rule: sys_reachable_induct) (auto simp: sys_init_def typed_empty dest: typed_step [OF assms(1)])

section \<open>Nothing is skipped\<close>

lemma typed_entries:
  assumes "store_typed st"
  shows "active_entries (tbl_iter (HOSTS st)) =
    map (\<lambda>(k, row). host_entry k row) (filter (\<lambda>(k, row). h_status row = HOST_ACTIVE) (tbl_iter (HOSTS st)))"
proof -
  have "length k = 32" if "(k, row) \<in> set (tbl_iter (HOSTS st))" for k row
    using assms that fixed_keysD [of "HOSTS st" k row] by (simp add: store_typed_def tbl_get_iter id32_def)
  then have "filter (\<lambda>(k, row). length k = 32 \<and> h_status row = HOST_ACTIVE) (tbl_iter (HOSTS st))
      = filter (\<lambda>(k, row). h_status row = HOST_ACTIVE) (tbl_iter (HOSTS st))"
    by (intro filter_cong) auto
  then show ?thesis by (simp add: active_entries_def)
qed

text \<open>An eviction pass leaves no host active that has been silent for three intervals.\<close>

lemma typed_evicts:
  assumes "store_typed st" and "evict_stale flt now cfg st = (Inr n, st')" and "tbl_get (HOSTS st') k = Some row"
    and "sat_mul (cfg_heartbeat_interval_s cfg) 3 < sat_sub now (h_last_hb row)"
  shows "h_status row \<noteq> HOST_ACTIVE"
proof (rule evict_cases [of flt now cfg st])
  fix m hosts
  assume e: "evict_stale flt now cfg st = (Inr m, st\<lparr>HOSTS := hosts\<rparr>)"
    and h: "\<And>k. tbl_get hosts k = map_option (demoted_row now (sat_mul (cfg_heartbeat_interval_s cfg) 3) k) (tbl_get (HOSTS st) k)"
  from assms(2,3) e h obtain old where old: "tbl_get (HOSTS st) k = Some old"
      "row = demoted_row now (sat_mul (cfg_heartbeat_interval_s cfg) 3) k old" by auto
  have "length k = 32" using assms(1) fixed_keysD [OF _ old(1)] by (simp add: store_typed_def id32_def)
  then show ?thesis using assms(4) old(2) by (auto simp: demoted_row_def HOST_ACTIVE_def HOST_PENDING_def split: if_splits)
qed (use assms(2) in simp)

end
