(* ===== verification/Wire_Codecs.thy ===== *)
theory Wire_Codecs
  imports Core_Dto Operator_Tools Issuer_Client Broker_Types
begin

text \<open>
  The parties with the message codecs of \<open>proto.rs\<close> in place. The theories of
  the services take their parsers and printers as parameters; here these are the
  writers and readers of \<open>Core_Dto\<close> over two third-party parts: serde\_json's
  text syntax and the base64 engine. What the round trip of a request and the
  typing of the store asked of the parameters then follows.
\<close>

section \<open>Text\<close>

record json_text =
  jt_print :: "json \<Rightarrow> bytes"
  jt_parse :: "bytes \<Rightarrow> json option"

text \<open>
  The values a Rust program can write: decimal numbers without leading zeros,
  UTF-8 strings, and a nesting of at most \<open>d\<close> (no message has more than three
  levels; serde\_json reads 127).
\<close>

fun json_plain :: "nat \<Rightarrow> json \<Rightarrow> bool" where
  "json_plain _ JNull \<longleftrightarrow> True"
| "json_plain _ (JBool _) \<longleftrightarrow> True"
| "json_plain _ (JNumber s) \<longleftrightarrow> s \<noteq> [] \<and> list_all is_decimal s \<and> (s ! 0 = CHR ''0'' \<longrightarrow> length s = 1)"
| "json_plain _ (JString s) \<longleftrightarrow> utf8_ok (ascii s)"
| "json_plain 0 (JArray xs) \<longleftrightarrow> False"
| "json_plain 0 (JObject kvs) \<longleftrightarrow> False"
| "json_plain (Suc d) (JArray xs) \<longleftrightarrow> list_all (json_plain d) xs"
| "json_plain (Suc d) (JObject kvs) \<longleftrightarrow> list_all (\<lambda>(k, v). utf8_ok (ascii k) \<and> json_plain d v) kvs"

definition text_correct :: "json_text \<Rightarrow> bool" where
  "text_correct T \<longleftrightarrow> (\<forall>v. json_plain 4 v \<longrightarrow> jt_parse T (jt_print T v) = Some v)"

definition base64_ascii :: "base64 \<Rightarrow> bool" where
  "base64_ascii C \<longleftrightarrow> (\<forall>b. list_all (\<lambda>c. of_char c < (128 :: nat)) (be_encode C b))"

text \<open>
  \<open>serde_json::to_vec\<close> and \<open>from_slice\<close>. A record of the model that is no value of
  its Rust type (an array of another length, a string that is not UTF-8) has no text.
\<close>

definition to_vec :: "json_text \<Rightarrow> ('a \<Rightarrow> json) \<Rightarrow> ('a \<Rightarrow> bool) \<Rightarrow> 'a \<Rightarrow> bytes option" where
  "to_vec T ser fixed x = (if fixed x \<and> json_plain 4 (ser x) then Some (jt_print T (ser x)) else None)"

definition from_slice :: "json_text \<Rightarrow> (json \<Rightarrow> 'a option) \<Rightarrow> bytes \<Rightarrow> 'a option" where
  "from_slice T de b = do { v \<leftarrow> jt_parse T b; de v }"

section \<open>The parties\<close>

definition issuer_wired :: "json_text \<Rightarrow> base64 \<Rightarrow> issuer_ext \<Rightarrow> issuer_ext" where
  "issuer_wired T C X = X
     \<lparr>ix_parse_issue := from_slice T (IssueRequest_de C), ix_parse_redeem := from_slice T (RedeemRequest_de C),
      ix_parse_grant := from_slice T GrantRequest_de\<rparr>"

definition broker_wired :: "json_text \<Rightarrow> base64 \<Rightarrow> broker_ext \<Rightarrow> broker_ext" where
  "broker_wired T C B = B
     \<lparr>bx_parse_exec := from_slice T (ExecRequest_de C), bx_parse_register := from_slice T (HostRegisterRequest_de C),
      bx_parse_heartbeat := from_slice T (HeartbeatRequest_de C), bx_parse_receipt := from_slice T (ReceiptSubmit_de C),
      bx_parse_trial := from_slice T (TrialRegisterRequest_de C),
      bx_json_exec := to_vec T (ExecResponse_ser C) (\<lambda>_. True),
      bx_json_host_exec := to_vec T (HostExecRequest_ser C) HostExecRequest_fixed,
      bx_json_snapshot := to_vec T (SnapshotResponse_ser C) (\<lambda>_. True)\<rparr>"

definition client_wired :: "json_text \<Rightarrow> base64 \<Rightarrow> ('cs, 'cr) client_ext \<Rightarrow> ('cs, 'cr) client_ext" where
  "client_wired T C X = X
     \<lparr>cx_parse_bootstrap := from_slice T (SignedBootstrap_de C), cx_parse_kc := from_slice T (KeyConfigResponse_de C),
      cx_json_issue := to_vec T (IssueRequest_ser C) IssueRequest_fixed,
      cx_parse_issue_response := from_slice T (IssueResponse_de C),
      cx_json_trial := to_vec T (TrialRegisterRequest_ser C) TrialRegisterRequest_fixed,
      cx_parse_snapshot := from_slice T (SnapshotResponse_de C),
      cx_json_exec := to_vec T (ExecRequest_ser C) ExecRequest_fixed,
      cx_parse_exec_response := from_slice T (ExecResponse_de C)\<rparr>"

definition issuer_client_wired :: "json_text \<Rightarrow> base64 \<Rightarrow> issuer_client_ext \<Rightarrow> issuer_client_ext" where
  "issuer_client_wired T C X = X
     \<lparr>ic_parse_kc := from_slice T (KeyConfigResponse_de C), ic_json_issue := to_vec T (IssueRequest_ser C) IssueRequest_fixed,
      ic_parse_issue_response := from_slice T (IssueResponse_de C),
      ic_json_redeem := to_vec T (RedeemRequest_ser C) RedeemRequest_fixed,
      ic_parse_redeem_response := from_slice T RedeemResponse_de, ic_parse_value := jt_parse T\<rparr>"

definition host_wired :: "json_text \<Rightarrow> base64 \<Rightarrow> host_json \<Rightarrow> host_json" where
  "host_wired T C J = J
     \<lparr>hj_parse_exec := from_slice T (HostExecRequest_de C), hj_exec_response := to_vec T (ExecResponse_ser C) (\<lambda>_. True)\<rparr>"

definition frames_wired :: "json_text \<Rightarrow> base64 \<Rightarrow> frame_json" where
  "frames_wired T C =
     \<lparr>fj_to_string = to_vec T (TunnelFrame_ser C) TunnelFrame_fixed, fj_from_str = from_slice T (TunnelFrame_de C)\<rparr>"

lemmas wired_defs = issuer_wired_def broker_wired_def client_wired_def issuer_client_wired_def host_wired_def
  frames_wired_def

section \<open>Text codecs\<close>

lemma to_vec_reads_back:
  assumes "codec ser de fixed" and "text_correct T" and "to_vec T ser fixed x = Some b"
  shows "from_slice T de b = Some x"
  using assms(2,3) codec.reads_back [OF assms(1), of x]
  by (auto simp: to_vec_def from_slice_def text_correct_def split: if_splits)

lemma text_trip:
  assumes "codec ser de fixed" and "text_correct T" and "fixed x" and "json_plain 4 (ser x)"
  shows "\<exists>b. to_vec T ser fixed x = Some b \<and> from_slice T de b = Some x"
  using to_vec_reads_back [OF assms(1,2), of x] assms(3,4) by (auto simp: to_vec_def)

lemma from_slice_typed: "codec ser de fixed \<Longrightarrow> from_slice T de b = Some x \<Longrightarrow> fixed x"
  by (auto simp: from_slice_def Option.bind_eq_Some_conv intro: codec.reads_typed)

text \<open>Reading alone needs no law of the base64 engine.\<close>

lemma wired_arrays:
  assumes "\<forall>b. id32 (blake3 (ix_prims X) b)" and "\<forall>b. id32 (blake3 (bx_prims B) b)"
  shows "arrays_fixed (issuer_wired T C X) (broker_wired T C B)"
  using assms unfolding arrays_fixed_def
  by (auto simp: wired_defs from_slice_def Option.bind_eq_Some_conv ExecRequest_de_def HostRegisterRequest_de_def
      ReceiptSubmit_de_def TrialRegisterRequest_de_def GrantRequest.reads_typed [unfolded GrantRequest_fixed_def]
      HostRegisterBody_fixed_def UsageReceiptBody_fixed_def TrialRegisterBody_fixed_def GrantRequest_fixed_def
      dest!: arr32_typed HostRegisterBody.reads_typed UsageReceiptBody.reads_typed TrialRegisterBody.reads_typed GrantRequest.reads_typed)

text \<open>With these parsers in place the typing of the store rests on the digest length alone.\<close>

lemma wired_store_typed:
  assumes "\<forall>b. id32 (blake3 (ix_prims X) b)" and "\<forall>b. id32 (blake3 (bx_prims B) b)"
    and "sys_reachable (issuer_wired T C X) (broker_wired T C B) D s"
  shows "store_typed (sy_store s)"
  by (rule reachable_typed [OF wired_arrays [OF assms(1,2)] assms(3)])

section \<open>Every value of a type has a text\<close>

named_theorems plain_intro

lemma show_dec_head: "0 < n \<Longrightarrow> show_dec n ! 0 \<noteq> CHR ''0''"
proof (induction n rule: show_dec.induct)
  case (1 n)
  have "char_of (48 + n) \<noteq> CHR ''0''" if "n < 10"
  proof
    assume "char_of (48 + n) = CHR ''0''"
    then have "(of_char (char_of (48 + n) :: char) :: nat) = 48" by simp
    with of_char_digit [OF that] 1(2) show False by simp
  qed
  with 1 show ?case
    using show_dec_decimal [of "n div 10"] by (subst show_dec.simps) (auto simp: nth_append)
qed

lemma plain_word [plain_intro]: "json_plain d (word_ser w)"
  using show_dec_decimal [of "unat w"] show_dec_head [of "unat w"] show_dec.simps [of 0]
  by (cases "unat w = 0") (auto simp: word_ser_def)

lemma plain_bytes [plain_intro]: "json_plain (Suc d) (bytes_ser b)"
  by (simp add: bytes_ser_def seq_ser_def list_all_iff plain_word)

lemma utf8_small: "list_all (\<lambda>c. of_char c < (128 :: nat)) s \<Longrightarrow> utf8_ok (ascii s)"
proof (induction s)
  case (Cons c s)
  have "unat (of_nat (of_char c) :: u8) = of_char c"
    using nat_of_char_less_256 [of c] by (simp add: unat_of_nat)
  then have "unat (of_char c :: u8) = of_char c" by (simp only: of_nat_of_char)
  with Cons.prems have "unat (of_char c :: u8) < 128" by simp
  then have "(of_char c :: u8) < 0x80" by (simp add: word_less_nat_alt)
  with Cons show ?case by (simp add: ascii_def)
qed (simp add: ascii_def)

lemma plain_b64 [plain_intro]: "base64_ascii C \<Longrightarrow> json_plain d (b64_ser C b)"
  by (simp add: b64_ser_def base64_ascii_def utf8_small)

lemma plain_b64s [plain_intro]: "base64_ascii C \<Longrightarrow> json_plain (Suc d) (b64s_ser C bs)"
  by (simp add: b64s_ser_def seq_ser_def list_all_iff base64_ascii_def utf8_small [unfolded list_all_iff])

lemma plain_exec:
  assumes "base64_ascii C"
  shows "json_plain 4 (ExecRequest_ser C q)" and "json_plain 4 (HostExecRequest_ser C h)" and "json_plain 4 (ExecResponse_ser C r)"
    and "json_plain 4 (IssueRequest_ser C i)" and "json_plain 4 (TrialRegisterRequest_ser C t)"
    and "json_plain 4 (RedeemRequest_ser C d)" and "json_plain 4 (TunnelFrame_ser C f)"
  using assms
  by (simp_all add: numeral_eq_Suc plain_intro ExecRequest_ser_def HostExecRequest_ser_def ExecResponse_ser_def IssueRequest_ser_def
      IssueRequestBody_ser_def TrialRegisterRequest_ser_def TrialRegisterBody_ser_def RedeemRequest_ser_def
      TunnelFrame_ser_def utf8_small split: TunnelFrame.split)

section \<open>A sample text syntax\<close>

text \<open>
  A tagged prefix code with unary lists, only to show that the laws can hold; the
  sample base64 engine writes hexadecimal digits.
\<close>

definition demo_str :: "string \<Rightarrow> bytes" where
  "demo_str s = concat (map (\<lambda>c. [1, of_char c]) s) @ [0]"

fun demo_print :: "json \<Rightarrow> bytes" where
  "demo_print JNull = [0]"
| "demo_print (JBool b) = [if b then 2 else 1]"
| "demo_print (JNumber s) = 3 # demo_str s"
| "demo_print (JString s) = 4 # demo_str s"
| "demo_print (JArray xs) = 5 # concat (map (\<lambda>x. 1 # demo_print x) xs) @ [0]"
| "demo_print (JObject kvs) = 6 # concat (map (\<lambda>(k, x). 1 # demo_str k @ demo_print x) kvs) @ [0]"

fun demo_unstr :: "bytes \<Rightarrow> (string \<times> bytes) option" where
  "demo_unstr [] = None"
| "demo_unstr (b # r) =
     (if b = 0 then Some ([], r)
      else case r of [] \<Rightarrow> None | c # r' \<Rightarrow> map_option (map_prod ((#) (char_of (unat c))) id) (demo_unstr r'))"

fun demo_read :: "nat \<Rightarrow> bytes \<Rightarrow> (json \<times> bytes) option"
and demo_reads :: "nat \<Rightarrow> bytes \<Rightarrow> (json list \<times> bytes) option"
and demo_pairs :: "nat \<Rightarrow> bytes \<Rightarrow> ((string \<times> json) list \<times> bytes) option" where
  "demo_read n b = (case (n, b) of (Suc m, t # r) \<Rightarrow>
       if t = 0 then Some (JNull, r) else if t = 1 then Some (JBool False, r) else if t = 2 then Some (JBool True, r)
       else if t = 3 then map_option (map_prod JNumber id) (demo_unstr r)
       else if t = 4 then map_option (map_prod JString id) (demo_unstr r)
       else if t = 5 then map_option (map_prod JArray id) (demo_reads m r)
       else map_option (map_prod JObject id) (demo_pairs m r)
     | _ \<Rightarrow> None)"
| "demo_reads n b = (case (n, b) of (Suc m, t # r) \<Rightarrow>
       if t = 0 then Some ([], r)
       else do { (x, r) \<leftarrow> demo_read m r; (xs, r) \<leftarrow> demo_reads m r; Some (x # xs, r) }
     | _ \<Rightarrow> None)"
| "demo_pairs n b = (case (n, b) of (Suc m, t # r) \<Rightarrow>
       if t = 0 then Some ([], r)
       else do { (k, r) \<leftarrow> demo_unstr r; (x, r) \<leftarrow> demo_read m r; (xs, r) \<leftarrow> demo_pairs m r; Some ((k, x) # xs, r) }
     | _ \<Rightarrow> None)"

declare demo_read.simps [simp del] demo_reads.simps [simp del] demo_pairs.simps [simp del]

definition demo_text :: json_text where
  "demo_text = \<lparr>jt_print = demo_print,
     jt_parse = (\<lambda>b. case demo_read (length b) b of Some (v, []) \<Rightarrow> Some v | _ \<Rightarrow> None)\<rparr>"

definition demo_hex :: base64 where
  "demo_hex = \<lparr>be_encode = hex, be_decode = (\<lambda>s. case hex_pairs s of Inr b \<Rightarrow> Some b | Inl _ \<Rightarrow> None)\<rparr>"

lemma demo_unstr: "demo_unstr (demo_str s @ r) = Some (s, r)"
  by (induction s) (simp_all add: demo_str_def)

lemma demo_reads_print:
  assumes "\<And>x n r. x \<in> set xs \<Longrightarrow> length (demo_print x) \<le> n \<Longrightarrow> demo_read n (demo_print x @ r) = Some (x, r)"
  shows "length (concat (map (\<lambda>x. 1 # demo_print x) xs)) < n \<Longrightarrow>
    demo_reads n (concat (map (\<lambda>x. 1 # demo_print x) xs) @ 0 # r) = Some (xs, r)"
  using assms
proof (induction xs arbitrary: n)
  case (Cons x xs)
  then obtain m where "n = Suc m" by (cases n) auto
  with Cons show ?case by (simp add: demo_reads.simps [of "Suc m"])
qed (auto simp: demo_reads.simps gr0_conv_Suc)

lemma demo_pairs_print:
  assumes "\<And>k x n r. (k, x) \<in> set kvs \<Longrightarrow> length (demo_print x) \<le> n \<Longrightarrow> demo_read n (demo_print x @ r) = Some (x, r)"
  shows "length (concat (map (\<lambda>(k, x). 1 # demo_str k @ demo_print x) kvs)) < n \<Longrightarrow>
    demo_pairs n (concat (map (\<lambda>(k, x). 1 # demo_str k @ demo_print x) kvs) @ 0 # r) = Some (kvs, r)"
  using assms
proof (induction kvs arbitrary: n)
  case (Cons kx kvs)
  then obtain m k x where n: "n = Suc m" and kx: "kx = (k, x)" by (cases n; cases kx) auto
  have "demo_read m (demo_print x @ q) = Some (x, q)" for q
    by (rule Cons.prems(2) [of k]) (use Cons.prems(1) in \<open>simp_all add: n kx\<close>)
  moreover have "demo_pairs m (concat (map (\<lambda>(k, x). 1 # demo_str k @ demo_print x) kvs) @ 0 # r) = Some (kvs, r)"
    by (rule Cons.IH) (use Cons.prems in \<open>auto simp: n kx\<close>)
  ultimately show ?case by (simp add: n kx demo_pairs.simps [of "Suc m"] demo_unstr)
qed (auto simp: demo_pairs.simps gr0_conv_Suc)

lemma demo_read_print: "length (demo_print v) \<le> n \<Longrightarrow> demo_read n (demo_print v @ r) = Some (v, r)"
proof (induction v arbitrary: n r rule: demo_print.induct)
  case (5 xs)
  then obtain m where "n = Suc m" by (cases n) auto
  with 5 show ?case by (simp add: demo_read.simps [of "Suc m"] demo_reads_print)
next
  case (6 kvs)
  then obtain m where "n = Suc m" by (cases n) auto
  with 6 show ?case by (simp add: demo_read.simps [of "Suc m"] demo_pairs_print)
qed (auto simp: demo_read.simps demo_unstr Suc_le_eq gr0_conv_Suc split: nat.splits)

lemma demo_text_correct: "text_correct demo_text"
  using demo_read_print [OF order_refl, where r = "[]"] by (simp add: text_correct_def demo_text_def)

lemma demo_hex_correct: "base64_correct demo_hex" "base64_ascii demo_hex"
proof -
  show "base64_correct demo_hex" by (simp add: base64_correct_def demo_hex_def hex_pairs_hex)
  have "list_all (\<lambda>c. of_char c < (128 :: nat)) (hex b)" for b
    using hex_digit_plain(2) unat_nibbles by (induction b) (auto simp: hex_Cons hex_def [of "[]"])
  then show "base64_ascii demo_hex" by (simp add: base64_ascii_def demo_hex_def)
qed

section \<open>The parties understand each other\<close>

text \<open>
  C14: With serde\_json reading back what it writes and base64 decoding what it
  encodes to ASCII, the codecs of the parties fit: the laws the round trip of a
  request assumes hold, and every exec request, job, answer, tunnel frame, issue,
  redeem and trial request whose arrays have their declared length is written as
  some text, which the party at the other end reads as the same message.
\<close>

theorem wire_codecs_fit:
  assumes "text_correct T" and "base64_correct C" and "base64_ascii C"
  shows "exec_codecs_agree (client_wired T C X) (broker_wired T C B) (host_wired T C J) \<and> frames_agree (frames_wired T C)
    \<and> (\<forall>q. ExecRequest_fixed q \<longrightarrow>
         (\<exists>b. cx_json_exec (client_wired T C X) q = Some b \<and> bx_parse_exec (broker_wired T C B) b = Some q))
    \<and> (\<forall>q. HostExecRequest_fixed q \<longrightarrow>
         (\<exists>b. bx_json_host_exec (broker_wired T C B) q = Some b \<and> hj_parse_exec (host_wired T C J) b = Some q))
    \<and> (\<forall>q. \<exists>b. hj_exec_response (host_wired T C J) q = Some b \<and> cx_parse_exec_response (client_wired T C X) b = Some q)
    \<and> (\<forall>f. TunnelFrame_fixed f \<longrightarrow>
         (\<exists>b. fj_to_string (frames_wired T C) f = Some b \<and> fj_from_str (frames_wired T C) b = Some f))
    \<and> (\<forall>q. IssueRequest_fixed q \<longrightarrow>
         (\<exists>b. cx_json_issue (client_wired T C X) q = Some b \<and> ix_parse_issue (issuer_wired T C I) b = Some q))
    \<and> (\<forall>q. RedeemRequest_fixed q \<longrightarrow>
         (\<exists>b. ic_json_redeem (issuer_client_wired T C K) q = Some b \<and> ix_parse_redeem (issuer_wired T C I) b = Some q))
    \<and> (\<forall>q. TrialRegisterRequest_fixed q \<longrightarrow>
         (\<exists>b. cx_json_trial (client_wired T C X) q = Some b \<and> bx_parse_trial (broker_wired T C B) b = Some q))"
proof -
  note reads = to_vec_reads_back [OF _ assms(1)] and trip = text_trip [OF _ assms(1)] and plain = plain_exec [OF assms(3)]
  have "exec_codecs_agree (client_wired T C X) (broker_wired T C B) (host_wired T C J)"
    using reads [OF ExecRequest_codec] reads [OF HostExecRequest_codec] reads [OF ExecResponse_codec] assms(2)
    by (simp add: exec_codecs_agree_def wired_defs)
  moreover have "frames_agree (frames_wired T C)"
    using reads [OF TunnelFrame_codec] assms(2) by (simp add: frames_agree_def wired_defs)
  ultimately show ?thesis
    using trip [OF ExecRequest_codec _ plain(1)] trip [OF HostExecRequest_codec _ plain(2)] trip [OF ExecResponse_codec _ plain(3)]
      trip [OF IssueRequest_codec _ plain(4)] trip [OF TrialRegisterRequest_codec _ plain(5)]
      trip [OF RedeemRequest_codec _ plain(6)] trip [OF TunnelFrame_codec _ plain(7)] assms(2)
    by (simp add: wired_defs)
qed

definition demo_wire_request :: ExecRequest where
  "demo_wire_request = \<lparr>ex_key_id = replicate 32 7, ex_host_account = replicate 32 4, ex_token = [1, 2], ex_sealed = [3]\<rparr>"

theorem wire_codecs_fit_witness:
  "exec_codecs_agree (client_wired demo_text demo_hex demo_client_ext) (broker_wired demo_text demo_hex demo_path_ext)
     (host_wired demo_text demo_hex demo_host_json)
   \<and> bx_parse_exec (broker_wired demo_text demo_hex demo_path_ext)
       (the (cx_json_exec (client_wired demo_text demo_hex demo_client_ext) demo_wire_request)) = Some demo_wire_request"
proof -
  have fixed: "ExecRequest_fixed demo_wire_request" by (simp add: ExecRequest_fixed_def demo_wire_request_def id32_def)
  note fit = wire_codecs_fit [OF demo_text_correct demo_hex_correct, of demo_client_ext demo_path_ext demo_host_json]
  show ?thesis using conjunct1 [OF fit] conjunct1 [OF conjunct2 [OF conjunct2 [OF fit]]] fixed by fastforce
qed

end
