(* ===== verification/Tunnel_Session.thy ===== *)
theory Tunnel_Session
  imports Broker_Tunnel
begin

text \<open>
  The life of one tunnel connection on the broker's side (\<open>handle_socket\<close> of
  \<open>tunnel.rs\<close>): the handshake under a permit and a deadline, the registration,
  the writer task with its pings, the reader loop, and the teardown. The two tasks
  share the missed-pong counter and interleave: each event below is one turn of
  one of their \<open>select!\<close> loops.
\<close>

section \<open>The connection\<close>

record conn =
  cn_account :: bytes
  cn_sock :: nat
  cn_missed :: u8
  cn_writing :: bool

text \<open>
  Up to the confirmation. \<open>timed_out\<close> is the hard deadline on the handshake,
  \<open>ack_ok\<close> whether the \<open>AuthOk\<close> frame could be sent; \<open>a\<close> is the cell of
  the new socket. Nothing distinguishes the failures to the peer.
\<close>

definition conn_start ::
  "prims \<Rightarrow> (bytes \<Rightarrow> TunnelFrame option) \<Rightarrow> faults \<Rightarrow> bytes \<Rightarrow> bytes \<Rightarrow> bool \<Rightarrow> bool \<Rightarrow> bool \<Rightarrow> nat \<Rightarrow> ws_message list \<Rightarrow>
   store \<Rightarrow> TunnelRegistry \<Rightarrow> conn option \<times> TunnelRegistry" where
  "conn_start P json flt registry_pk challenge send_ok timed_out ack_ok a msgs st T =
     (case (if timed_out then None else handshake P json flt registry_pk challenge send_ok msgs st) of
        None \<Rightarrow> (None, T)
      | Some host_account \<Rightarrow>
          (case open_socket host_account a T of
             (False, T1) \<Rightarrow> (None, T1)
           | (True, T1) \<Rightarrow>
               if \<not> ack_ok then (None, close_socket host_account a T1)
               else (Some \<lparr>cn_account = host_account, cn_sock = a, cn_missed = 0, cn_writing = True\<rparr>, T1)))"

text \<open>
  \<open>Inbound\<close> is the reader taking the next message; \<open>QueueSend\<close> and
  \<open>PingTick\<close> are the writer with whether its send succeeded; \<open>WriterGone\<close>
  is the reader noticing that the writer task has ended.
\<close>

datatype conn_event = Inbound ws_message | QueueSend bool | PingTick bool | WriterGone

definition writer_ends :: "conn \<Rightarrow> TunnelRegistry \<Rightarrow> conn \<times> TunnelRegistry" where
  "writer_ends c T = (c\<lparr>cn_writing := False\<rparr>, upd_sock (cn_sock c) (\<lambda>s. s\<lparr>hs_closed := True\<rparr>) T)"

definition on_queue :: "bool \<Rightarrow> conn \<Rightarrow> TunnelRegistry \<Rightarrow> conn \<times> TunnelRegistry" where
  "on_queue sent c T =
     (if \<not> cn_writing c \<or> (case tg_heap T (cn_sock c) of None \<Rightarrow> True | Some s \<Rightarrow> hs_jobs s = []) then (c, T)
      else let T1 = upd_sock (cn_sock c) (\<lambda>s. s\<lparr>hs_jobs := tl (hs_jobs s)\<rparr>) T in
           if sent then (c, T1) else writer_ends c T1)"

definition on_tick :: "bool \<Rightarrow> conn \<Rightarrow> TunnelRegistry \<Rightarrow> conn \<times> TunnelRegistry" where
  "on_tick sent c T =
     (if \<not> cn_writing c then (c, T)
      else let (alive, missed) = ping_tick (cn_missed c); c1 = c\<lparr>cn_missed := missed\<rparr> in
           if \<not> alive \<or> \<not> sent then writer_ends c1 T else (c1, T))"

text \<open>One message in the reader loop; \<open>None\<close> leaves the loop.\<close>

definition on_message ::
  "(bytes \<Rightarrow> TunnelFrame option) \<Rightarrow> ws_message \<Rightarrow> conn \<Rightarrow> TunnelRegistry \<Rightarrow> conn option \<times> TunnelRegistry" where
  "on_message json m c T =
     (let c1 = c\<lparr>cn_missed := 0\<rparr> in
      case m of
        RecvError \<Rightarrow> (None, T)
      | Text s \<Rightarrow>
          if length s > MAX_FRAME_BYTES then (None, T)
          else (case json s of None \<Rightarrow> (Some c1, T) | Some f \<Rightarrow> (Some c1, on_text_frame (cn_sock c) f T))
      | Close \<Rightarrow> (None, T)
      | _ \<Rightarrow> (Some c1, T))"

text \<open>One turn; a connection whose reader leaves its loop is torn down.\<close>

definition conn_step ::
  "(bytes \<Rightarrow> TunnelFrame option) \<Rightarrow> conn_event \<Rightarrow> conn \<Rightarrow> TunnelRegistry \<Rightarrow> conn option \<times> TunnelRegistry" where
  "conn_step json e c T =
     (case (case e of
              Inbound m \<Rightarrow> on_message json m c T
            | QueueSend sent \<Rightarrow> (case on_queue sent c T of (c', T') \<Rightarrow> (Some c', T'))
            | PingTick sent \<Rightarrow> (case on_tick sent c T of (c', T') \<Rightarrow> (Some c', T'))
            | WriterGone \<Rightarrow> (if cn_writing c then Some c else None, T)) of
        (Some c', T') \<Rightarrow> (Some c', T')
      | (None, T') \<Rightarrow> (None, close_socket (cn_account c) (cn_sock c) T'))"

fun conn_run ::
  "(bytes \<Rightarrow> TunnelFrame option) \<Rightarrow> conn_event list \<Rightarrow> conn \<Rightarrow> TunnelRegistry \<Rightarrow> conn option \<times> TunnelRegistry" where
  "conn_run json [] c T = (Some c, T)"
| "conn_run json (e # es) c T =
     (case conn_step json e c T of (None, T') \<Rightarrow> (None, T') | (Some c', T') \<Rightarrow> conn_run json es c' T')"

section \<open>Facts\<close>

text \<open>The writer's turns keep the socket registered, its waiters waiting, and what the connection is about.\<close>

definition kept :: "conn \<Rightarrow> TunnelRegistry \<Rightarrow> conn \<Rightarrow> TunnelRegistry \<Rightarrow> bool" where
  "kept c T c' T' \<longleftrightarrow> cn_account c' = cn_account c \<and> cn_sock c' = cn_sock c
     \<and> tg_sockets T' = tg_sockets T \<and> tg_oneshots T' = tg_oneshots T
     \<and> map_option hs_pending (tg_heap T' (cn_sock c)) = map_option hs_pending (tg_heap T (cn_sock c))
     \<and> map_option hs_generation (tg_heap T' (cn_sock c)) = map_option hs_generation (tg_heap T (cn_sock c))"

lemma kept_refl [simp]: "kept c T c T"
  by (simp add: kept_def)

lemma kept_trans: "kept c T c' T' \<Longrightarrow> kept c' T' c'' T'' \<Longrightarrow> kept c T c'' T''"
  by (simp add: kept_def)

lemma kept_writer:
  "writer_ends c T = (c', T') \<Longrightarrow> kept c T c' T' \<and> \<not> cn_writing c'"
  "on_queue sent c T = (c', T') \<Longrightarrow> kept c T c' T' \<and> cn_missed c' = cn_missed c \<and> (cn_writing c' \<longrightarrow> cn_writing c)"
  "on_tick sent c T = (c', T') \<Longrightarrow> kept c T c' T' \<and> (cn_writing c' \<longrightarrow>
     cn_writing c \<and> cn_missed c < MAX_MISSED_PONGS \<and> cn_missed c' = cn_missed c + 1)"
  by (auto simp: kept_def writer_ends_def on_queue_def on_tick_def ping_tick_def upd_sock_def Let_def split: option.splits if_splits)

fun is_tick :: "conn_event \<Rightarrow> bool" where
  "is_tick (PingTick _) = True"
| "is_tick _ = False"

fun is_inbound :: "conn_event \<Rightarrow> bool" where
  "is_inbound (Inbound _) = True"
| "is_inbound _ = False"

lemma teardown:
  assumes "tg_heap T a = Some s" and "map_of (tg_sockets T) account = Some a"
  shows "tunnel_get account (close_socket account a T) = None
    \<and> (\<forall>w\<in>ran (hs_pending s). tg_oneshots T w = Some Waiting \<longrightarrow> tg_oneshots (close_socket account a T) w = Some Dropped)
    \<and> (\<forall>s'. tg_heap (close_socket account a T) a = Some s' \<longrightarrow> hs_pending s' = Map.empty)"
  using assms
  by (simp add: close_socket_def upd_sock_def remove_if_current_def fail_all_pending_def tunnel_get_def delete_conv')

text \<open>
  While nothing comes in, each tick costs a missed pong, and once the writer has
  ended the next notice tears the connection down.
\<close>

definition torn_down :: "conn \<Rightarrow> HostSocket \<Rightarrow> TunnelRegistry \<Rightarrow> TunnelRegistry \<Rightarrow> bool" where
  "torn_down c s T T' \<longleftrightarrow> tunnel_get (cn_account c) T' = None
     \<and> (\<forall>w\<in>ran (hs_pending s). tg_oneshots T w = Some Waiting \<longrightarrow> tg_oneshots T' w = Some Dropped)"

lemma silent_step:
  assumes "\<not> is_inbound e" and "conn_step json e c T = (r, T')"
    and "tg_heap T (cn_sock c) = Some s" and "map_of (tg_sockets T) (cn_account c) = Some (cn_sock c)"
  shows "(r = None \<longrightarrow> \<not> cn_writing c \<and> torn_down c s T T')
    \<and> (\<forall>c'. r = Some c' \<longrightarrow> kept c T c' T' \<and> (e = WriterGone \<longrightarrow> cn_writing c)
         \<and> (cn_writing c' \<longrightarrow> cn_writing c \<and> (if is_tick e then unat (cn_missed c) < 2 \<and> unat (cn_missed c') = Suc (unat (cn_missed c))
              else cn_missed c' = cn_missed c)))"
proof (cases e)
  case (QueueSend sent)
  then show ?thesis
    using assms(2) kept_writer(2) [of sent c T] by (cases "on_queue sent c T") (auto simp: conn_step_def)
next
  case (PingTick sent)
  have "unat (m + 1) = Suc (unat m) \<and> unat m < 2" if "m < MAX_MISSED_PONGS" for m :: u8
    using that by (simp add: MAX_MISSED_PONGS_def word_less_nat_alt unat_word_ariths)
  then show ?thesis
    using PingTick assms(2) kept_writer(3) [of sent c T] by (cases "on_tick sent c T") (auto simp: conn_step_def)
next
  case WriterGone
  then show ?thesis
    using assms(2) teardown [OF assms(3,4)] by (auto simp: conn_step_def torn_down_def split: if_splits)
qed (use assms(1) in simp)

lemma kept_socket:
  assumes "kept c T c' T'" and "tg_heap T (cn_sock c) = Some s" and "map_of (tg_sockets T) (cn_account c) = Some (cn_sock c)"
  obtains s' where "tg_heap T' (cn_sock c') = Some s'" and "map_of (tg_sockets T') (cn_account c') = Some (cn_sock c')"
    and "\<And>T''. torn_down c' s' T' T'' \<longleftrightarrow> torn_down c s T T''"
  using assms by (auto simp: kept_def torn_down_def)

lemma silent_run:
  assumes "list_all (\<lambda>e. \<not> is_inbound e) es" and "conn_run json es c T = (r, T')"
    and "tg_heap T (cn_sock c) = Some s" and "map_of (tg_sockets T) (cn_account c) = Some (cn_sock c)"
  shows "(r = None \<longrightarrow> torn_down c s T T')
    \<and> (\<forall>c'. r = Some c' \<longrightarrow> kept c T c' T' \<and> (cn_writing c' \<longrightarrow> cn_writing c
         \<and> (length (filter is_tick es) = 0 \<or> unat (cn_missed c) + length (filter is_tick es) \<le> 2)))"
  using assms
proof (induction es arbitrary: c T s)
  case (Cons e es)
  obtain r1 T1 where one: "conn_step json e c T = (r1, T1)" by fastforce
  have e: "\<not> is_inbound e" using Cons.prems(1) by simp
  note step = silent_step [OF e one Cons.prems(3,4)]
  show ?case
  proof (cases r1)
    case None
    then show ?thesis using step one Cons.prems(2) by simp
  next
    case (Some c1)
    then have k: "kept c T c1 T1" and w: "cn_writing c1 \<Longrightarrow> cn_writing c \<and> (if is_tick e
        then unat (cn_missed c) < 2 \<and> unat (cn_missed c1) = Suc (unat (cn_missed c)) else cn_missed c1 = cn_missed c)"
      using step by blast+
    obtain s1 where s1: "tg_heap T1 (cn_sock c1) = Some s1" "map_of (tg_sockets T1) (cn_account c1) = Some (cn_sock c1)"
        "\<And>T''. torn_down c1 s1 T1 T'' \<longleftrightarrow> torn_down c s T T''"
      using kept_socket [OF k Cons.prems(3,4)] by blast
    have run: "conn_run json es c1 T1 = (r, T')" and es: "list_all (\<lambda>e. \<not> is_inbound e) es"
      using Cons.prems(1,2) one Some by simp_all
    from Cons.IH [OF es run s1(1,2)] show ?thesis
      using k kept_trans [OF k] w s1(3) by (auto split: if_splits)
  qed
qed auto

lemma conn_run_append:
  "conn_run json (es @ fs) c T =
     (case conn_run json es c T of (None, T') \<Rightarrow> (None, T') | (Some c', T') \<Rightarrow> conn_run json fs c' T')"
  by (induction es arbitrary: c T) (auto split: prod.splits option.splits)

text \<open>A host that answers every ping keeps its connection.\<close>

lemma answering_run:
  assumes "list_all (\<lambda>m. m \<in> {Ping, Pong, Binary}) ms" and "cn_writing c" and "cn_missed c = 0"
  shows "conn_run json (concat (map (\<lambda>m. [PingTick True, Inbound m]) ms)) c T = (Some c, T)"
  using assms
proof (induction ms)
  case (Cons m ms)
  have "conn_step json (PingTick True) c T = (Some (c\<lparr>cn_missed := 1\<rparr>), T)"
    using Cons.prems by (simp add: conn_step_def on_tick_def ping_tick_def MAX_MISSED_PONGS_def)
  moreover have "conn_step json (Inbound m) (c\<lparr>cn_missed := 1\<rparr>) T = (Some c, T)"
    using Cons.prems by (cases m) (auto simp: conn_step_def on_message_def)
  ultimately show ?case using Cons by simp
qed simp

text \<open>The teardown of a replaced connection leaves its successor alone.\<close>

lemma reconnect_survives_teardown:
  assumes "tg_heap T a = Some s" and "b \<noteq> a" and "hs_generation s \<noteq> tg_next_generation T"
    and "open_socket account b T = (True, T1)"
  shows "tunnel_get account (close_socket account a T1) = Some b
    \<and> tg_heap (close_socket account a T1) b = tg_heap T1 b"
proof -
  have h: "map_of (tg_sockets T1) account = Some b" "map_option hs_generation (tg_heap T1 b) = Some (tg_next_generation T)"
      "map_option hs_generation (tg_heap T1 a) = Some (hs_generation s)"
    using assms
    by (auto simp: open_socket_def next_generation_def tunnel_insert_def fail_all_pending_def upd_sock_def update_conv' Let_def
      split: if_splits option.splits)
  then show ?thesis
    using assms(2,3) by (auto simp: close_socket_def upd_sock_def remove_if_current_def fail_all_pending_def tunnel_get_def
      split: option.splits)
qed

text \<open>A connection that was confirmed is the one in the directory, and its turns keep the capacity invariant.\<close>

lemma conn_start_registers:
  assumes "conn_start P json flt registry_pk challenge send_ok timed_out ack_ok a msgs st T = (Some c, T1)"
  shows "\<not> timed_out \<and> handshake P json flt registry_pk challenge send_ok msgs st = Some (cn_account c)
    \<and> tunnel_get (cn_account c) T1 = Some (cn_sock c) \<and> tg_heap T1 (cn_sock c) \<noteq> None \<and> cn_writing c \<and> cn_missed c = 0"
proof -
  obtain acct where h: "\<not> timed_out" "handshake P json flt registry_pk challenge send_ok msgs st = Some acct"
      "open_socket acct a T = (True, T1)" "c = \<lparr>cn_account = acct, cn_sock = a, cn_missed = 0, cn_writing = True\<rparr>"
    using assms by (auto simp: conn_start_def split: option.splits prod.splits bool.splits if_splits)
  then have "tunnel_get acct T1 = Some a \<and> tg_heap T1 a \<noteq> None"
    by (auto simp: open_socket_def next_generation_def tunnel_insert_def tunnel_get_def fail_all_pending_def upd_sock_def
      update_conv' Let_def split: if_splits option.splits)
  with h show ?thesis by simp
qed

lemma same_load_message: "same_load T (snd (on_message json m c T))"
  by (auto simp: on_message_def Let_def same_load_frame split: ws_message.splits option.splits)

lemma same_load_writer:
  "same_load T (snd (writer_ends c T))" "same_load T (snd (on_queue sent c T))" "same_load T (snd (on_tick sent c T))"
proof -
  show w: "same_load T (snd (writer_ends c T))" for c T by (simp add: writer_ends_def same_load_upd)
  have "same_load T (upd_sock (cn_sock c) (\<lambda>s. s\<lparr>hs_jobs := tl (hs_jobs s)\<rparr>) T)" by (rule same_load_upd) simp
  then show "same_load T (snd (on_queue sent c T))"
    using same_load_trans [OF _ w] by (auto simp: on_queue_def Let_def)
  show "same_load T (snd (on_tick sent c T))" by (auto simp: on_tick_def Let_def w split: prod.splits)
qed

lemma conn_step_inv:
  assumes "tunnel_inv (T, gs)"
  shows "tunnel_inv (snd (conn_step json e c T), gs)"
proof -
  have "same_load T T' \<Longrightarrow> tunnel_inv (T', gs) \<and> tunnel_inv (close_socket acct a T', gs)" for T' acct a
    using tunnel_inv_same_load [OF assms] tunnel_inv_close by blast
  then show ?thesis
    using same_load_message [of T json _ c] same_load_writer(2,3) [of T _ c]
    by (cases e) (auto simp: conn_step_def split: prod.splits option.splits, (metis snd_conv)+)
qed

section \<open>Properties\<close>



end
