(* ===== verification/Desktop_Client.thy ===== *)
theory Desktop_Client
  imports Operator_Tools
begin

text \<open>
  The consumer side of the desktop application
  (\<open>apps/lluma-desktop/src-tauri/src\<close>): the shared types (\<open>types.rs\<close>), the
  compiled-in anchor (\<open>anchor.rs\<close>), settings (\<open>settings.rs\<close>), the sealed
  account (\<open>account.rs\<close>) and the token store, acquisition, trial and chat flows
  (\<open>client.rs\<close>). The application directory is a map from file names to
  contents; error texts are constructors.
\<close>

section \<open>Types (types.rs)\<close>

datatype UpstreamKind = OpenAi | Echo | Local

record HostConfig =
  hc_upstream :: UpstreamKind
  hc_ingress_addr :: string
  hc_openai_base :: string
  hc_openai_model :: string
  hc_openai_api_key :: string
  hc_broker_ingress :: string
  hc_epoch_salt_b64 :: string
  hc_pow_difficulty :: u32
  hc_model_id :: string
  hc_ollama_model :: string

record Settings =
  st_relay_url :: string
  st_gateway_kc_b64 :: string
  st_registry_pk_b64 :: string
  st_issuer_key_id_hex :: string
  st_host :: HostConfig
  st_ollama_install_consent :: bool

datatype net_message = Connected | Unreachable ClientError | NotConnectedMsg

record NetworkStatus =
  ns_reachable :: bool
  ns_epoch :: u64
  ns_denomination :: u64
  ns_latency_ms :: u64
  ns_message :: net_message

record AccountStatus =
  acs_has_account :: bool
  acs_unlocked :: bool
  acs_account_id_hex :: string
  acs_balance :: nat

record ChatReply =
  cr_answer :: bytes
  cr_spent :: nat
  cr_balance :: nat

record NewAccount =
  na_account_id_hex :: string
  na_recovery_phrase :: string

datatype app_error =
  EmptyPassphrase | WrongPassphrase | CryptoFailure CryptoError | Io | EncodeFailure
| NotSet string | NotBase64 string | UnlockFirst | NotConnected | CountZero
| KeyConfigFailed ClientError | AcquireFailed ClientError | TrialNotOffered | TrialUnavailable | TrialFailed ClientError
| NoCredits | ConnectCheckFailed ClientError | DiscoveryFailed ClientError | NoActiveHosts | SpentUndelivered
| NoHostServed "(nat \<times> ClientError) option" | AutoConnectFailed ClientError

text \<open>The third-party code the application calls.\<close>

record ('cs, 'cr) desktop_ext =
  dx_client :: "('cs, 'cr) client_ext"
  dx_seed :: seed_prims
  dx_b64_encode :: "bytes \<Rightarrow> string"
  dx_b64_decode :: "string \<Rightarrow> bytes option"
  dx_settings_json :: "Settings \<Rightarrow> bytes option"
  dx_settings_parse :: "bytes \<Rightarrow> Settings option"
  dx_tokens_enc :: "Token list \<Rightarrow> bytes option"
  dx_tokens_dec :: "bytes \<Rightarrow> Token list option"

abbreviation dx_prims :: "('cs, 'cr) desktop_ext \<Rightarrow> prims" where
  "dx_prims X \<equiv> cx_prims (dx_client X)"

text \<open>The application directory, and which of its calls fail during a command.\<close>

type_synonym disk = "string \<rightharpoonup> bytes"

record disk_faults =
  df_read :: "string \<Rightarrow> bool"
  df_mkdir :: bool
  df_write :: "string \<Rightarrow> wfault"

definition disk_read :: "disk_faults \<Rightarrow> string \<Rightarrow> disk \<Rightarrow> bytes option" where
  "disk_read F name d = (if df_read F name then None else d name)"

text \<open>\<open>create_dir_all\<close> followed by \<open>fs::write\<close>.\<close>

definition disk_save :: "disk_faults \<Rightarrow> string \<Rightarrow> bytes \<Rightarrow> disk \<Rightarrow> (app_error + unit) \<times> disk" where
  "disk_save F name b d =
     (if df_mkdir F then (Inl Io, d)
      else let (written, d') = fs_write (df_write F name) name b d in (if written then Inr () else Inl Io, d'))"

definition disk_ok :: disk_faults where
  "disk_ok = \<lparr>df_read = (\<lambda>_. False), df_mkdir = False, df_write = (\<lambda>_. WOk)\<rparr>"

section \<open>The anchor (anchor.rs)\<close>

text \<open>\<open>pinned\<close> is the build-time variable \<open>LLUMA_REGISTRY_PK_B64\<close>.\<close>

definition pinned_registry_pk :: "('cs, 'cr) desktop_ext \<Rightarrow> string option \<Rightarrow> AccountPublicKey option" where
  "pinned_registry_pk X pinned =
     Option.bind pinned (\<lambda>s.
       let b64 = trim s in
       if b64 = [] then None
       else Option.bind (dx_b64_decode X b64) (\<lambda>bytes. if length bytes \<noteq> 32 then None else Some bytes))"

definition has_anchor :: "('cs, 'cr) desktop_ext \<Rightarrow> string option \<Rightarrow> bool" where
  "has_anchor X pinned \<longleftrightarrow> pinned_registry_pk X pinned \<noteq> None"

section \<open>Settings (settings.rs)\<close>

definition DEFAULT_RELAY_URL :: string where
  "DEFAULT_RELAY_URL = ''https://relay.n.lluma.bodegga.net''"

definition HostConfig_default :: HostConfig where
  "HostConfig_default = \<lparr>hc_upstream = OpenAi, hc_ingress_addr = [], hc_openai_base = [], hc_openai_model = [],
     hc_openai_api_key = [], hc_broker_ingress = [], hc_epoch_salt_b64 = [], hc_pow_difficulty = 0, hc_model_id = [],
     hc_ollama_model = []\<rparr>"

definition Settings_default :: Settings where
  "Settings_default = \<lparr>st_relay_url = DEFAULT_RELAY_URL, st_gateway_kc_b64 = [], st_registry_pk_b64 = [],
     st_issuer_key_id_hex = [], st_host = HostConfig_default, st_ollama_install_consent = False\<rparr>"

definition Settings_load :: "('cs, 'cr) desktop_ext \<Rightarrow> disk_faults \<Rightarrow> disk \<Rightarrow> Settings" where
  "Settings_load X F d =
     (case Option.bind (disk_read F ''settings.json'' d) (dx_settings_parse X) of
        None \<Rightarrow> Settings_default | Some s \<Rightarrow> s)"

definition Settings_save :: "('cs, 'cr) desktop_ext \<Rightarrow> disk_faults \<Rightarrow> Settings \<Rightarrow> disk \<Rightarrow> (app_error + unit) \<times> disk" where
  "Settings_save X F s d =
     (if df_mkdir F then (Inl Io, d)
      else case dx_settings_json X s of None \<Rightarrow> (Inl EncodeFailure, d)
        | Some b \<Rightarrow> disk_save F ''settings.json'' b d)"

section \<open>The account (account.rs)\<close>

record Account =
  ac_sk :: AccountSecretKey
  ac_pk :: AccountPublicKey
  ac_mnemonic :: Mnemonic

text \<open>The 16 bytes of salt and 24 of nonce a seal draws.\<close>

type_synonym seal_draw = "bytes \<times> bytes"

definition Account_exists :: "disk \<Rightarrow> bool" where
  "Account_exists d \<longleftrightarrow> d ''keystore.bin'' \<noteq> None"

definition from_mnemonic :: "('cs, 'cr) desktop_ext \<Rightarrow> Mnemonic \<Rightarrow> app_error + Account" where
  "from_mnemonic X m =
     (case derive_keypair_from_seed (dx_prims X) (dx_seed X) m of Inl e \<Rightarrow> Inl (CryptoFailure e)
      | Inr (sk, pk) \<Rightarrow> Inr \<lparr>ac_sk = sk, ac_pk = pk, ac_mnemonic = m\<rparr>)"

definition persist :: "('cs, 'cr) desktop_ext \<Rightarrow> disk_faults \<Rightarrow> seal_draw \<Rightarrow> Mnemonic \<Rightarrow> string \<Rightarrow> disk \<Rightarrow>
  (app_error + unit) \<times> disk" where
  "persist X F r m passphrase d =
     (case seal_keystore (dx_prims X) (fst r) (snd r) (ascii passphrase) m of Inl e \<Rightarrow> (Inl (CryptoFailure e), d)
      | Inr blob \<Rightarrow> disk_save F ''keystore.bin'' blob d)"

definition Account_create :: "('cs, 'cr) desktop_ext \<Rightarrow> disk_faults \<Rightarrow> bytes \<Rightarrow> seal_draw \<Rightarrow> string \<Rightarrow> disk \<Rightarrow>
  (app_error + Account) \<times> disk" where
  "Account_create X F entropy r passphrase d =
     (if passphrase = [] then (Inl EmptyPassphrase, d)
      else case account_mnemonic_new entropy of Inl e \<Rightarrow> (Inl (CryptoFailure e), d)
        | Inr m \<Rightarrow>
            (case persist X F r m passphrase d of (Inl e, d') \<Rightarrow> (Inl e, d') | (Inr _, d') \<Rightarrow> (from_mnemonic X m, d')))"

definition Account_import :: "('cs, 'cr) desktop_ext \<Rightarrow> disk_faults \<Rightarrow> seal_draw \<Rightarrow> string \<Rightarrow> string \<Rightarrow> disk \<Rightarrow>
  (app_error + Account) \<times> disk" where
  "Account_import X F r phrase passphrase d =
     (if passphrase = [] then (Inl EmptyPassphrase, d)
      else case mnemonic_from_phrase (dx_seed X) phrase of Inl e \<Rightarrow> (Inl (CryptoFailure e), d)
        | Inr m \<Rightarrow>
            (case persist X F r m passphrase d of (Inl e, d') \<Rightarrow> (Inl e, d') | (Inr _, d') \<Rightarrow> (from_mnemonic X m, d')))"

definition Account_unlock :: "('cs, 'cr) desktop_ext \<Rightarrow> disk_faults \<Rightarrow> string \<Rightarrow> disk \<Rightarrow> app_error + Account" where
  "Account_unlock X F passphrase d =
     (case disk_read F ''keystore.bin'' d of None \<Rightarrow> Inl Io
      | Some b \<Rightarrow>
          (case open_keystore (dx_prims X) (ascii passphrase) b of Inl _ \<Rightarrow> Inl WrongPassphrase
           | Inr m \<Rightarrow> from_mnemonic X m))"

definition account_id_hex :: "('cs, 'cr) desktop_ext \<Rightarrow> Account \<Rightarrow> string" where
  "account_id_hex X a = hex (account_fingerprint (dx_prims X) (ac_pk a))"

definition recovery_phrase :: "('cs, 'cr) desktop_ext \<Rightarrow> Account \<Rightarrow> app_error + string" where
  "recovery_phrase X a =
     (case mnemonic_to_phrase (dx_seed X) (ac_mnemonic a) of Inl e \<Rightarrow> Inl (CryptoFailure e) | Inr p \<Rightarrow> Inr p)"

section \<open>Client flows (client.rs)\<close>

definition app_b64d :: "('cs, 'cr) desktop_ext \<Rightarrow> string \<Rightarrow> string \<Rightarrow> app_error + bytes" where
  "app_b64d X s what =
     (if trim s = [] then Inl (NotSet what)
      else case dx_b64_decode X (trim s) of None \<Rightarrow> Inl (NotBase64 what) | Some b \<Rightarrow> Inr b)"

record VerifiedNet =
  vn_gateway_kc :: OhttpKeyConfig
  vn_registry_pk :: AccountPublicKey
  vn_issuer_key_id :: "bytes option"
  vn_tunnel_url :: "string option"
  vn_epoch_salt :: "bytes option"
  vn_pow_difficulty :: "u32 option"

definition manual_verified :: "('cs, 'cr) desktop_ext \<Rightarrow> Settings \<Rightarrow> app_error + VerifiedNet" where
  "manual_verified X s =
     bind_sum (app_b64d X (st_gateway_kc_b64 s) ''gateway key-config'') (\<lambda>gateway_kc.
     bind_sum (app_b64d X (st_registry_pk_b64 s) ''registry pubkey'') (\<lambda>registry_pk.
       Inr \<lparr>vn_gateway_kc = gateway_kc, vn_registry_pk = registry_pk, vn_issuer_key_id = None,
            vn_tunnel_url = None, vn_epoch_salt = None, vn_pow_difficulty = None\<rparr>))"

definition build_client :: "string \<Rightarrow> AccountSecretKey \<Rightarrow> AccountPublicKey \<Rightarrow> VerifiedNet \<Rightarrow> Client" where
  "build_client relay_url sk pk v =
     (let c = Client_new relay_url (vn_gateway_kc v) sk pk (replicate 32 0) (replicate 32 0) in
      case vn_issuer_key_id v of None \<Rightarrow> c | Some kid \<Rightarrow> with_expected_issuer_key_id kid c)"

definition TokenStore_load :: "('cs, 'cr) desktop_ext \<Rightarrow> disk_faults \<Rightarrow> string \<Rightarrow> disk \<Rightarrow> Token list" where
  "TokenStore_load X F passphrase d =
     (case Option.bind (disk_read F ''tokens.bin'' d) (\<lambda>b.
           case open_bytes (dx_prims X) (ascii passphrase) b of Inl _ \<Rightarrow> None | Inr pt \<Rightarrow> dx_tokens_dec X pt) of
        None \<Rightarrow> [] | Some ts \<Rightarrow> ts)"

definition TokenStore_save ::
  "('cs, 'cr) desktop_ext \<Rightarrow> disk_faults \<Rightarrow> seal_draw \<Rightarrow> string \<Rightarrow> Token list \<Rightarrow> disk \<Rightarrow> (app_error + unit) \<times> disk" where
  "TokenStore_save X F r passphrase tokens d =
     (case dx_tokens_enc X tokens of None \<Rightarrow> (Inl EncodeFailure, d)
      | Some plain \<Rightarrow>
          (case seal_bytes (dx_prims X) (fst r) (snd r) (ascii passphrase) plain of Inl e \<Rightarrow> (Inl (CryptoFailure e), d)
           | Inr blob \<Rightarrow> disk_save F ''tokens.bin'' blob d))"

definition network_status_of ::
  "('cs, 'cr) desktop_ext \<Rightarrow> 'w round \<Rightarrow> u64 \<Rightarrow> Client \<Rightarrow> 'w \<Rightarrow> NetworkStatus \<times> 'w" where
  "network_status_of X rt latency c w =
     (case client_key_config (dx_client X) rt c w of
        (Inr kc, w') \<Rightarrow> (\<lparr>ns_reachable = True, ns_epoch = kc_epoch kc, ns_denomination = kc_denomination kc,
                          ns_latency_ms = latency, ns_message = Connected\<rparr>, w')
      | (Inl e, w') \<Rightarrow> (\<lparr>ns_reachable = False, ns_epoch = 0, ns_denomination = 0, ns_latency_ms = latency,
                        ns_message = Unreachable e\<rparr>, w'))"

text \<open>
  What one command draws: the blinding draws and request id of an acquisition,
  the session and seal randomness of each attempt, the salt and nonce of a save.
\<close>

record app_draws =
  ad_blind :: "nat \<Rightarrow> bytes \<times> bytes"
  ad_request_id :: bytes
  ad_now :: u64
  ad_session :: "nat \<Rightarrow> bytes"
  ad_exec :: "nat \<Rightarrow> bytes"
  ad_seal :: seal_draw

text \<open>The new tokens stay in memory also when the save fails.\<close>

definition app_acquire ::
  "('cs, 'cr) desktop_ext \<Rightarrow> 'w round \<Rightarrow> app_draws \<Rightarrow> disk_faults \<Rightarrow> Client \<Rightarrow> string \<Rightarrow> nat \<Rightarrow>
   Token list \<times> disk \<times> 'w \<Rightarrow> (app_error + nat) \<times> Token list \<times> disk \<times> 'w" where
  "app_acquire X rt r F c passphrase n =
     (\<lambda>(tokens, d, w).
       if n = 0 then (Inl CountZero, tokens, d, w)
       else case client_key_config (dx_client X) rt c w of
          (Inl e, w1) \<Rightarrow> (Inl (KeyConfigFailed e), tokens, d, w1)
        | (Inr kc, w1) \<Rightarrow>
            (case acquire (dx_client X) rt (map (ad_blind r) [0..<n]) (ad_request_id r) (ad_now r) kc c w1 of
               (Inl e, w2) \<Rightarrow> (Inl (AcquireFailed e), tokens, d, w2)
             | (Inr fresh, w2) \<Rightarrow>
                 let tokens' = tokens @ fresh in
                 (case TokenStore_save X F (ad_seal r) passphrase tokens' d of
                    (Inl e, d') \<Rightarrow> (Inl e, tokens', d', w2)
                  | (Inr _, d') \<Rightarrow> (Inr (length tokens'), tokens', d', w2))))"

text \<open>No result when the proof-of-work search does not end.\<close>

definition app_claim_trial ::
  "('cs, 'cr) desktop_ext \<Rightarrow> 'w round \<Rightarrow> Client \<Rightarrow> VerifiedNet \<Rightarrow> 'w \<Rightarrow> ((app_error + unit) \<times> 'w) option" where
  "app_claim_trial X rt c v w =
     (case (vn_epoch_salt v, vn_pow_difficulty v) of
        (Some salt, Some difficulty) \<Rightarrow>
          (case client_trial_register (dx_client X) rt salt difficulty c w of None \<Rightarrow> None
           | Some (Inr True, w') \<Rightarrow> Some (Inr (), w')
           | Some (Inr False, w') \<Rightarrow> Some (Inl TrialUnavailable, w')
           | Some (Inl e, w') \<Rightarrow> Some (Inl (TrialFailed e), w'))
      | _ \<Rightarrow> Some (Inl TrialNotOffered, w))"

text \<open>
  \<open>String::from_utf8_lossy\<close>: the bytes and validity of the sequence at the
  front, every maximal invalid part replaced by U+FFFD.
\<close>

definition second_ok :: "u8 \<Rightarrow> u8 \<Rightarrow> bool" where
  "second_ok b c \<longleftrightarrow> continuation c \<and> (b = 0xE0 \<longrightarrow> 0xA0 \<le> c) \<and> (b = 0xED \<longrightarrow> c \<le> 0x9F)
     \<and> (b = 0xF0 \<longrightarrow> 0x90 \<le> c) \<and> (b = 0xF4 \<longrightarrow> c \<le> 0x8F)"

definition utf8_step :: "u8 \<Rightarrow> bytes \<Rightarrow> nat \<times> bool" where
  "utf8_step b bs =
     (if b < 0x80 then (1, True)
      else if b < 0xC2 \<or> 0xF4 < b then (1, False)
      else if bs = [] \<or> \<not> second_ok b (bs ! 0) then (1, False)
      else if b \<le> 0xDF then (2, True)
      else if length bs < 2 \<or> \<not> continuation (bs ! 1) then (2, False)
      else if b \<le> 0xEF then (3, True)
      else if length bs < 3 \<or> \<not> continuation (bs ! 2) then (3, False)
      else (4, True))"

function utf8_lossy :: "bytes \<Rightarrow> bytes" where
  "utf8_lossy [] = []"
| "utf8_lossy (b # bs) =
     (let (n, ok) = utf8_step b bs in
      (if ok then take n (b # bs) else [0xEF, 0xBF, 0xBD]) @ utf8_lossy (drop (n - 1) bs))"
  by pat_completeness auto

termination by (relation "measure length") auto

text \<open>
  The attempts of one chat message, in host order: the position is counted from
  zero, and \<open>prev\<close> is the last failure, its position counted from one.
\<close>

datatype chat_end = Answered bytes | SpentButLost | Exhausted "(nat \<times> ClientError) option"

fun chat_attempts ::
  "('cs, 'cr) desktop_ext \<Rightarrow> 'w round \<Rightarrow> app_draws \<Rightarrow> KeyConfigResponse \<Rightarrow> Token \<Rightarrow> bytes \<Rightarrow> Client \<Rightarrow> nat \<Rightarrow>
   (nat \<times> ClientError) option \<Rightarrow> SnapshotHostEntry list \<Rightarrow> 'w \<Rightarrow> chat_end \<times> 'w" where
  "chat_attempts X rt r kc token prompt c i prev [] w = (Exhausted prev, w)"
| "chat_attempts X rt r kc token prompt c i prev (h # hosts) w =
     (case exec_with_host (dx_client X) rt (ad_session r i) (ad_exec r i) kc token h prompt c w of
        (Inr answer, w') \<Rightarrow> (Answered answer, w')
      | (Inl e, w') \<Rightarrow>
          if e = CServer 409 then (SpentButLost, w')
          else chat_attempts X rt r kc token prompt c (Suc i) (Some (Suc i, e)) hosts w')"

definition app_send_message ::
  "('cs, 'cr) desktop_ext \<Rightarrow> 'w round \<Rightarrow> app_draws \<Rightarrow> disk_faults \<Rightarrow> Client \<Rightarrow> AccountPublicKey \<Rightarrow> string \<Rightarrow> string \<Rightarrow>
   Token list \<times> disk \<times> 'w \<Rightarrow> (app_error + ChatReply) \<times> Token list \<times> disk \<times> 'w" where
  "app_send_message X rt r F c registry_pk passphrase prompt =
     (\<lambda>(tokens, d, w).
       if tokens = [] then (Inl NoCredits, tokens, d, w)
       else case client_key_config (dx_client X) rt c w of
          (Inl e, w1) \<Rightarrow> (Inl (ConnectCheckFailed e), tokens, d, w1)
        | (Inr kc, w1) \<Rightarrow>
            (case client_snapshot (dx_client X) rt registry_pk c w1 of
               (Inl e, w2) \<Rightarrow> (Inl (DiscoveryFailed e), tokens, d, w2)
             | (Inr hosts, w2) \<Rightarrow>
                 if hosts = [] then (Inl NoActiveHosts, tokens, d, w2)
                 else
                   let token = last tokens;
                       ordered = sort_key (\<lambda>h. se_models h = []) hosts;
                       (res, w3) = chat_attempts X rt r kc token (ascii prompt) c 0 None ordered w2;
                       tokens' = (case res of Exhausted _ \<Rightarrow> tokens | _ \<Rightarrow> butlast tokens);
                       (saved, d') = TokenStore_save X F (ad_seal r) passphrase tokens' d in
                   (case saved of Inl e \<Rightarrow> Inl e
                    | Inr _ \<Rightarrow>
                        (case res of
                           Answered answer \<Rightarrow> Inr \<lparr>cr_answer = utf8_lossy answer, cr_spent = 1, cr_balance = length tokens'\<rparr>
                         | SpentButLost \<Rightarrow> Inl SpentUndelivered
                         | Exhausted prev \<Rightarrow> Inl (NoHostServed prev)), tokens', d', w3)))"

section \<open>Facts\<close>

lemma utf8_lead:
  fixes b :: u8
  shows "0xC2 \<le> b \<Longrightarrow> b \<le> 0xDF \<Longrightarrow> \<not> b < 0x80 \<and> \<not> (b < 0xC2 \<or> 0xF4 < b) \<and> b \<notin> {0xE0, 0xED, 0xF0, 0xF4}"
    and "0xE0 \<le> b \<Longrightarrow> b \<le> 0xEF \<Longrightarrow> \<not> b < 0x80 \<and> \<not> (b < 0xC2 \<or> 0xF4 < b) \<and> \<not> b \<le> 0xDF \<and> b \<notin> {0xF0, 0xF4}"
    and "0xF0 \<le> b \<Longrightarrow> b \<le> 0xF4 \<Longrightarrow> \<not> b < 0x80 \<and> \<not> (b < 0xC2 \<or> 0xF4 < b) \<and> \<not> b \<le> 0xDF \<and> \<not> b \<le> 0xEF \<and> b \<notin> {0xE0, 0xED}"
  by (auto simp: word_le_nat_alt word_less_nat_alt)

lemma utf8_step_ok:
  assumes "utf8_ok (b # bs)"
  shows "\<exists>n. utf8_step b bs = (n, True) \<and> 1 \<le> n \<and> utf8_ok (drop (n - 1) bs)"
proof -
  consider (one) "b < 0x80" "utf8_ok bs"
    | (two) c bs' where "0xC2 \<le> b" "b \<le> 0xDF" "bs = c # bs'" "continuation c" "utf8_ok bs'"
    | (three) c d bs' where "0xE0 \<le> b" "b \<le> 0xEF" "bs = c # d # bs'" "continuation c" "continuation d"
        "b = 0xE0 \<longrightarrow> 0xA0 \<le> c" "b = 0xED \<longrightarrow> c \<le> 0x9F" "utf8_ok bs'"
    | (four) c d e bs' where "0xF0 \<le> b" "b \<le> 0xF4" "bs = c # d # e # bs'" "continuation c" "continuation d" "continuation e"
        "b = 0xF0 \<longrightarrow> 0x90 \<le> c" "b = 0xF4 \<longrightarrow> c \<le> 0x8F" "utf8_ok bs'"
    using assms [unfolded utf8_ok.simps(2)] by (simp split: if_splits list.splits del: utf8_ok.simps)
  then show ?thesis
  proof cases
    case one
    then show ?thesis by (simp add: utf8_step_def)
  next
    case two
    with utf8_lead(1) [OF two(1,2)] show ?thesis by (simp add: utf8_step_def second_ok_def)
  next
    case three
    with utf8_lead(2) [OF three(1,2)] show ?thesis by (simp add: utf8_step_def second_ok_def)
  next
    case four
    with utf8_lead(3) [OF four(1,2)] show ?thesis by (simp add: utf8_step_def second_ok_def)
  qed
qed

lemma utf8_lossy_ok: "utf8_ok bs \<Longrightarrow> utf8_lossy bs = bs"
proof (induction bs rule: utf8_lossy.induct)
  case (2 b bs)
  obtain n where n: "utf8_step b bs = (n, True)" "1 \<le> n" "utf8_ok (drop (n - 1) bs)"
    using utf8_step_ok [OF 2(2)] by blast
  have "take n (b # bs) @ drop (n - 1) bs = b # bs"
    using n(2) by (cases n) simp_all
  with n 2(1) [OF n(1) [symmetric] refl n(3)] show ?case by simp
qed simp

definition token_codec :: "('cs, 'cr) desktop_ext \<Rightarrow> bool" where
  "token_codec X \<longleftrightarrow> (\<forall>ts b. dx_tokens_enc X ts = Some b \<longrightarrow> dx_tokens_dec X b = Some ts)"

definition seal_draw_ok :: "seal_draw \<Rightarrow> bool" where
  "seal_draw_ok r \<longleftrightarrow> length (fst r) = 16 \<and> length (snd r) = 24"

lemma disk_save_ok:
  "disk_save F name b d = (Inr u, d') \<Longrightarrow> d' = d(name \<mapsto> b)"
  by (auto simp: disk_save_def fs_write_def split: if_splits wfault.splits)

lemma disk_read_ok [simp]: "disk_read disk_ok name d = d name"
  by (simp add: disk_read_def disk_ok_def)

lemma token_store_round_trip:
  assumes "aead_correct (dx_prims X)" and "token_codec X" and "seal_draw_ok r"
    and "TokenStore_save X F r pw tokens d = (Inr u, d')"
  shows "TokenStore_load X disk_ok pw d' = tokens"
proof -
  obtain plain blob where p: "dx_tokens_enc X tokens = Some plain"
    and s: "seal_bytes (dx_prims X) (fst r) (snd r) (ascii pw) plain = Inr blob"
    and "disk_save F ''tokens.bin'' blob d = (Inr u, d')"
    using assms(4) by (auto simp: TokenStore_save_def split: option.splits sum.splits)
  then have "d' ''tokens.bin'' = Some blob" using disk_save_ok by fastforce
  moreover have "open_bytes (dx_prims X) (ascii pw) blob = Inr plain"
    using open_seal_bytes [OF assms(1) _ _ s] assms(3) by (simp add: seal_draw_ok_def)
  ultimately show ?thesis
    using assms(2) p by (simp add: TokenStore_load_def token_codec_def)
qed

lemma save_other_files:
  "TokenStore_save X F r pw tokens d = (res, d') \<Longrightarrow> name \<noteq> ''tokens.bin'' \<Longrightarrow> d' name = d name"
  by (auto simp: TokenStore_save_def disk_save_def fs_write_def split: option.splits sum.splits if_splits wfault.splits)

text \<open>How a run of attempts ends.\<close>

lemma chat_attempts_end:
  assumes "chat_attempts X rt r kc token prompt c i prev hosts w = (res, w')"
  shows "(\<exists>p. res = Exhausted p)
    \<or> (\<exists>h\<in>set hosts. \<exists>j v. exec_with_host (dx_client X) rt (ad_session r j) (ad_exec r j) kc token h prompt c v
          = (case res of Answered a \<Rightarrow> Inr a | _ \<Rightarrow> Inl (CServer 409), w'))"
  using assms
proof (induction hosts arbitrary: i prev w)
  case (Cons h hosts)
  obtain o1 w1 where o: "exec_with_host (dx_client X) rt (ad_session r i) (ad_exec r i) kc token h prompt c w = (o1, w1)"
    by fastforce
  show ?case
  proof (cases o1)
    case (Inr a)
    with o Cons.prems have "res = Answered a" "w' = w1" by auto
    with o Inr show ?thesis by auto
  next
    case (Inl e)
    show ?thesis
    proof (cases "e = CServer 409")
      case True
      with o Inl Cons.prems have "res = SpentButLost" "w' = w1" by auto
      with o Inl True show ?thesis by auto
    next
      case False
      with o Inl Cons.prems show ?thesis
        using Cons.IH [of "Suc i" "Some (Suc i, e)" w1] by auto
    qed
  qed
qed auto

lemma send_message_cases:
  assumes "app_send_message X rt r F c registry_pk pw prompt (tokens, d, w) = (res, tokens', d', w')"
  obtains (Early) e where "res = Inl e" "tokens' = tokens" "d' = d"
  | (Tried) kc w1 hosts w2 ce saved where "client_key_config (dx_client X) rt c w = (Inr kc, w1)"
      "client_snapshot (dx_client X) rt registry_pk c w1 = (Inr hosts, w2)" "tokens \<noteq> []"
      "chat_attempts X rt r kc (last tokens) (ascii prompt) c 0 None (sort_key (\<lambda>h. se_models h = []) hosts) w2 = (ce, w')"
      "tokens' = (case ce of Exhausted _ \<Rightarrow> tokens | _ \<Rightarrow> butlast tokens)"
      "TokenStore_save X F (ad_seal r) pw tokens' d = (saved, d')"
      "res = (case saved of Inl e \<Rightarrow> Inl e
              | Inr _ \<Rightarrow> (case ce of
                  Answered answer \<Rightarrow> Inr \<lparr>cr_answer = utf8_lossy answer, cr_spent = 1, cr_balance = length tokens'\<rparr>
                | SpentButLost \<Rightarrow> Inl SpentUndelivered
                | Exhausted prev \<Rightarrow> Inl (NoHostServed prev)))"
proof (cases "tokens = []")
  case True
  with assms show ?thesis by (auto simp: app_send_message_def intro: Early)
next
  case False
  obtain k w1 where k: "client_key_config (dx_client X) rt c w = (k, w1)" by fastforce
  show ?thesis
  proof (cases k)
    case (Inl e)
    with assms False k show ?thesis by (auto simp: app_send_message_def intro: Early)
  next
    case (Inr kc)
    obtain s w2 where s: "client_snapshot (dx_client X) rt registry_pk c w1 = (s, w2)" by fastforce
    show ?thesis
    proof (cases s)
      case (Inl e)
      with assms False k \<open>k = Inr kc\<close> s show ?thesis by (auto simp: app_send_message_def intro: Early)
    next
      case (Inr hosts)
      obtain ce w3 where ce: "chat_attempts X rt r kc (last tokens) (ascii prompt) c 0 None
          (sort_key (\<lambda>h. se_models h = []) hosts) w2 = (ce, w3)" by fastforce
      let ?t = "case ce of Exhausted _ \<Rightarrow> tokens | _ \<Rightarrow> butlast tokens"
      obtain sv d1 where sv: "TokenStore_save X F (ad_seal r) pw ?t d = (sv, d1)" by fastforce
      show ?thesis
      proof (cases "hosts = []")
        case True
        with assms False k \<open>k = Inr kc\<close> s Inr show ?thesis by (auto simp: app_send_message_def intro: Early)
      next
        case hosts: False
        have out: "(res, tokens', d', w') = (case sv of Inl e \<Rightarrow> Inl e
              | Inr _ \<Rightarrow> (case ce of
                  Answered answer \<Rightarrow> Inr \<lparr>cr_answer = utf8_lossy answer, cr_spent = 1, cr_balance = length ?t\<rparr>
                | SpentButLost \<Rightarrow> Inl SpentUndelivered
                | Exhausted prev \<Rightarrow> Inl (NoHostServed prev)), ?t, d1, w3)"
          using assms False k \<open>k = Inr kc\<close> s Inr hosts ce sv by (simp add: app_send_message_def Let_def)
        then have eqs: "tokens' = ?t" "d' = d1" "w' = w3" by simp_all
        from out show ?thesis
          by (intro Tried [of kc w1 hosts w2 ce sv, unfolded eqs])
            (use k \<open>k = Inr kc\<close> s Inr False ce sv in \<open>simp_all only: prod.inject not_False_eq_True simp_thms\<close>)
      qed
    qed
  qed
qed

definition bip39_correct :: "seed_prims \<Rightarrow> bool" where
  "bip39_correct D \<longleftrightarrow> (\<forall>e p. length e = 16 \<longrightarrow> bip39_phrase D e = Inr p \<longrightarrow> bip39_parse D (trim p) = Inr e)"

lemma create_parts:
  assumes "Account_create X F entropy r pw d = (Inr a, d')"
  obtains blob where "seal_bytes (dx_prims X) (fst r) (snd r) (ascii pw) entropy = Inr blob"
    and "d' = d(''keystore.bin'' \<mapsto> blob)" and "from_mnemonic X entropy = Inr a"
  using assms
  by (auto simp: Account_create_def account_mnemonic_new_def persist_def seal_keystore_def
    split: if_splits sum.splits prod.splits dest!: disk_save_ok)

lemma from_mnemonic_keeps: "from_mnemonic X m = Inr a \<Longrightarrow> ac_mnemonic a = m"
  by (auto simp: from_mnemonic_def split: sum.splits)

text \<open>A transport that delivers the execution requests of a client to the broker and its answers back.\<close>

definition exec_transport ::
  "(TunnelRegistry \<times> store) round \<Rightarrow> OhttpAgent \<Rightarrow> broker_ext \<Rightarrow> BrokerState \<Rightarrow> exec_env \<Rightarrow> (response \<Rightarrow> bytes) \<Rightarrow> bool" where
  "exec_transport rt ag BX S E render \<longleftrightarrow>
     (\<forall>body ts. rt ag \<lparr>ir_method = ''POST'', ir_path = ''/v1/exec'', ir_content_type = Some ''application/json'', ir_body = body\<rparr> ts
        = (let (resp, ts') = exec BX S E body ts; h = broker_http render resp in
           (Inr \<lparr>is_status = hs_status h, is_body = the (hs_body h)\<rparr>, ts')))"

lemma exec_forward_status: "exec_forward X E route i s T = (Err status code, T') \<Longrightarrow> status = 500 \<or> status = 502"
  by (auto simp: exec_forward_def split: Route.splits sum.splits option.splits prod.splits if_splits)

text \<open>The broker answers 409 only without recording anything.\<close>

lemma exec_conflict_keeps:
  assumes "exec X S E body (T, st) = (Err 409 code, T', st')"
  shows "st' = st"
proof -
  have route: "exec_route E h (T, st) \<noteq> (Inl (Err 409 code), T1)" for h T1
    by (auto simp: exec_route_def split: sum.splits option.splits prod.splits Reservation.splits if_splits)
  from assms route obtain req route T1 where "exec_spend X S E route req (T1, st) = (Err 409 code, T', st')"
    by (auto simp: exec_def split: option.splits if_splits prod.splits sum.splits)
  then show ?thesis
    by (cases rule: spend_cases [of "ee_flt_write E" "token_spend_id (bx_prims X) (ex_token req)" "ex_host_account req"
          "cfg_epoch (bs_cfg S)" st])
      (auto simp: exec_spend_def Let_def split: sum.splits SpendOutcome.splits prod.splits dest: exec_forward_status)
qed

lemma conflict_drops_token:
  assumes "exec_transport rt (cli_agent c) BX S E render" and "tokens \<noteq> []"
    and "client_key_config (dx_client X) rt c (T, st) = (Inr kc, (T, st))"
    and "client_snapshot (dx_client X) rt registry_pk c (T, st) = (Inr [h], (T, st))"
    and "session_keygen (cx_hpke (dx_client X)) (ad_session r 0) = Inr (ssk, spk)"
    and "e2e_seal (cx_hpke (dx_client X)) (ad_exec r 0) (se_hpke_pk h) (token_spend_id (dx_prims X) (last tokens))
           (ascii prompt) spk = Inr sealed"
    and "cx_json_exec (dx_client X) \<lparr>ex_key_id = kc_key_id kc, ex_host_account = se_host_account h,
           ex_token = last tokens, ex_sealed = sealed\<rparr> = Some body"
    and "exec BX S E body (T, st) = (Err 409 code, T', st')"
  shows "\<exists>e d'. app_send_message X rt r F c registry_pk pw prompt (tokens, d, T, st) = (Inl e, butlast tokens, d', T', st')"
proof -
  have "rt (cli_agent c) \<lparr>ir_method = ''POST'', ir_path = ''/v1/exec'', ir_content_type = Some ''application/json'', ir_body = body\<rparr> (T, st)
      = (Inr \<lparr>is_status = 409, is_body = render (Err 409 code)\<rparr>, T', st')"
    using assms(1,8) by (simp add: exec_transport_def broker_http_def)
  then have "exec_with_host (dx_client X) rt (ad_session r 0) (ad_exec r 0) kc (last tokens) h (ascii prompt) c (T, st)
      = (Inl (CServer 409), T', st')"
    by (simp add: exec_with_host_def call_def assms(5-7))
  then show ?thesis
    using assms(2-4) by (auto simp: app_send_message_def Let_def split: prod.split sum.split)
qed

section \<open>Properties\<close>

text \<open>
  C23: an account survives. An account created under a passphrase is what unlocking
  the written keystore with that passphrase gives, on every later start; and
  importing its recovery phrase, under any passphrase and on any device, gives
  the same keys.
\<close>

theorem account_survives:
  assumes "aead_correct (dx_prims X)" and "bip39_correct (dx_seed X)" and "seal_draw_ok r" and "length entropy = 16"
    and "Account_create X F entropy r pw d = (Inr a, d')" and "recovery_phrase X a = Inr phrase"
    and "Account_import X F' r' phrase pw' e = (Inr b, e')"
  shows "Account_unlock X disk_ok pw d' = Inr a \<and> b = a"
proof
  obtain blob where s: "seal_bytes (dx_prims X) (fst r) (snd r) (ascii pw) entropy = Inr blob"
    and d': "d' = d(''keystore.bin'' \<mapsto> blob)" and a: "from_mnemonic X entropy = Inr a"
    by (rule create_parts [OF assms(5)])
  have "open_bytes (dx_prims X) (ascii pw) blob = Inr entropy"
    using open_seal_bytes [OF assms(1) _ _ s] assms(3) by (simp add: seal_draw_ok_def)
  then show "Account_unlock X disk_ok pw d' = Inr a"
    using assms(4) a by (simp add: Account_unlock_def d' open_keystore_def)
  have "bip39_phrase (dx_seed X) entropy = Inr phrase"
    using assms(6) from_mnemonic_keeps [OF a] by (auto simp: recovery_phrase_def mnemonic_to_phrase_def split: sum.splits)
  then have "mnemonic_from_phrase (dx_seed X) phrase = Inr entropy"
    using assms(2,4) by (simp add: bip39_correct_def mnemonic_from_phrase_def)
  then show "b = a"
    using assms(7) a by (auto simp: Account_import_def split: if_splits sum.splits prod.splits)
qed


text \<open>
  C39: a refused credit is lost. The broker also answers an execution with status
  409 when the spend could not be recorded (a storage fault, or the tripwire on the
  counters), in which case its store is unchanged; the application takes every
  409 for a token already spent and drops it from the wallet, so the user loses a
  credit the broker never counted as spent.
\<close>

theorem refused_credit_is_lost:
  assumes "exec_transport rt (cli_agent c) BX S E render" and "tokens \<noteq> []"
    and "client_key_config (dx_client X) rt c (T, st) = (Inr kc, (T, st))"
    and "client_snapshot (dx_client X) rt registry_pk c (T, st) = (Inr [h], (T, st))"
    and "session_keygen (cx_hpke (dx_client X)) (ad_session r 0) = Inr (ssk, spk)"
    and "e2e_seal (cx_hpke (dx_client X)) (ad_exec r 0) (se_hpke_pk h) (token_spend_id (dx_prims X) (last tokens))
           (ascii prompt) spk = Inr sealed"
    and "cx_json_exec (dx_client X) \<lparr>ex_key_id = kc_key_id kc, ex_host_account = se_host_account h,
           ex_token = last tokens, ex_sealed = sealed\<rparr> = Some body"
    and "exec BX S E body (T, st) = (Err 409 ''refused'', T', st')"
  shows "\<exists>e d'. app_send_message X rt r F c registry_pk pw prompt (tokens, d, T, st) = (Inl e, butlast tokens, d', T', st')
    \<and> st' = st"
  using conflict_drops_token [OF assms] exec_conflict_keeps [OF assms(8)] by blast

section \<open>A concrete session\<close>

definition demo_sr :: SnapshotResponse where
  "demo_sr = \<lparr>sr_body = replicate 65536 0,
     sr_sig = demo_sig (replicate 32 1) (snapshot_canonical (replicate 65536 0))\<rparr>"

definition demo_seed :: seed_prims where
  "demo_seed = \<lparr>bip39_seed = Inr, bip39_parse = (\<lambda>s. Inr (replicate 16 6)),
     bip39_phrase = (\<lambda>e. if e = replicate 16 6 then Inr ''abandon'' else Inl ''entropy''),
     blake3_derive_key = (\<lambda>ctx s. take 32 (s @ replicate 32 0))\<rparr>"

definition demo_desktop :: "(nat, nat) desktop_ext" where
  "demo_desktop = \<lparr>dx_client = demo_boot_client\<lparr>cx_parse_kc := (\<lambda>_. Some demo_kc), cx_parse_snapshot := (\<lambda>_. Some demo_sr),
       cx_snap := demo_snapshot_codec\<lparr>snap_dec := (\<lambda>_. Some \<lparr>sb_header = demo_header, sb_hosts = [demo_entry]\<rparr>)\<rparr>\<rparr>,
     dx_seed = demo_seed, dx_b64_encode = demo_b64, dx_b64_decode = (\<lambda>_. Some (replicate 32 1)),
     dx_settings_json = (\<lambda>_. Some []), dx_settings_parse = (\<lambda>_. None),
     dx_tokens_enc = (\<lambda>ts. if ts = [] then Some [] else None), dx_tokens_dec = (\<lambda>_. Some [])\<rparr>"

definition demo_app_draws :: app_draws where
  "demo_app_draws = \<lparr>ad_blind = (\<lambda>_. ([], [])), ad_request_id = [], ad_now = 0, ad_session = (\<lambda>_. []), ad_exec = (\<lambda>_. []),
     ad_seal = (replicate 16 0, replicate 24 0)\<rparr>"

text \<open>The transport of the demonstration: the broker, with its storage failing or not.\<close>

definition demo_round :: "faults \<Rightarrow> (TunnelRegistry \<times> store) round" where
  "demo_round flt ag req ts =
     (if ir_method req = ''POST''
      then (let (resp, ts') = exec demo_path_ext demo_broker (demo_path_env\<lparr>ee_flt_write := flt\<rparr>) (ir_body req) ts;
                h = broker_http (\<lambda>_. []) resp in
            (Inr \<lparr>is_status = hs_status h, is_body = the (hs_body h)\<rparr>, ts'))
      else (Inr \<lparr>is_status = 200, is_body = []\<rparr>, ts))"

lemma demo_key_config:
  "client_key_config (dx_client demo_desktop) (demo_round flt) demo_client ts = (Inr demo_kc, ts)"
proof -
  have "take 32 ([7] @ replicate 32 0) = 7 # replicate 31 (0 :: u8)" by simp
  then show ?thesis
    by (simp add: client_key_config_def call_def demo_round_def key_config_checked_def demo_desktop_def demo_boot_client_def demo_client_ext_def
      demo_kc_def demo_client_def Client_new_def demo_prims_def)
qed

lemma demo_snapshot_hosts:
  "client_snapshot (dx_client demo_desktop) (demo_round flt) (replicate 32 1) demo_client ts = (Inr [demo_entry], ts)"
proof -
  have "snapshot_verify demo_prims (replicate 32 1) (sr_body demo_sr) (sr_sig demo_sr) = Inr ()"
    by (simp add: snapshot_verify_def verify_msg_Inr demo_prims_def demo_sr_def is_ok_def demo_sig_def)
  moreover have "replicate 4 (0 :: u8) = [0, 0, 0, 0]" by (simp add: numeral_eq_Suc)
  then have "unat (from_le_bytes (take 4 (sr_body demo_sr)) :: u32) = 0" by (simp add: demo_sr_def)
  moreover have "length (sr_body demo_sr) = 65536" by (simp add: demo_sr_def)
  ultimately have "verify_snapshot (dx_client demo_desktop) (replicate 32 1) demo_sr
      = Inr \<lparr>sb_header = demo_header, sb_hosts = [demo_entry]\<rparr>"
    by (simp add: verify_snapshot_def demo_desktop_def demo_boot_client_def demo_client_ext_def Let_def)
  then show ?thesis
    by (simp add: client_snapshot_def call_def demo_round_def) (simp add: demo_desktop_def demo_boot_client_def demo_client_def Client_new_def)
qed

lemma demo_refused:
  "exec demo_path_ext demo_broker (demo_path_env\<lparr>ee_flt_write := \<lambda>_. True\<rparr>) [1] (tunnels_new, demo_serving_store)
   = (Err 409 ''refused'', tunnels_new, demo_serving_store)"
proof -
  have tok: "length demo_token = 320" "length (token_spend_id demo_prims demo_token) = 32"
    by (simp_all add: demo_token_def token_spend_id_def demo_prims_def)
  have "is_ok (ExecRequest_validate demo_exec_request)"
    by (simp add: ExecRequest_validate_def demo_exec_request_def tok demo_sealed_def demo_hdr_def MAX_SEALED_LEN_def demo_prompt_def)
  moreover have "ex_key_id demo_exec_request = bs_key_id demo_broker"
    by (simp add: demo_exec_request_def demo_broker_def BrokerState_new_def demo_prims_def)
  moreover have "is_ok (token_verify (bx_rsa demo_path_ext) (bs_issuer_pk demo_broker) (ex_token demo_exec_request))"
    using demo_token_valid by (simp add: demo_path_ext_def demo_exec_request_def)
  moreover have "exec_route (demo_path_env\<lparr>ee_flt_write := \<lambda>_. True\<rparr>) (ex_host_account demo_exec_request)
      (tunnels_new, demo_serving_store) = (Inr (Http ''http://h''), tunnels_new)"
    using demo_exec_route by (simp add: exec_route_def demo_path_env_def demo_exec_request_def)
  moreover have "bx_parse_exec demo_path_ext [1] = Some demo_exec_request" by (simp add: demo_path_ext_def)
  ultimately show ?thesis
    by (simp add: exec_def exec_spend_def with_write_def drop_route_def)
qed

lemma demo_session: "session_keygen (cx_hpke (dx_client demo_desktop)) (ad_session demo_app_draws 0) = Inr (replicate 32 0, replicate 32 0)"
  by (simp add: session_keygen_def demo_desktop_def demo_boot_client_def demo_client_ext_def demo_hpke_def demo_app_draws_def)

lemma demo_seal:
  "e2e_seal (cx_hpke (dx_client demo_desktop)) (ad_exec demo_app_draws 0) (se_hpke_pk demo_entry)
     (token_spend_id (dx_prims demo_desktop) demo_token) (ascii ''hi'') (replicate 32 0) = Inr demo_sealed"
  by (simp add: demo_app_draws_def demo_desktop_def demo_boot_client_def demo_client_ext_def e2e_seal_def kem_pk_def demo_hpke_def demo_entry_def
    demo_sealed_def demo_prompt_def ascii_def)

lemma demo_transport:
  "exec_transport (demo_round flt) ag demo_path_ext demo_broker (demo_path_env\<lparr>ee_flt_write := flt\<rparr>) (\<lambda>_. [])"
  by (simp add: exec_transport_def demo_round_def)

lemma demo_exec_json:
  "cx_json_exec (dx_client demo_desktop) \<lparr>ex_key_id = kc_key_id demo_kc, ex_host_account = se_host_account demo_entry,
     ex_token = demo_token, ex_sealed = demo_sealed\<rparr> = Some [1]"
  by (simp add: demo_desktop_def demo_boot_client_def demo_client_ext_def demo_exec_request_def demo_kc_def demo_entry_def)

lemmas demo_chat = demo_transport demo_key_config demo_snapshot_hosts demo_session

theorem refused_credit_is_lost_witness:
  "\<exists>e d'. app_send_message demo_desktop (demo_round (\<lambda>_. True)) demo_app_draws disk_ok demo_client (replicate 32 1) ''pw'' ''hi''
     ([demo_token], Map.empty, tunnels_new, demo_serving_store) = (Inl e, [], d', tunnels_new, demo_serving_store)"
proof -
  have "[demo_token] \<noteq> []" "last [demo_token] = demo_token" "butlast [demo_token] = []" by simp_all
  then show ?thesis
    using refused_credit_is_lost [OF demo_chat(1) _ demo_chat(2-4) _ _ demo_refused, of "[demo_token]" "''hi''" demo_sealed
        disk_ok "''pw''" Map.empty] demo_seal demo_exec_json by auto
qed

lemma demo_token_codec: "token_codec demo_desktop"
  by (simp add: token_codec_def demo_desktop_def demo_boot_client_def)

lemma demo_seal_draw: "seal_draw_ok (ad_seal demo_app_draws)"
  by (simp add: seal_draw_ok_def demo_app_draws_def)

lemma demo_desktop_aead: "aead_correct (dx_prims demo_desktop)"
  using demo_aead_correct by (simp add: demo_desktop_def demo_boot_client_def demo_client_ext_def)


definition demo_acct :: Account where
  "demo_acct = \<lparr>ac_sk = replicate 16 6 @ replicate 16 0, ac_pk = replicate 16 6 @ replicate 16 0, ac_mnemonic = replicate 16 6\<rparr>"

lemma demo_from_mnemonic: "from_mnemonic demo_desktop (replicate 16 6) = Inr demo_acct"
  by (simp add: from_mnemonic_def derive_keypair_from_seed_def demo_desktop_def demo_boot_client_def demo_seed_def demo_client_ext_def demo_prims_def
    demo_acct_def Let_def)

lemma demo_create:
  "Account_create demo_desktop disk_ok (replicate 16 6) (ad_seal demo_app_draws) ''pw'' Map.empty
   = (Inr demo_acct, [''keystore.bin'' \<mapsto> ks_header (replicate 16 0) (replicate 24 0) @ replicate 16 6 @ replicate 16 0])"
proof -
  have "derive_kek demo_prims (ascii ''pw'') (replicate 16 0) = Inr (take 32 (ascii ''pw'' @ replicate 16 0 @ replicate 32 0))"
    by (simp add: derive_kek_def demo_prims_def)
  then have "seal_keystore demo_prims (replicate 16 0) (replicate 24 0) (ascii ''pw'') (replicate 16 6)
      = Inr (ks_header (replicate 16 0) (replicate 24 0) @ replicate 16 6 @ replicate 16 0)"
    by (simp add: seal_keystore_def seal_bytes_def Let_def) (simp add: demo_prims_def)
  moreover have "dx_prims demo_desktop = demo_prims" by (simp add: demo_desktop_def demo_boot_client_def demo_client_ext_def)
  ultimately show ?thesis
    by (simp add: Account_create_def account_mnemonic_new_def persist_def disk_save_def disk_ok_def fs_write_def
      demo_from_mnemonic demo_app_draws_def)
qed

lemma demo_import:
  "Account_import demo_desktop disk_ok (ad_seal demo_app_draws) ''abandon'' ''pw'' Map.empty
   = (Inr demo_acct, [''keystore.bin'' \<mapsto> ks_header (replicate 16 0) (replicate 24 0) @ replicate 16 6 @ replicate 16 0])"
proof -
  have "mnemonic_from_phrase (dx_seed demo_desktop) ''abandon'' = Inr (replicate 16 6)"
    by (simp add: mnemonic_from_phrase_def demo_desktop_def demo_boot_client_def demo_seed_def)
  with demo_create show ?thesis by (simp add: Account_import_def Account_create_def account_mnemonic_new_def)
qed

theorem account_survives_witness:
  "Account_unlock demo_desktop disk_ok ''pw''
     [''keystore.bin'' \<mapsto> ks_header (replicate 16 0) (replicate 24 0) @ replicate 16 6 @ replicate 16 0] = Inr demo_acct
   \<and> demo_acct = demo_acct"
proof (rule account_survives [OF demo_desktop_aead _ demo_seal_draw _ demo_create _ demo_import])
  show "bip39_correct (dx_seed demo_desktop)"
    by (simp add: bip39_correct_def demo_desktop_def demo_boot_client_def demo_seed_def)
  show "recovery_phrase demo_desktop demo_acct = Inr ''abandon''"
    by (simp add: recovery_phrase_def mnemonic_to_phrase_def demo_desktop_def demo_boot_client_def demo_seed_def demo_acct_def)
qed simp

end
