(* ===== verification/Desktop_Host.thy ===== *)
theory Desktop_Host
  imports Desktop_Client
begin

text \<open>
  The contributing side of the desktop application: the managed local model server
  (\<open>ollama.rs\<close>) and the host it serves (\<open>host.rs\<close>). The machine is the
  rest of the world, the child processes the application has started and not yet
  stopped, and the progress events it emitted; what the operating system and the
  local servers do is given by \<open>host_os\<close>.
\<close>

section \<open>The machine\<close>

record HostProgress =
  hp_stage :: string
  hp_message :: string
  hp_percent :: "u8 option"

record 'e machine =
  mc_env :: 'e
  mc_next :: nat
  mc_children :: "nat list"
  mc_events :: "HostProgress list"

text \<open>A streamed response: its status, the chunks, and whether the stream ended cleanly.\<close>

record stream_resp =
  sp_status :: u16
  sp_chunks :: "bytes list"
  sp_clean :: bool

text \<open>
  The answers of the system: \<open>which ollama\<close> (its output, when it succeeds), the
  files that exist, the installer (no launch, or its exit code, if any), whether the
  server process can be spawned, the model download, sleeping, and binding a port.
\<close>

record 'e host_os =
  ho_http :: "'e http"
  ho_which :: "'e \<Rightarrow> string option"
  ho_is_file :: "'e \<Rightarrow> string \<Rightarrow> bool"
  ho_install :: "'e \<Rightarrow> int option option \<times> 'e"
  ho_spawn :: "'e \<Rightarrow> string \<Rightarrow> bool \<times> 'e"
  ho_pull :: "'e \<Rightarrow> bytes \<Rightarrow> stream_resp option \<times> 'e"
  ho_sleep :: "nat \<Rightarrow> 'e \<Rightarrow> 'e"
  ho_bind :: "'e \<Rightarrow> u16 \<Rightarrow> bool"
  ho_json_enc :: "json \<Rightarrow> bytes"
  ho_json_dec :: "bytes \<Rightarrow> json option"
  ho_url :: "string \<Rightarrow> (parsed_url \<times> u16 option) option"

definition emit :: "string \<Rightarrow> string \<Rightarrow> u8 option \<Rightarrow> 'e machine \<Rightarrow> 'e machine" where
  "emit stage message percent m =
     m\<lparr>mc_events := mc_events m @ [\<lparr>hp_stage = stage, hp_message = message, hp_percent = percent\<rparr>]\<rparr>"

definition http_get :: "'e host_os \<Rightarrow> string \<Rightarrow> 'e machine \<Rightarrow> http_resp option \<times> 'e machine" where
  "http_get W url m =
     (let (r, e) = ho_http W \<lparr>hq_method = ''GET'', hq_url = url, hq_content_type = None, hq_body = []\<rparr> (mc_env m) in
      (r, m\<lparr>mc_env := e\<rparr>))"

definition sleep_ms :: "'e host_os \<Rightarrow> nat \<Rightarrow> 'e machine \<Rightarrow> 'e machine" where
  "sleep_ms W ms m = m\<lparr>mc_env := ho_sleep W ms (mc_env m)\<rparr>"

text \<open>A spawned child gets a fresh handle; a killed one is gone.\<close>

definition spawn_child :: "'e host_os \<Rightarrow> string \<Rightarrow> 'e machine \<Rightarrow> nat option \<times> 'e machine" where
  "spawn_child W bin m =
     (let (ok, e) = ho_spawn W (mc_env m) bin in
      if ok then (Some (mc_next m), m\<lparr>mc_env := e, mc_next := Suc (mc_next m), mc_children := mc_next m # mc_children m\<rparr>)
      else (None, m\<lparr>mc_env := e\<rparr>))"

definition kill_child :: "nat option \<Rightarrow> 'e machine \<Rightarrow> 'e machine" where
  "kill_child c m = (case c of None \<Rightarrow> m | Some p \<Rightarrow> m\<lparr>mc_children := removeAll p (mc_children m)\<rparr>)"

section \<open>Managed Ollama (ollama.rs)\<close>

definition OLLAMA_HOST :: string where "OLLAMA_HOST = ''http://localhost:11434''"
definition OLLAMA_OPENAI_BASE :: string where "OLLAMA_OPENAI_BASE = ''http://localhost:11434/v1''"
definition DEFAULT_MODEL :: string where "DEFAULT_MODEL = ''qwen2.5:0.5b''"
definition MAX_PULL_LINE :: nat where "MAX_PULL_LINE = 2 ^ 20"

datatype host_error =
  AlreadyStarting | AlreadyServing | HUnlockFirst | ConsentNeeded
| InstallLaunch | InstallFailed "int option" | InstallNotFound | NotInstalled | ServeSpawn | ServeNotReady
| PullStart | PullRejected u16 | PullInterrupted | PullMalformed | PullError string
| NoBaseUrl | NoLocalInference | NoIngress | BadPort string | BindFailed u16
| BadTunnelUrl | TunnelNotWss | TunnelCredentials | TunnelNoHost | RegistrationFailed RegisterError
| HostKeyLocked | HostIdentityLocked | HostIdentityCorrupt | HIo | HCrypto CryptoError | HEncode | HostAccountLen

definition model_tag :: "string \<Rightarrow> string" where
  "model_tag configured = (let t = trim configured in if t = [] then DEFAULT_MODEL else t)"

definition well_known_paths :: "string list" where
  "well_known_paths = [''/usr/local/bin/ollama'', ''/opt/homebrew/bin/ollama'', ''/usr/bin/ollama'', ''/snap/bin/ollama'']"

text \<open>\<open>str::lines\<close>, as far as its first line goes.\<close>

definition first_line :: "string \<Rightarrow> string option" where
  "first_line s = (if s = [] then None else Some (takeWhile (\<lambda>c. (of_char c :: nat) \<noteq> 10) s))"

definition which_ollama :: "'e host_os \<Rightarrow> 'e \<Rightarrow> string option" where
  "which_ollama W e =
     Option.bind (ho_which W e) (\<lambda>out.
     Option.bind (first_line out) (\<lambda>l. let first = trim l in if first = [] then None else Some first))"

definition find_binary :: "'e host_os \<Rightarrow> 'e \<Rightarrow> string option" where
  "find_binary W e = (case which_ollama W e of Some p \<Rightarrow> Some p | None \<Rightarrow> List.find (ho_is_file W e) well_known_paths)"

definition is_installed :: "'e host_os \<Rightarrow> 'e \<Rightarrow> bool" where
  "is_installed W e \<longleftrightarrow> find_binary W e \<noteq> None"

definition server_up :: "'e host_os \<Rightarrow> 'e machine \<Rightarrow> bool \<times> 'e machine" where
  "server_up W m =
     (let (r, m') = http_get W (OLLAMA_HOST @ ''/api/version'') m in
      (case r of None \<Rightarrow> False | Some resp \<Rightarrow> is_success (hs_status resp), m'))"

text \<open>The wait for the installed binary: at most \<open>n\<close> looks.\<close>

fun await_binary :: "'e host_os \<Rightarrow> nat \<Rightarrow> 'e machine \<Rightarrow> (host_error + unit) \<times> 'e machine" where
  "await_binary W 0 m = (Inl InstallNotFound, m)"
| "await_binary W (Suc n) m =
     (if is_installed W (mc_env m) then (Inr (), emit ''install'' ''Ollama installed.'' None m)
      else await_binary W n (sleep_ms W 500 m))"

definition install :: "'e host_os \<Rightarrow> 'e machine \<Rightarrow> (host_error + unit) \<times> 'e machine" where
  "install W m =
     (let m1 = emit ''install'' ''Installing Ollama'' None m; (st, e) = ho_install W (mc_env m1); m2 = m1\<lparr>mc_env := e\<rparr> in
      case st of None \<Rightarrow> (Inl InstallLaunch, m2)
      | Some code \<Rightarrow> if code \<noteq> Some 0 then (Inl (InstallFailed code), m2) else await_binary W 20 m2)"

text \<open>The wait for the server: at most \<open>n\<close> probes, then the child is killed.\<close>

fun await_server :: "'e host_os \<Rightarrow> nat \<Rightarrow> nat \<Rightarrow> 'e machine \<Rightarrow> (host_error + nat option) \<times> 'e machine" where
  "await_server W 0 child m = (Inl ServeNotReady, kill_child (Some child) m)"
| "await_server W (Suc n) child m =
     (let (up, m') = server_up W (sleep_ms W 500 m) in
      if up then (Inr (Some child), emit ''serve'' ''Ollama server is up.'' None m')
      else await_server W n child m')"

definition ensure_serving :: "'e host_os \<Rightarrow> 'e machine \<Rightarrow> (host_error + nat option) \<times> 'e machine" where
  "ensure_serving W m =
     (let (up, m1) = server_up W m in
      if up then (Inr None, m1)
      else case find_binary W (mc_env m1) of None \<Rightarrow> (Inl NotInstalled, m1)
        | Some bin \<Rightarrow>
            (case spawn_child W bin (emit ''serve'' ''Starting the Ollama server'' None m1) of
               (None, m2) \<Rightarrow> (Inl ServeSpawn, m2)
             | (Some child, m2) \<Rightarrow> await_server W 40 child m2))"

definition json_array :: "json \<Rightarrow> json list option" where
  "json_array v = (case v of JArray xs \<Rightarrow> Some xs | _ \<Rightarrow> None)"

text \<open>\<open>as_u64\<close>: a number written as plain decimal digits, within range.\<close>

definition json_u64 :: "json \<Rightarrow> u64 option" where
  "json_u64 v = map_option of_nat (json_uint 64 v)"

definition before_colon :: "string \<Rightarrow> string" where
  "before_colon s = takeWhile (\<lambda>c. c \<noteq> CHR '':'') s"

definition model_present :: "string \<Rightarrow> json \<Rightarrow> bool" where
  "model_present tag v =
     (let want = trim tag; want_base = before_colon want in
      case Option.bind (json_get ''models'' v) json_array of None \<Rightarrow> False
      | Some arr \<Rightarrow>
          list_ex (\<lambda>x. let name = (case Option.bind (json_get ''name'' x) json_str of None \<Rightarrow> [] | Some n \<Rightarrow> n) in
                       name = want \<or> want = want_base \<and> before_colon name = want_base) arr)"

definition has_model :: "'e host_os \<Rightarrow> string \<Rightarrow> 'e machine \<Rightarrow> bool option \<times> 'e machine" where
  "has_model W tag m =
     (let (r, m') = http_get W (OLLAMA_HOST @ ''/api/tags'') m in
      (Option.bind r (\<lambda>resp. Option.bind (hs_body resp) (\<lambda>b. map_option (model_present tag) (ho_json_dec W b))), m'))"

definition pull_percent :: "json \<Rightarrow> u8 option" where
  "pull_percent v =
     Option.bind (Option.bind (json_get ''total'' v) json_u64) (\<lambda>total.
       let completed = (case Option.bind (json_get ''completed'' v) json_u64 of None \<Rightarrow> 0 | Some c \<Rightarrow> c) in
       if total = 0 then None else Some (ucast (min (sat_mul completed 100 div total) 100)))"

text \<open>One complete status line of the download: skipped, an error, or a progress event.\<close>

definition pull_line :: "'e host_os \<Rightarrow> string \<Rightarrow> bytes \<Rightarrow> 'e machine \<Rightarrow> (host_error + unit) \<times> 'e machine" where
  "pull_line W tag line m =
     (if line = [] then (Inr (), m)
      else case ho_json_dec W line of None \<Rightarrow> (Inr (), m)
        | Some v \<Rightarrow>
            (case Option.bind (json_get ''error'' v) json_str of
               Some err \<Rightarrow> (Inl (PullError err), m)
             | None \<Rightarrow>
                 let status = (case Option.bind (json_get ''status'' v) json_str of None \<Rightarrow> [] | Some s \<Rightarrow> s) in
                 (Inr (), emit ''pull'' (tag @ '': '' @ status) (pull_percent v) m)))"

lemma rest_of_line_shorter: "10 \<in> set buf \<Longrightarrow> length (tl (dropWhile (\<lambda>b. b \<noteq> 10) buf)) < length (buf :: bytes)"
proof -
  assume "10 \<in> set buf"
  then have "dropWhile (\<lambda>b. b \<noteq> 10) buf \<noteq> []" by auto
  then show ?thesis
    using length_dropWhile_le [of "\<lambda>b. b \<noteq> 10" buf] by (cases "dropWhile (\<lambda>b. b \<noteq> 10) buf") auto
qed

function drain_pull_lines ::
  "'e host_os \<Rightarrow> string \<Rightarrow> bytes \<Rightarrow> 'e machine \<Rightarrow> (host_error + unit) \<times> bytes \<times> 'e machine" where
  "drain_pull_lines W tag buf m =
     (if 10 \<notin> set buf then (Inr (), buf, m)
      else let line = takeWhile (\<lambda>b. b \<noteq> 10) buf; rest = tl (dropWhile (\<lambda>b. b \<noteq> 10) buf) in
           case pull_line W tag line m of
             (Inl e, m') \<Rightarrow> (Inl e, rest, m')
           | (Inr _, m') \<Rightarrow> drain_pull_lines W tag rest m')"
  by pat_completeness auto

termination by (relation "measure (\<lambda>(W, tag, buf, m). length buf)") (auto dest: rest_of_line_shorter)

declare drain_pull_lines.simps [simp del]

fun pull_chunks ::
  "'e host_os \<Rightarrow> string \<Rightarrow> bool \<Rightarrow> bytes list \<Rightarrow> bytes \<Rightarrow> 'e machine \<Rightarrow> (host_error + bytes) \<times> 'e machine" where
  "pull_chunks W tag clean [] buf m = (if clean then Inr buf else Inl PullInterrupted, m)"
| "pull_chunks W tag clean (c # cs) buf m =
     (case drain_pull_lines W tag (buf @ c) m of
        (Inl e, _, m') \<Rightarrow> (Inl e, m')
      | (Inr _, buf', m') \<Rightarrow>
          if MAX_PULL_LINE < length buf' then (Inl PullMalformed, m') else pull_chunks W tag clean cs buf' m')"

definition ensure_model :: "'e host_os \<Rightarrow> string \<Rightarrow> 'e machine \<Rightarrow> (host_error + unit) \<times> 'e machine" where
  "ensure_model W tag m =
     (let (present, m1) = has_model W tag m in
      if present = Some True then (Inr (), m1)
      else
        let m2 = emit ''pull'' (''Downloading model '' @ tag) (Some 0) m1;
            (r, e) = ho_pull W (mc_env m2) (ho_json_enc W (JObject [(''name'', JString tag), (''stream'', JBool True)]));
            m3 = m2\<lparr>mc_env := e\<rparr> in
        case r of None \<Rightarrow> (Inl PullStart, m3)
        | Some resp \<Rightarrow>
            if \<not> is_success (sp_status resp) then (Inl (PullRejected (sp_status resp)), m3)
            else (case pull_chunks W tag (sp_clean resp) (sp_chunks resp) [] m3 of
                    (Inl e', m4) \<Rightarrow> (Inl e', m4)
                  | (Inr buf, m4) \<Rightarrow>
                      (case (if buf \<noteq> [] then drain_pull_lines W tag (buf @ [10]) m4 else (Inr (), buf, m4)) of
                         (Inl e', _, m5) \<Rightarrow> (Inl e', m5)
                       | (Inr _, _, m5) \<Rightarrow> (Inr (), emit ''pull'' (''Model '' @ tag @ '' ready.'') (Some 100) m5))))"

section \<open>The host (host.rs)\<close>

record host_codec =
  hcx_pair_enc :: "bytes \<times> bytes \<Rightarrow> bytes option"
  hcx_pair_dec :: "bytes \<Rightarrow> (bytes \<times> bytes) option"
  hcx_register :: "HostRegisterRequest \<Rightarrow> bytes option"

definition ingress_from_tunnel_url :: "'e host_os \<Rightarrow> string \<Rightarrow> host_error + string" where
  "ingress_from_tunnel_url W tunnel_url =
     (case ho_url W tunnel_url of None \<Rightarrow> Inl BadTunnelUrl
      | Some (u, port) \<Rightarrow>
          if pu_scheme u \<noteq> ''wss'' then Inl TunnelNotWss
          else if pu_username u \<noteq> [] \<or> pu_password u \<noteq> None then Inl TunnelCredentials
          else (case pu_host u of None \<Rightarrow> Inl TunnelNoHost
                | Some host \<Rightarrow>
                    Inr (''https://'' @ host @ (case port of None \<Rightarrow> [] | Some p \<Rightarrow> CHR '':'' # show_dec (unat p)))))"

definition select_upstream :: "HostConfig \<Rightarrow> host_error + upstream_choice" where
  "select_upstream cfg =
     (case hc_upstream cfg of
        Echo \<Rightarrow> Inr (UseEcho (ascii ''[lluma-echo] ''))
      | OpenAi \<Rightarrow>
          if trim (hc_openai_base cfg) = [] then Inl NoBaseUrl
          else Inr (UseOpenAi (OpenAiUpstream_new (hc_openai_base cfg) (hc_openai_model cfg) (hc_openai_api_key cfg)))
      | Local \<Rightarrow> Inl NoLocalInference)"

definition first_model_id :: "json \<Rightarrow> string option" where
  "first_model_id v =
     Option.bind (json_get ''data'' v) (\<lambda>d. Option.bind (json_array d) (\<lambda>xs.
       Option.bind (case xs of [] \<Rightarrow> None | x # _ \<Rightarrow> Some x) (\<lambda>x. Option.bind (json_get ''id'' x) json_str)))"

definition CANDIDATES :: "string list" where
  "CANDIDATES = [''http://localhost:11434/v1'', ''http://127.0.0.1:11434/v1'', ''http://localhost:1234/v1'', ''http://localhost:8080/v1'']"

fun detect_among :: "'e host_os \<Rightarrow> string list \<Rightarrow> 'e machine \<Rightarrow> (string \<times> string) option \<times> 'e machine" where
  "detect_among W [] m = (None, m)"
| "detect_among W (base # bases) m =
     (let (r, m') = http_get W (base @ ''/models'') m in
      case Option.bind r (\<lambda>resp.
             if \<not> is_success (hs_status resp) then None
             else Option.bind (hs_body resp) (\<lambda>b. Option.bind (ho_json_dec W b) first_model_id)) of
        Some model \<Rightarrow> (Some (base, model), m')
      | None \<Rightarrow> detect_among W bases m')"

definition detect_local_openai :: "'e host_os \<Rightarrow> 'e machine \<Rightarrow> (string \<times> string) option \<times> 'e machine" where
  "detect_local_openai W m = detect_among W CANDIDATES m"

fun str_contains :: "string \<Rightarrow> string \<Rightarrow> bool" where
  "str_contains [] p \<longleftrightarrow> p = []"
| "str_contains (c # cs) p \<longleftrightarrow> starts_with (c # cs) p \<or> str_contains cs p"

definition upstream_desc :: "HostConfig \<Rightarrow> string" where
  "upstream_desc cfg =
     (case hc_upstream cfg of
        OpenAi \<Rightarrow>
          if str_contains (hc_openai_base cfg) ''11434'' then ''Ollama (localhost:11434)''
          else if trim (hc_openai_base cfg) = [] then ''OpenAI-compatible'' else hc_openai_base cfg
      | Echo \<Rightarrow> ''Echo (diagnostics)''
      | Local \<Rightarrow> ''In-process llama.cpp'')"

text \<open>The host keys, sealed under the passphrase; minted only when the file is absent.\<close>

definition load_or_create_host_key ::
  "('cs, 'cr) desktop_ext \<Rightarrow> host_codec \<Rightarrow> disk_faults \<Rightarrow> bytes \<Rightarrow> seal_draw \<Rightarrow> string \<Rightarrow> disk \<Rightarrow>
   (host_error + bytes \<times> bytes) \<times> disk" where
  "load_or_create_host_key X K F seed r passphrase d =
     (if d ''host_key.bin'' \<noteq> None then
        (case disk_read F ''host_key.bin'' d of None \<Rightarrow> (Inl HIo, d)
         | Some b \<Rightarrow>
             (case open_bytes (dx_prims X) (ascii passphrase) b of Inl _ \<Rightarrow> (Inl HostKeyLocked, d)
              | Inr pt \<Rightarrow> (case hcx_pair_dec K pt of None \<Rightarrow> (Inl HEncode, d) | Some keys \<Rightarrow> (Inr keys, d))))
      else case host_keygen (cx_hpke (dx_client X)) seed of Inl e \<Rightarrow> (Inl (HCrypto e), d)
        | Inr keys \<Rightarrow>
            (case hcx_pair_enc K keys of None \<Rightarrow> (Inl HEncode, d)
             | Some plain \<Rightarrow>
                 (case seal_bytes (dx_prims X) (fst r) (snd r) (ascii passphrase) plain of Inl e \<Rightarrow> (Inl (HCrypto e), d)
                  | Inr blob \<Rightarrow>
                      (case disk_save F ''host_key.bin'' blob d of
                         (Inl _, d') \<Rightarrow> (Inl HIo, d') | (Inr _, d') \<Rightarrow> (Inr keys, d')))))"

definition load_or_create_host_account ::
  "('cs, 'cr) desktop_ext \<Rightarrow> disk_faults \<Rightarrow> bytes \<Rightarrow> seal_draw \<Rightarrow> string \<Rightarrow> disk \<Rightarrow>
   (host_error + AccountSecretKey \<times> AccountPublicKey) \<times> disk" where
  "load_or_create_host_account X F entropy r passphrase d =
     (if d ''host_account.bin'' \<noteq> None then
        (case disk_read F ''host_account.bin'' d of None \<Rightarrow> (Inl HIo, d)
         | Some b \<Rightarrow>
             (case open_bytes (dx_prims X) (ascii passphrase) b of Inl _ \<Rightarrow> (Inl HostIdentityLocked, d)
              | Inr sk \<Rightarrow>
                  if length sk \<noteq> 32 then (Inl HostIdentityCorrupt, d)
                  else (case account_public_from_secret (dx_prims X) sk of Inl e \<Rightarrow> (Inl (HCrypto e), d)
                        | Inr pk \<Rightarrow> (Inr (sk, pk), d))))
      else case bind_sum (account_mnemonic_new entropy) (derive_keypair_from_seed (dx_prims X) (dx_seed X)) of
             Inl e \<Rightarrow> (Inl (HCrypto e), d)
           | Inr (sk, pk) \<Rightarrow>
               (case seal_bytes (dx_prims X) (fst r) (snd r) (ascii passphrase) sk of Inl e \<Rightarrow> (Inl (HCrypto e), d)
                | Inr blob \<Rightarrow>
                    (case disk_save F ''host_account.bin'' blob d of
                       (Inl _, d') \<Rightarrow> (Inl HIo, d') | (Inr _, d') \<Rightarrow> (Inr (sk, pk), d'))))"

definition port_from_ingress :: "string \<Rightarrow> host_error + u16" where
  "port_from_ingress ingress =
     (let after = rev (takeWhile (\<lambda>c. c \<noteq> CHR '':'') (rev ingress)); digits = takeWhile is_decimal after in
      case parse_uint 16 digits of None \<Rightarrow> Inl (BadPort ingress) | Some p \<Rightarrow> Inr (of_nat p))"

definition reachability_check :: "'e host_os \<Rightarrow> string \<Rightarrow> 'e machine \<Rightarrow> bool \<times> 'e machine" where
  "reachability_check W ingress_addr m = (let (r, m') = http_get W ingress_addr m in (r \<noteq> None, m'))"

record HostStatus =
  hst_running :: bool
  hst_reachable :: bool
  hst_state :: string
  hst_credits_earned :: u64
  hst_requests_served :: u64
  hst_message :: string
  hst_model :: string
  hst_upstream :: string
  hst_mode :: string
  hst_endpoint :: string

definition HostStatus_default :: HostStatus where
  "HostStatus_default = \<lparr>hst_running = False, hst_reachable = False, hst_state = ''stopped'', hst_credits_earned = 0,
     hst_requests_served = 0, hst_message = [], hst_model = [], hst_upstream = [], hst_mode = [], hst_endpoint = []\<rparr>"

datatype host_task =
  ServeTask u16 HostSecretKey upstream_choice | HeartbeatTask RegisterConfig | TunnelTask TunnelConfig HostSecretKey upstream_choice

text \<open>A running host: its tasks, and the model server the application started for it, if any.\<close>

record HostHandle =
  hh_tasks :: "host_task list"
  hh_managed_ollama :: "nat option"
  hh_status :: HostStatus

definition HostHandle_start ::
  "'e host_os \<Rightarrow> HostConfig \<Rightarrow> HostSecretKey \<Rightarrow> nat option \<Rightarrow> 'e machine \<Rightarrow> (host_error + HostHandle) \<times> 'e machine" where
  "HostHandle_start W cfg host_sk managed m =
     (case select_upstream cfg of Inl e \<Rightarrow> (Inl e, kill_child managed m)
      | Inr up \<Rightarrow>
          if trim (hc_ingress_addr cfg) = [] then (Inl NoIngress, kill_child managed m)
          else (case port_from_ingress (hc_ingress_addr cfg) of Inl e \<Rightarrow> (Inl e, kill_child managed m)
            | Inr port \<Rightarrow>
                if \<not> ho_bind W (mc_env m) port then (Inl (BindFailed port), kill_child managed m)
                else
                  let (reachable, m') = reachability_check W (hc_ingress_addr cfg) m in
                  (Inr \<lparr>hh_tasks = [ServeTask port host_sk up], hh_managed_ollama = managed,
                        hh_status = HostStatus_default\<lparr>hst_running := True, hst_reachable := reachable,
                          hst_state := (if reachable then ''active'' else ''serving (reachability unverified)''),
                          hst_message := (if reachable then ''serving; broker registration requires operator params''
                            else ''listening locally: confirm your ingress is reachable from the internet''),
                          hst_model := hc_openai_model cfg, hst_upstream := upstream_desc cfg, hst_mode := ''dial-in'',
                          hst_endpoint := hc_ingress_addr cfg\<rparr>\<rparr>, m')))"

text \<open>No result when the proof-of-work search of the registration does not end.\<close>

definition HostHandle_start_tunnel ::
  "prims \<Rightarrow> host_codec \<Rightarrow> 'e host_os \<Rightarrow> HostConfig \<Rightarrow> string \<Rightarrow> bytes \<Rightarrow> bytes \<Rightarrow> u32 \<Rightarrow> HostSecretKey \<Rightarrow>
   bytes \<Rightarrow> AccountSecretKey \<Rightarrow> bytes \<Rightarrow> nat option \<Rightarrow> 'e machine \<Rightarrow> ((host_error + HostHandle) \<times> 'e machine) option" where
  "HostHandle_start_tunnel P K W cfg tunnel_url broker_key_id epoch_salt pow_difficulty host_sk host_pk account_sk
     host_account managed m =
     (case select_upstream cfg of Inl e \<Rightarrow> Some (Inl e, kill_child managed m)
      | Inr up \<Rightarrow>
          (case ingress_from_tunnel_url W tunnel_url of Inl e \<Rightarrow> Some (Inl e, kill_child managed m)
           | Inr broker_ingress \<Rightarrow>
               let rcfg = \<lparr>rg_broker_ingress = broker_ingress, rg_epoch_salt = epoch_salt, rg_pow_difficulty = pow_difficulty,
                           rg_heartbeat_interval_s = 30,
                           rg_models = [if trim (hc_model_id cfg) = [] then hc_openai_model cfg else hc_model_id cfg]\<rparr> in
               (case post_register P (hcx_register K) (ho_http W) rcfg account_sk host_account host_pk (mc_env m) of
                  None \<Rightarrow> None
                | Some (Inl e, w') \<Rightarrow> Some (Inl (RegistrationFailed e), kill_child managed (m\<lparr>mc_env := w'\<rparr>))
                | Some (Inr _, w') \<Rightarrow>
                    Some (Inr \<lparr>hh_tasks = [HeartbeatTask rcfg,
                                 TunnelTask \<lparr>tc_url = tunnel_url, tc_host_account = host_account, tc_account_sk = account_sk,
                                             tc_broker_key_id = broker_key_id\<rparr> host_sk up],
                               hh_managed_ollama = managed,
                               hh_status = HostStatus_default\<lparr>hst_running := True, hst_reachable := True,
                                 hst_state := ''serving via tunnel'',
                                 hst_message := ''serving over the reverse tunnel (no inbound port needed)'',
                                 hst_model := hc_openai_model cfg, hst_upstream := upstream_desc cfg, hst_mode := ''tunnel'',
                                 hst_endpoint := tunnel_url\<rparr>\<rparr>, m\<lparr>mc_env := w'\<rparr>))))"

text \<open>
  One turn of the heartbeat loop: the clock is the counter; from the third failure
  in a row on, the host registers again on every turn.
\<close>

definition app_hb_turn :: "bool \<Rightarrow> u32 \<Rightarrow> HostStatus \<Rightarrow> u32 \<times> bool \<times> HostStatus" where
  "app_hb_turn beat_ok fails s =
     (if beat_ok
      then (0, False, s\<lparr>hst_state := ''serving via tunnel'',
                        hst_message := ''serving over the reverse tunnel (no inbound port needed)''\<rparr>)
      else let fails' = fails + 1 in
           if 3 \<le> fails' then (fails', True, s\<lparr>hst_state := ''reconnecting'',
                                              hst_message := ''lost broker admission: retrying registration''\<rparr>)
           else (fails', False, s))"

definition HostHandle_stop :: "HostHandle \<Rightarrow> 'e machine \<Rightarrow> 'e machine" where
  "HostHandle_stop h m = kill_child (hh_managed_ollama h) m"

section \<open>Which children are left\<close>

text \<open>
  What an operation may do to the children: keep those there were, apart from
  those it hands over in its result. Handles are never reused.
\<close>

definition children_ok :: "'e machine \<Rightarrow> bool" where
  "children_ok m \<longleftrightarrow> (\<forall>p\<in>set (mc_children m). p < mc_next m)"

definition leaves :: "'e machine \<Rightarrow> nat set \<Rightarrow> 'e machine \<Rightarrow> bool" where
  "leaves m ps m' \<longleftrightarrow> set (mc_children m') = set (mc_children m) \<union> ps \<and> mc_next m \<le> mc_next m'
     \<and> (\<forall>p\<in>ps. mc_next m \<le> p \<and> p < mc_next m')"

named_theorems leaves_intros \<open>what the operations leave behind\<close>

lemma leaves_refl [simp, leaves_intros]: "leaves m {} m"
  by (simp add: leaves_def)

lemma leaves_children_ok: "leaves m ps m' \<Longrightarrow> children_ok m \<Longrightarrow> children_ok m'"
  by (force simp: leaves_def children_ok_def)

lemma leaves_trans: "leaves m ps m' \<Longrightarrow> leaves m' qs m'' \<Longrightarrow> leaves m (ps \<union> qs) m''"
  by (auto simp: leaves_def intro: order.trans less_le_trans order.strict_trans2)

lemma leaves_then_nothing: "leaves m ps m' \<Longrightarrow> leaves m' {} m'' \<Longrightarrow> leaves m ps m''"
  using leaves_trans [of m ps m' "{}" m''] by simp

lemma leaves_emit [simp]: "leaves m ps (emit s t p m') \<longleftrightarrow> leaves m ps m'"
  by (simp add: leaves_def emit_def)

lemma leaves_env [simp]: "leaves m ps (m'\<lparr>mc_env := e\<rparr>) \<longleftrightarrow> leaves m ps m'"
  by (simp add: leaves_def)

lemma leaves_env_left [simp]: "leaves (m\<lparr>mc_env := e\<rparr>) ps m' \<longleftrightarrow> leaves m ps m'" "leaves (emit s t p m) ps m' \<longleftrightarrow> leaves m ps m'"
  by (simp_all add: leaves_def emit_def)

lemma leaves_http_get: "http_get W url m = (r, m') \<Longrightarrow> leaves m {} m'"
  by (auto simp: http_get_def split: prod.splits)

lemma leaves_sleep [simp]: "leaves m ps (sleep_ms W n m') \<longleftrightarrow> leaves m ps m'" "leaves (sleep_ms W n m) ps m' \<longleftrightarrow> leaves m ps m'"
  by (simp_all add: sleep_ms_def)

lemma leaves_kill:
  assumes "leaves m (set_option c) m'" and "children_ok m"
  shows "leaves m {} (kill_child c m')"
proof (cases c)
  case (Some p)
  with assms show ?thesis by (force simp: leaves_def kill_child_def children_ok_def)
qed (use assms in \<open>simp add: kill_child_def\<close>)

text \<open>The children an outcome hands to its caller: none when it failed.\<close>

definition owned :: "('a \<Rightarrow> nat option) \<Rightarrow> 'e + 'a \<Rightarrow> nat set" where
  "owned f r = (case r of Inl _ \<Rightarrow> {} | Inr a \<Rightarrow> set_option (f a))"

lemma owned_simps [simp]: "owned f (Inl e) = {}" "owned f (Inr a) = set_option (f a)"
  by (simp_all add: owned_def)

lemma leaves_server_up: "server_up W m = (up, m') \<Longrightarrow> leaves m {} m'"
  by (auto simp: server_up_def split: prod.splits dest: leaves_http_get)

lemma leaves_await_binary: "await_binary W n m = (r, m') \<Longrightarrow> leaves m {} m'"
proof (induction n arbitrary: m)
  case (Suc n)
  then show ?case using Suc.IH [of "sleep_ms W 500 m"] by (auto split: if_splits)
qed simp

lemma leaves_install: "install W m = (r, m') \<Longrightarrow> leaves m {} m'"
  by (auto simp: install_def Let_def split: prod.splits option.splits if_splits dest: leaves_await_binary)

lemma leaves_spawn: "spawn_child W bin m = (c, m') \<Longrightarrow> leaves m (set_option c) m'"
  by (auto simp: spawn_child_def leaves_def split: prod.splits if_splits)

lemma leaves_await_server:
  assumes "await_server W n child m = (r, m')" and "leaves b {child} m" and "children_ok b"
  shows "leaves b (owned id r) m'"
  using assms
proof (induction n arbitrary: m)
  case 0
  then show ?case using leaves_kill [of b "Some child" m] by auto
next
  case (Suc n)
  obtain up m1 where u: "server_up W (sleep_ms W 500 m) = (up, m1)" by fastforce
  have "leaves b {child} m1"
    using leaves_then_nothing [OF Suc.prems(2)] leaves_server_up [OF u] by simp
  with Suc.prems(1,3) u Suc.IH [of m1] show ?case by (auto split: if_splits)
qed

lemma leaves_ensure_serving:
  assumes "ensure_serving W m = (r, m')" and "children_ok m"
  shows "leaves m (owned id r) m'"
proof -
  obtain up m1 where u: "server_up W m = (up, m1)" by fastforce
  note m1 = leaves_server_up [OF u]
  show ?thesis
  proof (cases "up \<or> find_binary W (mc_env m1) = None")
    case True
    then show ?thesis using assms(1) u m1 by (auto simp: ensure_serving_def split: if_splits)
  next
    case False
    then obtain bin where bin: "\<not> up" "find_binary W (mc_env m1) = Some bin" by blast
    obtain c m2 where sp: "spawn_child W bin (emit ''serve'' ''Starting the Ollama server'' None m1) = (c, m2)" by fastforce
    have m2: "leaves m (set_option c) m2"
      using leaves_trans [OF m1, of "set_option c" m2] leaves_spawn [OF sp] by simp
    show ?thesis
    proof (cases c)
      case None
      then show ?thesis using assms(1) u bin sp m2 by (auto simp: ensure_serving_def)
    next
      case (Some child)
      then have "await_server W 40 child m2 = (r, m')"
        using assms(1) u bin sp by (simp add: ensure_serving_def)
      from leaves_await_server [OF this _ assms(2)] m2 Some show ?thesis by simp
    qed
  qed
qed

lemma leaves_has_model: "has_model W tag m = (r, m') \<Longrightarrow> leaves m {} m'"
  by (auto simp: has_model_def split: prod.splits dest: leaves_http_get)

lemma leaves_pull_line: "pull_line W tag line m = (r, m') \<Longrightarrow> leaves m {} m'"
  by (auto simp: pull_line_def Let_def split: if_splits option.splits)

lemma leaves_drain: "drain_pull_lines W tag buf m = (r, rest, m') \<Longrightarrow> leaves m {} m'"
proof (induction W tag buf m rule: drain_pull_lines.induct)
  case (1 W tag buf m)
  obtain q m1 where q: "pull_line W tag (takeWhile (\<lambda>b. b \<noteq> 10) buf) m = (q, m1)" by fastforce
  show ?case
  proof (cases "10 \<in> set buf \<and> (\<exists>u. q = Inr u)")
    case True
    then have "leaves m1 {} m'"
      using 1 q by (auto simp: drain_pull_lines.simps [of W tag buf m] Let_def)
    with leaves_pull_line [OF q] show ?thesis by (rule leaves_then_nothing)
  next
    case False
    then show ?thesis
      using 1(2) q leaves_pull_line [OF q] by (cases q) (auto simp: drain_pull_lines.simps [of W tag buf m] Let_def split: if_splits)
  qed
qed

lemma leaves_pull_chunks: "pull_chunks W tag clean cs buf m = (r, m') \<Longrightarrow> leaves m {} m'"
proof (induction cs arbitrary: buf m)
  case (Cons c cs)
  obtain q b m1 where q: "drain_pull_lines W tag (buf @ c) m = (q, b, m1)" by (metis prod_cases3)
  note m1 = leaves_drain [OF q]
  show ?case
    using Cons.prems Cons.IH [of b m1] q m1 leaves_then_nothing [OF m1] by (cases q) (auto split: if_splits)
qed (auto split: if_splits)

lemma leaves_ensure_model:
  assumes "ensure_model W tag m = (r, m')"
  shows "leaves m {} m'"
proof -
  obtain present m1 where h: "has_model W tag m = (present, m1)" by fastforce
  note m1 = leaves_has_model [OF h]
  define m2 where "m2 = emit ''pull'' (''Downloading model '' @ tag) (Some 0) m1"
  obtain q e where q: "ho_pull W (mc_env m2) (ho_json_enc W (JObject [(''name'', JString tag), (''stream'', JBool True)])) = (q, e)"
    by fastforce
  have m3: "leaves m {} (m2\<lparr>mc_env := e\<rparr>)" using m1 by (simp add: m2_def)
  show ?thesis
  proof (cases "present = Some True \<or> q = None \<or> \<not> is_success (sp_status (the q))")
    case True
    then show ?thesis
      using assms h m1 m3 q [unfolded m2_def] by (auto simp: ensure_model_def Let_def m2_def split: if_splits option.splits)
  next
    case False
    then obtain resp where resp: "present \<noteq> Some True" "q = Some resp" "is_success (sp_status resp)" by auto
    obtain p m4 where p: "pull_chunks W tag (sp_clean resp) (sp_chunks resp) [] (m2\<lparr>mc_env := e\<rparr>) = (p, m4)" by fastforce
    have m4: "leaves m {} m4" using leaves_then_nothing [OF m3 leaves_pull_chunks [OF p]] .
    have drain: "drain_pull_lines W tag b m4 = (s, rest, m5) \<Longrightarrow> leaves m {} m5" for b s rest m5
      using leaves_then_nothing [OF m4 leaves_drain] .
    show ?thesis
      using assms h q [unfolded m2_def] resp p [unfolded m2_def] m4 drain
      by (auto simp: ensure_model_def Let_def split: sum.splits prod.splits if_splits)
  qed
qed

lemma leaves_detect: "detect_among W bases m = (r, m') \<Longrightarrow> leaves m {} m'"
proof (induction bases arbitrary: m)
  case (Cons base bases)
  obtain q m1 where q: "http_get W (base @ ''/models'') m = (q, m1)" by fastforce
  note m1 = leaves_http_get [OF q]
  show ?case
    using Cons.prems q m1 leaves_then_nothing [OF m1 Cons.IH [of m1]] by (auto simp: Let_def split: option.splits)
qed simp

text \<open>Starting a host either hands the managed server to the handle or stops it.\<close>

lemma leaves_start:
  assumes "HostHandle_start W cfg hsk managed m = (r, m')" and "leaves b (set_option managed) m" and "children_ok b"
  shows "leaves b (owned hh_managed_ollama r) m'"
  using assms(1) leaves_kill [OF assms(2,3)] assms(2) leaves_then_nothing [OF assms(2) leaves_http_get]
  by (auto simp: HostHandle_start_def reachability_check_def Let_def split: sum.splits if_splits prod.splits)

lemma leaves_start_tunnel:
  assumes "HostHandle_start_tunnel P K W cfg url bkid salt diff hsk hpk ask acct managed m = Some (r, m')"
    and "leaves b (set_option managed) m" and "children_ok b"
  shows "leaves b (owned hh_managed_ollama r) m'"
  using assms(1) leaves_kill [OF assms(2,3)] assms(2) leaves_kill [of b managed "m\<lparr>mc_env := e\<rparr>" for e] assms(3)
  by (auto simp: HostHandle_start_tunnel_def Let_def split: sum.splits option.splits prod.splits)

lemma pull_percent_le: "pull_percent v = Some p \<Longrightarrow> p \<le> 100"
proof -
  have "(ucast (min x 100) :: u8) \<le> 100" for x :: u64
  proof -
    have "unat (min x 100) \<le> 100" by (simp add: min_def word_le_nat_alt)
    moreover have "unat (ucast (min x 100) :: u8) \<le> unat (min x 100)"
      by (simp add: unsigned_ucast_eq take_bit_nat_less_eq_self)
    ultimately show ?thesis by (simp add: word_le_nat_alt)
  qed
  then show "pull_percent v = Some p \<Longrightarrow> p \<le> 100"
    by (auto simp: pull_percent_def Let_def split: option.splits if_splits Option.bind_splits)
qed

end
