(* ===== verification/Desktop_App.thy ===== *)
theory Desktop_App
  imports Desktop_Host
begin

text \<open>
  The commands of the desktop application (\<open>lib.rs\<close>) over its one shared
  state. A command that holds the lock throughout is one step; starting a host
  and connecting release it in between and are several. The invariants say what
  the session trusts, what a locked session holds, and which model servers it
  leaves running.
\<close>

section \<open>State\<close>

datatype start_task =
  Begun HostConfig string bool "VerifiedNet option"
| Provisioned HostConfig HostHandle

record 'e app =
  ap_settings :: Settings
  ap_account :: "Account option"
  ap_tokens :: "Token list"
  ap_passphrase :: "string option"
  ap_verified :: "VerifiedNet option"
  ap_host :: "HostHandle option"
  ap_starting :: bool
  ap_start :: "start_task option"
  ap_connecting :: "string list"
  ap_disk :: disk
  ap_machine :: "'e machine"

definition ok_option :: "'e + 'a \<Rightarrow> 'a option" where
  "ok_option r = (case r of Inl _ \<Rightarrow> None | Inr a \<Rightarrow> Some a)"

definition AppState_new ::
  "('cs, 'cr) desktop_ext \<Rightarrow> string option \<Rightarrow> disk_faults \<Rightarrow> disk \<Rightarrow> 'e machine \<Rightarrow> 'e app" where
  "AppState_new X pinned F d m =
     (let settings = Settings_load X F d in
      \<lparr>ap_settings = settings, ap_account = None, ap_tokens = [], ap_passphrase = None,
       ap_verified = (if has_anchor X pinned then None else ok_option (manual_verified X settings)),
       ap_host = None, ap_starting = False, ap_start = None, ap_connecting = [], ap_disk = d, ap_machine = m\<rparr>)"

section \<open>Settings and accounts\<close>

definition set_settings ::
  "('cs, 'cr) desktop_ext \<Rightarrow> string option \<Rightarrow> disk_faults \<Rightarrow> Settings \<Rightarrow> 'e app \<Rightarrow> (app_error + unit) \<times> 'e app" where
  "set_settings X pinned F settings a =
     (case Settings_save X F settings (ap_disk a) of
        (Inl e, d) \<Rightarrow> (Inl e, a\<lparr>ap_disk := d\<rparr>)
      | (Inr _, d) \<Rightarrow>
          let relay_changed = (st_relay_url (ap_settings a) \<noteq> st_relay_url settings);
              verified = (if has_anchor X pinned then (if relay_changed then None else ap_verified a)
                          else ok_option (manual_verified X settings)) in
          (Inr (), a\<lparr>ap_disk := d, ap_settings := settings, ap_verified := verified\<rparr>))"

definition account_status_of :: "('cs, 'cr) desktop_ext \<Rightarrow> 'e app \<Rightarrow> AccountStatus" where
  "account_status_of X a =
     (case ap_account a of
        Some acct \<Rightarrow> \<lparr>acs_has_account = True, acs_unlocked = True, acs_account_id_hex = account_id_hex X acct,
                      acs_balance = length (ap_tokens a)\<rparr>
      | None \<Rightarrow> \<lparr>acs_has_account = Account_exists (ap_disk a), acs_unlocked = False, acs_account_id_hex = [], acs_balance = 0\<rparr>)"

definition open_session :: "('cs, 'cr) desktop_ext \<Rightarrow> disk_faults \<Rightarrow> Account \<Rightarrow> string \<Rightarrow> 'e app \<Rightarrow> 'e app" where
  "open_session X F acct passphrase a =
     a\<lparr>ap_tokens := TokenStore_load X F passphrase (ap_disk a), ap_account := Some acct, ap_passphrase := Some passphrase\<rparr>"

text \<open>The common end of \<open>create_account\<close> and \<open>import_account\<close>.\<close>

definition new_account ::
  "('cs, 'cr) desktop_ext \<Rightarrow> disk_faults \<Rightarrow> string \<Rightarrow> (app_error + Account) \<times> disk \<Rightarrow> 'e app \<Rightarrow> (app_error + NewAccount) \<times> 'e app" where
  "new_account X F passphrase made a =
     (case made of (Inl e, d) \<Rightarrow> (Inl e, a\<lparr>ap_disk := d\<rparr>)
      | (Inr acct, d) \<Rightarrow>
          (case recovery_phrase X acct of Inl e \<Rightarrow> (Inl e, a\<lparr>ap_disk := d\<rparr>)
           | Inr phrase \<Rightarrow> (Inr \<lparr>na_account_id_hex = account_id_hex X acct, na_recovery_phrase = phrase\<rparr>,
                           open_session X F acct passphrase (a\<lparr>ap_disk := d\<rparr>))))"

definition create_account ::
  "('cs, 'cr) desktop_ext \<Rightarrow> disk_faults \<Rightarrow> bytes \<Rightarrow> seal_draw \<Rightarrow> string \<Rightarrow> 'e app \<Rightarrow> (app_error + NewAccount) \<times> 'e app" where
  "create_account X F entropy r passphrase a =
     new_account X F passphrase (Account_create X F entropy r passphrase (ap_disk a)) a"

definition import_account ::
  "('cs, 'cr) desktop_ext \<Rightarrow> disk_faults \<Rightarrow> seal_draw \<Rightarrow> string \<Rightarrow> string \<Rightarrow> 'e app \<Rightarrow> (app_error + NewAccount) \<times> 'e app" where
  "import_account X F r phrase passphrase a =
     new_account X F passphrase (Account_import X F r phrase passphrase (ap_disk a)) a"

definition unlock ::
  "('cs, 'cr) desktop_ext \<Rightarrow> disk_faults \<Rightarrow> string \<Rightarrow> 'e app \<Rightarrow> (app_error + AccountStatus) \<times> 'e app" where
  "unlock X F passphrase a =
     (case Account_unlock X F passphrase (ap_disk a) of Inl e \<Rightarrow> (Inl e, a)
      | Inr acct \<Rightarrow> let a' = open_session X F acct passphrase a in (Inr (account_status_of X a'), a'))"

definition lock :: "'e app \<Rightarrow> 'e app" where
  "lock a = a\<lparr>ap_account := None, ap_passphrase := None, ap_tokens := []\<rparr>"

section \<open>Network and chat\<close>

definition verified_of :: "AccountPublicKey \<Rightarrow> BootstrapDoc \<Rightarrow> VerifiedNet" where
  "verified_of anchor_pk doc =
     \<lparr>vn_gateway_kc = bd_gateway_kc doc, vn_registry_pk = anchor_pk, vn_issuer_key_id = Some (bd_issuer_key_id doc),
      vn_tunnel_url = bd_tunnel_url doc, vn_epoch_salt = bd_epoch_salt doc, vn_pow_difficulty = bd_pow_difficulty doc\<rparr>"

definition set_env :: "'e \<Rightarrow> 'e app \<Rightarrow> 'e app" where
  "set_env e a = a\<lparr>ap_machine := (ap_machine a)\<lparr>mc_env := e\<rparr>\<rparr>"

abbreviation ap_env :: "'e app \<Rightarrow> 'e" where
  "ap_env a \<equiv> mc_env (ap_machine a)"

text \<open>\<open>auto_connect\<close> with an anchor: it reads the relay under the lock, and takes the lock again with the document.\<close>

definition connect_begin :: "'e app \<Rightarrow> 'e app" where
  "connect_begin a = a\<lparr>ap_connecting := st_relay_url (ap_settings a) # ap_connecting a\<rparr>"

definition connect_finish ::
  "('cs, 'cr) desktop_ext \<Rightarrow> 'e http \<Rightarrow> disk_faults \<Rightarrow> AccountPublicKey \<Rightarrow> string \<Rightarrow> 'e app \<Rightarrow> (app_error + unit) \<times> 'e app" where
  "connect_finish X send F anchor_pk relay a =
     (let a0 = a\<lparr>ap_connecting := remove1 relay (ap_connecting a)\<rparr> in
      case fetch_bootstrap (dx_client X) send relay anchor_pk (ap_env a) of
        (Inl e, w) \<Rightarrow> (Inl (AutoConnectFailed e), set_env w a0)
      | (Inr doc, w) \<Rightarrow>
          let settings = (ap_settings a)\<lparr>st_gateway_kc_b64 := dx_b64_encode X (bd_gateway_kc doc),
                           st_registry_pk_b64 := dx_b64_encode X anchor_pk, st_issuer_key_id_hex := hex (bd_issuer_key_id doc)\<rparr>;
              (saved, d) = Settings_save X F settings (ap_disk a) in
          (saved, set_env w (a0\<lparr>ap_verified := Some (verified_of anchor_pk doc), ap_settings := settings, ap_disk := d\<rparr>)))"

text \<open>\<open>entropy\<close> is drawn for a throw-away account when none is unlocked.\<close>

definition network_status ::
  "('cs, 'cr) desktop_ext \<Rightarrow> 'e round \<Rightarrow> u64 \<Rightarrow> bytes \<Rightarrow> 'e app \<Rightarrow> (app_error + NetworkStatus) \<times> 'e app" where
  "network_status X rt latency entropy a =
     (case ap_verified a of
        None \<Rightarrow> (Inr \<lparr>ns_reachable = False, ns_epoch = 0, ns_denomination = 0, ns_latency_ms = 0, ns_message = NotConnectedMsg\<rparr>, a)
      | Some v \<Rightarrow>
          (case (case ap_account a of Some acct \<Rightarrow> Inr (ac_sk acct, ac_pk acct)
                 | None \<Rightarrow> bind_sum (account_mnemonic_new entropy) (derive_keypair_from_seed (dx_prims X) (dx_seed X))) of
             Inl e \<Rightarrow> (Inl (CryptoFailure e), a)
           | Inr (sk, pk) \<Rightarrow>
               let (ns, w) = network_status_of X rt latency (build_client (st_relay_url (ap_settings a)) sk pk v) (ap_env a) in
               (Inr ns, set_env w a)))"

text \<open>What every credit command needs: an unlocked account and a verified network.\<close>

definition session :: "'e app \<Rightarrow> app_error + (Account \<times> string \<times> VerifiedNet \<times> Client)" where
  "session a =
     bind_sum (ok_or (ap_account a) UnlockFirst) (\<lambda>acct.
     bind_sum (ok_or (ap_passphrase a) UnlockFirst) (\<lambda>pass.
     bind_sum (ok_or (ap_verified a) NotConnected) (\<lambda>v.
       Inr (acct, pass, v, build_client (st_relay_url (ap_settings a)) (ac_sk acct) (ac_pk acct) v))))"

definition claim_trial ::
  "('cs, 'cr) desktop_ext \<Rightarrow> 'e round \<Rightarrow> 'e app \<Rightarrow> ((app_error + unit) \<times> 'e app) option" where
  "claim_trial X rt a =
     (case ap_account a of None \<Rightarrow> Some (Inl UnlockFirst, a)
      | Some acct \<Rightarrow>
          (case ap_verified a of None \<Rightarrow> Some (Inl NotConnected, a)
           | Some v \<Rightarrow>
               map_option (\<lambda>(r, w). (r, set_env w a))
                 (app_claim_trial X rt (build_client (st_relay_url (ap_settings a)) (ac_sk acct) (ac_pk acct) v) v (ap_env a))))"

definition acquire_tokens ::
  "('cs, 'cr) desktop_ext \<Rightarrow> 'e round \<Rightarrow> app_draws \<Rightarrow> disk_faults \<Rightarrow> nat \<Rightarrow> 'e app \<Rightarrow> (app_error + nat) \<times> 'e app" where
  "acquire_tokens X rt r F n a =
     (case session a of Inl e \<Rightarrow> (Inl e, a)
      | Inr (acct, pass, v, c) \<Rightarrow>
          let (res, tokens, d, w) = app_acquire X rt r F c pass n (ap_tokens a, ap_disk a, ap_env a) in
          (res, set_env w (a\<lparr>ap_tokens := tokens, ap_disk := d\<rparr>)))"

definition send_message ::
  "('cs, 'cr) desktop_ext \<Rightarrow> 'e round \<Rightarrow> app_draws \<Rightarrow> disk_faults \<Rightarrow> string \<Rightarrow> 'e app \<Rightarrow> (app_error + ChatReply) \<times> 'e app" where
  "send_message X rt r F prompt a =
     (case session a of Inl e \<Rightarrow> (Inl e, a)
      | Inr (acct, pass, v, c) \<Rightarrow>
          let (res, tokens, d, w) =
            app_send_message X rt r F c (vn_registry_pk v) pass prompt (ap_tokens a, ap_disk a, ap_env a) in
          (res, set_env w (a\<lparr>ap_tokens := tokens, ap_disk := d\<rparr>)))"

section \<open>Hosting\<close>

text \<open>Phase 2, first part: reuse a running model server, or provision one.\<close>

definition auto_host ::
  "'e host_os \<Rightarrow> HostConfig \<Rightarrow> bool \<Rightarrow> 'e machine \<Rightarrow> (host_error + HostConfig \<times> nat option) \<times> 'e machine" where
  "auto_host W cfg consent m =
     (if \<not> (hc_upstream cfg = OpenAi \<and> trim (hc_openai_base cfg) = []) then (Inr (cfg, None), m)
      else case detect_local_openai W m of
        (Some (base, detected), m1) \<Rightarrow>
          let cfg1 = cfg\<lparr>hc_openai_base := base\<rparr>; picked = trim (hc_ollama_model cfg) in
          if str_contains base ''11434'' \<and> picked \<noteq> []
          then (case ensure_model W picked m1 of
                  (Inl e, m2) \<Rightarrow> (Inl e, m2)
                | (Inr _, m2) \<Rightarrow> (Inr (cfg1\<lparr>hc_openai_model := picked\<rparr>, None), m2))
          else if trim (hc_openai_model cfg) = [] then (Inr (cfg1\<lparr>hc_openai_model := detected\<rparr>, None), m1)
          else (Inr (cfg1, None), m1)
      | (None, m1) \<Rightarrow>
          if \<not> is_installed W (mc_env m1) \<and> \<not> consent then (Inl ConsentNeeded, m1)
          else (case (if is_installed W (mc_env m1) then (Inr (), m1) else install W m1) of
                  (Inl e, m2) \<Rightarrow> (Inl e, m2)
                | (Inr _, m2) \<Rightarrow>
                    (case ensure_serving W m2 of (Inl e, m3) \<Rightarrow> (Inl e, m3)
                     | (Inr child, m3) \<Rightarrow>
                         let tag = model_tag (hc_ollama_model cfg) in
                         (case ensure_model W tag m3 of
                            (Inl e, m4) \<Rightarrow> (Inl e, kill_child child m4)
                          | (Inr _, m4) \<Rightarrow>
                              (Inr (cfg\<lparr>hc_upstream := OpenAi, hc_openai_base := OLLAMA_OPENAI_BASE, hc_openai_model := tag\<rparr>,
                                    child), m4)))))"

definition tunnel_params :: "VerifiedNet option \<Rightarrow> (string \<times> bytes \<times> u32 \<times> bytes) option" where
  "tunnel_params verified =
     (case verified of None \<Rightarrow> None
      | Some v \<Rightarrow>
          (case (vn_tunnel_url v, vn_epoch_salt v, vn_pow_difficulty v) of
             (Some url, Some salt, Some diff) \<Rightarrow>
               if length (vn_registry_pk v) = 32 then Some (url, salt, diff, vn_registry_pk v) else None
           | _ \<Rightarrow> None))"

record host_draws =
  hd_key_seed :: bytes
  hd_key_seal :: seal_draw
  hd_entropy :: bytes
  hd_account_seal :: seal_draw

text \<open>Phase 2: provision, load the host's keys, start serving; every failure stops the server it started.\<close>

definition provision ::
  "('cs, 'cr) desktop_ext \<Rightarrow> host_codec \<Rightarrow> 'e host_os \<Rightarrow> disk_faults \<Rightarrow> host_draws \<Rightarrow> HostConfig \<Rightarrow> string \<Rightarrow> bool \<Rightarrow>
   VerifiedNet option \<Rightarrow> disk \<Rightarrow> 'e machine \<Rightarrow> ((host_error + HostConfig \<times> HostHandle) \<times> disk \<times> 'e machine) option" where
  "provision X K W F r cfg pass consent verified d m =
     (case auto_host W cfg consent m of
        (Inl e, m1) \<Rightarrow> Some (Inl e, d, m1)
      | (Inr (cfg', managed), m1) \<Rightarrow>
          (case load_or_create_host_key X K F (hd_key_seed r) (hd_key_seal r) pass d of
             (Inl e, d1) \<Rightarrow> Some (Inl e, d1, kill_child managed m1)
           | (Inr (host_sk, host_pk), d1) \<Rightarrow>
               (case tunnel_params verified of
                  None \<Rightarrow>
                    (case HostHandle_start W cfg' host_sk managed m1 of
                       (Inl e, m2) \<Rightarrow> Some (Inl e, d1, m2)
                     | (Inr h, m2) \<Rightarrow> Some (Inr (cfg', h), d1, m2))
                | Some (url, salt, diff, bkid) \<Rightarrow>
                    (case load_or_create_host_account X F (hd_entropy r) (hd_account_seal r) pass d1 of
                       (Inl e, d2) \<Rightarrow> Some (Inl e, d2, kill_child managed m1)
                     | (Inr (acct_sk, acct_pk), d2) \<Rightarrow>
                         if length acct_pk \<noteq> 32 then Some (Inl HostAccountLen, d2, kill_child managed m1)
                         else (case HostHandle_start_tunnel (dx_prims X) K W cfg' url bkid salt diff host_sk host_pk acct_sk
                                      acct_pk managed m1 of
                                 None \<Rightarrow> None
                               | Some (Inl e, m2) \<Rightarrow> Some (Inl e, d2, m2)
                               | Some (Inr h, m2) \<Rightarrow> Some (Inr (cfg', h), d2, m2))))))"

text \<open>Phase 1: the latch, and what is read under the lock.\<close>

definition host_start_begin :: "'e app \<Rightarrow> (host_error + unit) \<times> 'e app" where
  "host_start_begin a =
     (if ap_starting a then (Inl AlreadyStarting, a)
      else if ap_account a = None then (Inl HUnlockFirst, a)
      else if ap_host a \<noteq> None then (Inl AlreadyServing, a)
      else case ap_passphrase a of None \<Rightarrow> (Inl HUnlockFirst, a)
        | Some pass \<Rightarrow>
            (Inr (), a\<lparr>ap_starting := True, ap_start := Some (Begun (st_host (ap_settings a)) pass
                       (st_ollama_install_consent (ap_settings a)) (ap_verified a))\<rparr>))"

definition host_start_provision ::
  "('cs, 'cr) desktop_ext \<Rightarrow> host_codec \<Rightarrow> 'e host_os \<Rightarrow> disk_faults \<Rightarrow> host_draws \<Rightarrow> HostConfig \<Rightarrow> string \<Rightarrow> bool \<Rightarrow>
   VerifiedNet option \<Rightarrow> 'e app \<Rightarrow> ((host_error + unit) \<times> 'e app) option" where
  "host_start_provision X K W F r cfg pass consent verified a =
     (case provision X K W F r cfg pass consent verified (ap_disk a) (ap_machine a) of None \<Rightarrow> None
      | Some (Inl e, d, m) \<Rightarrow> Some (Inl e, a\<lparr>ap_disk := d, ap_machine := m, ap_starting := False, ap_start := None\<rparr>)
      | Some (Inr (cfg', h), d, m) \<Rightarrow>
          Some (Inr (), a\<lparr>ap_disk := d, ap_machine := m, ap_start := Some (Provisioned cfg' h)\<rparr>))"

text \<open>Phase 3: the lock again; a failed save of the settings is ignored.\<close>

definition host_start_finish ::
  "('cs, 'cr) desktop_ext \<Rightarrow> disk_faults \<Rightarrow> HostConfig \<Rightarrow> HostHandle \<Rightarrow> 'e app \<Rightarrow> (host_error + HostStatus) \<times> 'e app" where
  "host_start_finish X F cfg h a =
     (let a0 = a\<lparr>ap_starting := False, ap_start := None\<rparr> in
      if ap_host a \<noteq> None then (Inl AlreadyServing, a0\<lparr>ap_machine := HostHandle_stop h (ap_machine a)\<rparr>)
      else let settings = (ap_settings a)\<lparr>st_host := cfg\<rparr>; d = snd (Settings_save X F settings (ap_disk a)) in
           (Inr (hh_status h), a0\<lparr>ap_settings := settings, ap_disk := d, ap_host := Some h\<rparr>))"

definition host_stop :: "'e app \<Rightarrow> HostStatus \<times> 'e app" where
  "host_stop a =
     (HostStatus_default,
      case ap_host a of None \<Rightarrow> a
      | Some h \<Rightarrow> a\<lparr>ap_host := None, ap_machine := HostHandle_stop h (ap_machine a)\<rparr>)"

definition host_status :: "'e app \<Rightarrow> HostStatus" where
  "host_status a = (case ap_host a of Some h \<Rightarrow> hh_status h | None \<Rightarrow> HostStatus_default)"

definition grant_ollama_consent ::
  "('cs, 'cr) desktop_ext \<Rightarrow> disk_faults \<Rightarrow> 'e app \<Rightarrow> (app_error + unit) \<times> 'e app" where
  "grant_ollama_consent X F a =
     (let settings = (ap_settings a)\<lparr>st_ollama_install_consent := True\<rparr>;
          (r, d) = Settings_save X F settings (ap_disk a) in
      (r, a\<lparr>ap_settings := settings, ap_disk := d\<rparr>))"

text \<open>On exit the server of a running host is told to die.\<close>

definition app_exit :: "'e app \<Rightarrow> 'e app" where
  "app_exit a = (case ap_host a of None \<Rightarrow> a
     | Some h \<Rightarrow> a\<lparr>ap_machine := kill_child (hh_managed_ollama h) (ap_machine a)\<rparr>)"

section \<open>The application as a transition system\<close>

text \<open>
  Each step is one command, or one part of a command between two points where it
  takes the lock, with any faults, draws and answers of the outside.
\<close>

inductive app_step ::
  "('cs, 'cr) desktop_ext \<Rightarrow> string option \<Rightarrow> host_codec \<Rightarrow> 'e host_os \<Rightarrow> 'e app \<Rightarrow> 'e app \<Rightarrow> bool"
  for X :: "('cs, 'cr) desktop_ext" and pinned K W where
  settings: "set_settings X pinned F s a = (r, a') \<Longrightarrow> app_step X pinned K W a a'"
| create: "create_account X F entropy sd pass a = (r, a') \<Longrightarrow> app_step X pinned K W a a'"
| import: "import_account X F sd phrase pass a = (r, a') \<Longrightarrow> app_step X pinned K W a a'"
| unlock: "unlock X F pass a = (r, a') \<Longrightarrow> app_step X pinned K W a a'"
| lock: "app_step X pinned K W a (lock a)"
| connect_begin: "has_anchor X pinned \<Longrightarrow> app_step X pinned K W a (connect_begin a)"
| connect_finish: "relay \<in> set (ap_connecting a) \<Longrightarrow> pinned_registry_pk X pinned = Some pk \<Longrightarrow>
    connect_finish X (ho_http W) F pk relay a = (r, a') \<Longrightarrow> app_step X pinned K W a a'"
| status: "network_status X rt latency entropy a = (r, a') \<Longrightarrow> app_step X pinned K W a a'"
| trial: "claim_trial X rt a = Some (r, a') \<Longrightarrow> app_step X pinned K W a a'"
| acquire: "acquire_tokens X rt draws F n a = (r, a') \<Longrightarrow> app_step X pinned K W a a'"
| chat: "send_message X rt draws F prompt a = (r, a') \<Longrightarrow> app_step X pinned K W a a'"
| start_begin: "host_start_begin a = (r, a') \<Longrightarrow> app_step X pinned K W a a'"
| start_provision: "ap_start a = Some (Begun cfg pass consent v) \<Longrightarrow>
    host_start_provision X K W F hdr cfg pass consent v a = Some (r, a') \<Longrightarrow> app_step X pinned K W a a'"
| start_finish: "ap_start a = Some (Provisioned cfg h) \<Longrightarrow> host_start_finish X F cfg h a = (r, a') \<Longrightarrow> app_step X pinned K W a a'"
| stop: "host_stop a = (r, a') \<Longrightarrow> app_step X pinned K W a a'"
| beat: "ap_host a = Some h \<Longrightarrow> app_hb_turn ok fails (hh_status h) = (fails', again, s) \<Longrightarrow>
    app_step X pinned K W a (a\<lparr>ap_host := Some (h\<lparr>hh_status := s\<rparr>)\<rparr>)"
| consent: "grant_ollama_consent X F a = (r, a') \<Longrightarrow> app_step X pinned K W a a'"
| world: "app_step X pinned K W a (set_env e a)"

definition app_reachable ::
  "('cs, 'cr) desktop_ext \<Rightarrow> string option \<Rightarrow> host_codec \<Rightarrow> 'e host_os \<Rightarrow> 'e app \<Rightarrow> bool" where
  "app_reachable X pinned K W a \<longleftrightarrow>
     (\<exists>F d m. mc_children m = [] \<and> (app_step X pinned K W)\<^sup>*\<^sup>* (AppState_new X pinned F d m) a)"

lemma app_reachable_induct [consumes 1, case_names start step]:
  assumes "app_reachable X pinned K W a"
    and "\<And>F d m. mc_children m = [] \<Longrightarrow> I (AppState_new X pinned F d m)"
    and "\<And>a a'. I a \<Longrightarrow> app_step X pinned K W a a' \<Longrightarrow> I a'"
  shows "I a"
proof -
  obtain F d m where "mc_children m = []" and steps: "(app_step X pinned K W)\<^sup>*\<^sup>* (AppState_new X pinned F d m) a"
    using assms(1) by (auto simp: app_reachable_def)
  from steps show ?thesis
    by (induction rule: rtranclp_induct) (use assms(2,3) \<open>mc_children m = []\<close> in blast)+
qed

section \<open>What the session trusts\<close>

definition pinned_trust :: "('cs, 'cr) desktop_ext \<Rightarrow> AccountPublicKey \<Rightarrow> VerifiedNet option \<Rightarrow> bool" where
  "pinned_trust X pk v \<longleftrightarrow> (\<forall>n. v = Some n \<longrightarrow> (\<exists>sb doc. verify_bootstrap (dx_client X) pk sb = Inr doc \<and> n = verified_of pk doc))"

definition trust_inv :: "('cs, 'cr) desktop_ext \<Rightarrow> AccountPublicKey \<Rightarrow> 'e app \<Rightarrow> bool" where
  "trust_inv X pk a \<longleftrightarrow> pinned_trust X pk (ap_verified a)
     \<and> (\<forall>cfg pass consent v. ap_start a = Some (Begun cfg pass consent v) \<longrightarrow> pinned_trust X pk v)"

lemma pinned_trust_None [simp]: "pinned_trust X pk None"
  by (simp add: pinned_trust_def)

lemma fetch_verifies:
  "fetch_bootstrap C send relay pk w = (Inr doc, w') \<Longrightarrow> \<exists>sb. verify_bootstrap C pk sb = Inr doc"
  by (auto simp: fetch_bootstrap_def split: option.splits prod.splits if_splits)

text \<open>
  A relay change clears the trusted endpoints, but a connection begun before it
  puts the document of the old relay back when it completes.
\<close>

lemma late_document_survives_relay_change:
  assumes "set_settings X pinned F s (connect_begin a) = (Inr (), a1)"
    and "st_relay_url (ap_settings a) \<noteq> st_relay_url s" and "has_anchor X pinned"
    and "fetch_bootstrap (dx_client X) send (st_relay_url (ap_settings a)) pk (ap_env a1) = (Inr doc, w)"
  shows "ap_verified a1 = None
    \<and> (let a2 = snd (connect_finish X send F' pk (st_relay_url (ap_settings a)) a1) in
       ap_verified a2 = Some (verified_of pk doc) \<and> st_relay_url (ap_settings a2) = st_relay_url s)"
  using assms
  by (auto simp: set_settings_def connect_begin_def connect_finish_def set_env_def Let_def split: prod.splits sum.splits if_splits)

lemma pinned_trust_fetch:
  assumes "fetch_bootstrap (dx_client X) send relay pk w = (Inr doc, w')"
  shows "pinned_trust X pk (Some (verified_of pk doc))"
  using fetch_verifies [OF assms] by (auto simp: pinned_trust_def)

text \<open>Most commands leave the trust, the host, the start in flight and the model servers alone.\<close>

definition frame :: "'e app \<Rightarrow> 'e app \<Rightarrow> bool" where
  "frame a a' \<longleftrightarrow> ap_verified a' = ap_verified a \<and> ap_start a' = ap_start a \<and> ap_host a' = ap_host a
     \<and> ap_starting a' = ap_starting a \<and> mc_children (ap_machine a') = mc_children (ap_machine a)
     \<and> mc_next (ap_machine a') = mc_next (ap_machine a)"

lemmas session_defs = open_session_def new_account_def create_account_def import_account_def unlock_def lock_def
lemmas network_defs = network_status_def claim_trial_def acquire_tokens_def send_message_def connect_begin_def set_env_def
lemmas command_splits = sum.splits option.splits prod.splits if_splits

lemma frame_session:
  "create_account X F entropy sd pass a = (r, a') \<Longrightarrow> frame a a'"
  "import_account X F sd phrase pass a = (r, a') \<Longrightarrow> frame a a'"
  "unlock X F pass a = (q, a') \<Longrightarrow> frame a a'"
  "frame a (lock a)"
  by (auto simp: session_defs frame_def Let_def split: command_splits)

lemma frame_network:
  "network_status X rt latency entropy a = (r, a') \<Longrightarrow> frame a a'"
  "claim_trial X rt a = Some (r', a') \<Longrightarrow> frame a a'"
  "acquire_tokens X rt draws F n a = (q, a') \<Longrightarrow> frame a a'"
  "send_message X rt draws F prompt a = (p, a') \<Longrightarrow> frame a a'"
  "frame a (connect_begin a)" "frame a (set_env e a)"
  by (auto simp: network_defs frame_def Let_def split: command_splits)

lemma frame_consent: "grant_ollama_consent X F a = (r, a') \<Longrightarrow> frame a a'"
  by (auto simp: grant_ollama_consent_def frame_def Let_def split: command_splits)

lemmas frames = frame_session frame_network frame_consent

text \<open>A step either keeps the frame or is one of the commands about trust or hosting.\<close>

lemma app_step_cases:
  assumes "app_step X pinned K W a a'"
  obtains (Frame) "frame a a'"
  | (Settings) F s r where "set_settings X pinned F s a = (r, a')"
  | (Connect) relay pk F r where "pinned_registry_pk X pinned = Some pk" "connect_finish X (ho_http W) F pk relay a = (r, a')"
  | (Begin) r where "host_start_begin a = (r, a')"
  | (Provision) cfg pass consent v F hdr r where "ap_start a = Some (Begun cfg pass consent v)"
      "host_start_provision X K W F hdr cfg pass consent v a = Some (r, a')"
  | (Finish) cfg h F r where "ap_start a = Some (Provisioned cfg h)" "host_start_finish X F cfg h a = (r, a')"
  | (Stop) r where "host_stop a = (r, a')"
  | (Beat) h s where "ap_host a = Some h" "a' = a\<lparr>ap_host := Some (h\<lparr>hh_status := s\<rparr>)\<rparr>"
  using assms
proof (cases rule: app_step.cases)
  case settings
  then show thesis by (rule Settings)
next
  case create
  then show thesis by (rule Frame [OF frames(1)])
next
  case import
  then show thesis by (rule Frame [OF frames(2)])
next
  case unlock
  then show thesis by (rule Frame [OF frames(3)])
next
  case lock
  then show thesis using Frame frames(4) by blast
next
  case connect_begin
  then show thesis using Frame frames(9) by blast
next
  case connect_finish
  then show thesis by (intro Connect)
next
  case status
  then show thesis by (rule Frame [OF frames(5)])
next
  case trial
  then show thesis by (rule Frame [OF frames(6)])
next
  case acquire
  then show thesis by (rule Frame [OF frames(7)])
next
  case chat
  then show thesis by (rule Frame [OF frames(8)])
next
  case start_begin
  then show thesis by (rule Begin)
next
  case start_provision
  then show thesis by (rule Provision)
next
  case start_finish
  then show thesis by (rule Finish)
next
  case stop
  then show thesis by (rule Stop)
next
  case beat
  then show thesis using Beat by blast
next
  case consent
  then show thesis by (rule Frame [OF frames(11)])
next
  case (world e)
  show thesis by (rule Frame) (simp add: world frame_def set_env_def)
qed

lemma trust_step:
  assumes "app_step X pinned K W a a'" and "pinned_registry_pk X pinned = Some pk" and "trust_inv X pk a"
  shows "trust_inv X pk a'"
  using assms(1)
proof (cases rule: app_step_cases)
  case Frame
  then show ?thesis using assms(3) by (simp add: frame_def trust_inv_def)
next
  case Settings
  then show ?thesis
    using assms(2,3) by (auto simp: set_settings_def trust_inv_def has_anchor_def Let_def split: command_splits)
next
  case (Connect relay pk' F r)
  then have "pk' = pk" using assms(2) by simp
  then show ?thesis
    using Connect(2) assms(3) pinned_trust_fetch [of X "ho_http W" relay pk]
    by (auto simp: connect_finish_def trust_inv_def set_env_def Let_def split: command_splits)
qed (use assms(3) in \<open>auto simp: trust_inv_def host_start_begin_def host_start_provision_def host_start_finish_def
       host_stop_def Let_def split: command_splits\<close>)

section \<open>Which model servers are left running\<close>

lemma leaves_auto_host:
  assumes "auto_host W cfg consent m = (r, m')" and "children_ok m"
  shows "leaves m (owned snd r) m'"
proof (cases "hc_upstream cfg = OpenAi \<and> trim (hc_openai_base cfg) = []")
  case True
  obtain found m1 where det: "detect_local_openai W m = (found, m1)" by fastforce
  have m1: "leaves m {} m1" using det by (simp add: detect_local_openai_def leaves_detect)
  show ?thesis
  proof (cases found)
    case (Some bd)
    have "ensure_model W t m1 = (s, m2) \<Longrightarrow> leaves m {} m2" for t s m2
      using leaves_then_nothing [OF m1 leaves_ensure_model] .
    then show ?thesis
      using assms(1) True det Some m1 by (auto simp: auto_host_def Let_def split: prod.splits if_splits sum.splits)
  next
    case None
    define inst where "inst = (if is_installed W (mc_env m1) then (Inr (), m1) else install W m1)"
    obtain q m2 where q: "inst = (q, m2)" by fastforce
    have m2: "leaves m {} m2"
      using q m1 leaves_then_nothing [OF m1 leaves_install] by (auto simp: inst_def split: if_splits)
    have eq: "auto_host W cfg consent m =
        (if \<not> is_installed W (mc_env m1) \<and> \<not> consent then (Inl ConsentNeeded, m1)
         else case q of Inl e \<Rightarrow> (Inl e, m2)
           | Inr _ \<Rightarrow> (case ensure_serving W m2 of (Inl e, m3) \<Rightarrow> (Inl e, m3)
               | (Inr child, m3) \<Rightarrow>
                   (case ensure_model W (model_tag (hc_ollama_model cfg)) m3 of
                      (Inl e, m4) \<Rightarrow> (Inl e, kill_child child m4)
                    | (Inr _, m4) \<Rightarrow> (Inr (cfg\<lparr>hc_upstream := OpenAi, hc_openai_base := OLLAMA_OPENAI_BASE,
                          hc_openai_model := model_tag (hc_ollama_model cfg)\<rparr>, child), m4))))"
      using True det None q [unfolded inst_def] unfolding auto_host_def Let_def by (cases q) auto
    obtain s m3 where s: "ensure_serving W m2 = (s, m3)" by fastforce
    have m3: "leaves m (owned id s) m3"
      using leaves_trans [OF m2 leaves_ensure_serving [OF s leaves_children_ok [OF m2 assms(2)]]] by simp
    obtain p m4 where p: "ensure_model W (model_tag (hc_ollama_model cfg)) m3 = (p, m4)" by fastforce
    have m4: "leaves m (owned id s) m4" using leaves_then_nothing [OF m3 leaves_ensure_model [OF p]] .
    show ?thesis
      using assms(1) m1 m2 m3 m4 leaves_kill [OF _ assms(2), of "projr s" m4] unfolding eq s
      by (cases q; cases s; cases p) (auto simp: p split: if_splits)
  qed
qed (use assms in \<open>auto simp: auto_host_def\<close>)

lemma leaves_provision:
  assumes "provision X K W F hdr cfg pass consent v d m = Some (r, d', m')" and "children_ok m"
  shows "leaves m (owned (hh_managed_ollama \<circ> snd) r) m'"
proof -
  obtain q m1 where q: "auto_host W cfg consent m = (q, m1)" by fastforce
  note m1 = leaves_auto_host [OF q assms(2)]
  show ?thesis
  proof (cases q)
    case (Inl e)
    then show ?thesis using assms(1) q m1 by (auto simp: provision_def)
  next
    case (Inr cm)
    obtain cfg' managed where cm: "cm = (cfg', managed)" by fastforce
    have own: "leaves m (set_option managed) m1" using m1 Inr cm by simp
    note kill = leaves_kill [OF own assms(2)]
    have dial: "HostHandle_start W cfg' hsk managed m1 = (s, m2) \<Longrightarrow> leaves m (owned hh_managed_ollama s) m2" for hsk s m2
      using leaves_start [OF _ own assms(2)] .
    have tunnel: "HostHandle_start_tunnel (dx_prims X) K W cfg' url bkid salt diff hsk hpk ask acct managed m1 = Some (s, m2) \<Longrightarrow>
        leaves m (owned hh_managed_ollama s) m2" for url bkid salt diff hsk hpk ask acct s m2
      using leaves_start_tunnel [OF _ own assms(2)] .
    show ?thesis
      using assms(1) q Inr cm kill by (auto simp: provision_def split: command_splits dest!: dial tunnel)
  qed
qed

definition held :: "HostHandle option \<Rightarrow> nat set" where
  "held h = (case h of None \<Rightarrow> {} | Some h \<Rightarrow> set_option (hh_managed_ollama h))"

definition in_flight :: "start_task option \<Rightarrow> nat set" where
  "in_flight t = (case t of Some (Provisioned cfg h) \<Rightarrow> set_option (hh_managed_ollama h) | _ \<Rightarrow> {})"

definition server_inv :: "'e app \<Rightarrow> bool" where
  "server_inv a \<longleftrightarrow> children_ok (ap_machine a)
     \<and> set (mc_children (ap_machine a)) = held (ap_host a) \<union> in_flight (ap_start a)
     \<and> (ap_starting a \<longleftrightarrow> ap_start a \<noteq> None) \<and> (ap_start a \<noteq> None \<longrightarrow> ap_host a = None)"

lemma held_simps [simp]: "held None = {}" "held (Some h) = set_option (hh_managed_ollama h)"
  by (simp_all add: held_def)

lemma in_flight_simps [simp]: "in_flight None = {}" "in_flight (Some (Begun cfg pass consent v)) = {}"
  "in_flight (Some (Provisioned cfg h)) = set_option (hh_managed_ollama h)"
  by (simp_all add: in_flight_def)

definition same_servers :: "'e app \<Rightarrow> 'e app \<Rightarrow> bool" where
  "same_servers a a' \<longleftrightarrow> ap_start a' = ap_start a \<and> ap_host a' = ap_host a \<and> ap_starting a' = ap_starting a
     \<and> mc_children (ap_machine a') = mc_children (ap_machine a) \<and> mc_next (ap_machine a') = mc_next (ap_machine a)"

lemma server_inv_same: "server_inv a \<Longrightarrow> same_servers a a' \<Longrightarrow> server_inv a'"
  by (simp add: server_inv_def children_ok_def same_servers_def)

lemma same_servers_settings: "set_settings X pinned F s a = (r, a') \<Longrightarrow> same_servers a a'"
  by (auto simp: set_settings_def same_servers_def Let_def split: command_splits)

lemma same_servers_connect: "connect_finish X send F pk relay a = (r, a') \<Longrightarrow> same_servers a a'"
  by (auto simp: connect_finish_def same_servers_def set_env_def Let_def split: command_splits)

lemma server_inv_stop:
  assumes "server_inv a" and "ap_host a = Some h"
  shows "server_inv (a\<lparr>ap_host := None, ap_machine := HostHandle_stop h (ap_machine a)\<rparr>)"
  using assms by (cases "hh_managed_ollama h") (auto simp: server_inv_def HostHandle_stop_def kill_child_def children_ok_def)

lemma server_step:
  assumes "app_step X pinned K W a a'" and "server_inv a"
  shows "server_inv a'"
  using assms(1)
proof (cases rule: app_step_cases)
  case Frame
  then show ?thesis by (intro server_inv_same [OF assms(2)]) (simp add: frame_def same_servers_def)
next
  case (Settings F s r)
  then show ?thesis using server_inv_same [OF assms(2)] same_servers_settings by blast
next
  case (Connect relay pk F r)
  then show ?thesis using server_inv_same [OF assms(2)] same_servers_connect by blast
next
  case (Begin r)
  then show ?thesis
    using assms(2) by (auto simp: host_start_begin_def server_inv_def split: command_splits)
next
  case (Provision cfg pass consent v F hdr r)
  have inv: "children_ok (ap_machine a)" "set (mc_children (ap_machine a)) = {}" "ap_host a = None" "ap_starting a"
    using assms(2) Provision(1) by (auto simp: server_inv_def)
  obtain q d m where q: "provision X K W F hdr cfg pass consent v (ap_disk a) (ap_machine a) = Some (q, d, m)"
    using Provision(2) by (auto simp: host_start_provision_def split: command_splits)
  from leaves_provision [OF q inv(1)] inv(2) have "set (mc_children m) = owned (hh_managed_ollama \<circ> snd) q" "children_ok m"
    using leaves_children_ok [OF leaves_provision [OF q inv(1)] inv(1)] by (auto simp: leaves_def)
  then show ?thesis
    using Provision(2) q inv(3,4) by (cases q) (auto simp: host_start_provision_def server_inv_def)
next
  case (Finish cfg h F r)
  then show ?thesis
    using assms(2) by (auto simp: host_start_finish_def server_inv_def Let_def)
next
  case (Stop r)
  then show ?thesis
    using assms(2) server_inv_stop [OF assms(2)] by (auto simp: host_stop_def split: option.splits)
next
  case (Beat h s)
  then show ?thesis
    using assms(2) by (auto simp: server_inv_def)
qed

text \<open>A locked session holds neither a passphrase nor tokens.\<close>

definition session_inv :: "'e app \<Rightarrow> bool" where
  "session_inv a \<longleftrightarrow> (ap_account a = None \<longleftrightarrow> ap_passphrase a = None) \<and> (ap_account a = None \<longrightarrow> ap_tokens a = [])"

lemma session_step:
  assumes "app_step X pinned K W a a'" and "session_inv a"
  shows "session_inv a'"
  using assms
  by (cases rule: app_step.cases)
    (auto simp: session_inv_def session_defs network_defs session_def set_settings_def connect_finish_def host_start_begin_def
      host_start_provision_def host_start_finish_def host_stop_def grant_ollama_consent_def bind_sum_def ok_or_def Let_def
      split: command_splits)

lemma reachable_trust:
  assumes "pinned_registry_pk X pinned = Some pk" and "app_reachable X pinned K W a"
  shows "trust_inv X pk a"
  using assms(2)
proof (induction rule: app_reachable_induct)
  case (start F d m)
  then show ?case using assms(1) by (simp add: AppState_new_def trust_inv_def has_anchor_def Let_def)
next
  case (step a a')
  then show ?case using trust_step assms(1) by blast
qed

lemma reachable_servers:
  assumes "app_reachable X pinned K W a"
  shows "server_inv a"
  using assms
proof (induction rule: app_reachable_induct)
  case (start F d m)
  then show ?case by (simp add: AppState_new_def server_inv_def children_ok_def Let_def)
qed (rule server_step)

lemma reachable_session:
  assumes "app_reachable X pinned K W a"
  shows "session_inv a"
  using assms
proof (induction rule: app_reachable_induct)
  case (start F d m)
  then show ?case by (simp add: AppState_new_def session_inv_def Let_def)
qed (rule session_step)

lemma build_client_parts:
  "ag_key_config (cli_agent (build_client url sk pk v)) = vn_gateway_kc v"
  "cli_expected_issuer_key_id (build_client url sk pk v) = vn_issuer_key_id v"
  by (simp_all add: build_client_def Client_new_def with_expected_issuer_key_id_def Let_def split: option.split)

section \<open>Properties\<close>

text \<open>
  C12: an anchored application trusts only the pinned key. In every state it can
  reach, whatever settings the interface supplies, whatever the relay serves and
  however commands interleave, every client a credit command builds seals to the
  gateway key and pins the issuer of a document signed by the registry key compiled
  into the build, and checks host snapshots against that key; and a locked
  session holds no passphrase and no tokens.
\<close>

theorem trust_is_pinned:
  assumes "pinned_registry_pk X pinned = Some pk" and "app_reachable X pinned K W a"
  shows "(\<forall>acct pass v c. session a = Inr (acct, pass, v, c) \<longrightarrow>
      (\<exists>sb doc. verify_bootstrap (dx_client X) pk sb = Inr doc \<and> vn_registry_pk v = pk
        \<and> ag_key_config (cli_agent c) = bd_gateway_kc doc \<and> cli_expected_issuer_key_id c = Some (bd_issuer_key_id doc)))
    \<and> (ap_account a = None \<longrightarrow> ap_passphrase a = None \<and> ap_tokens a = [])"
proof (intro conjI allI impI)
  fix acct pass v c
  assume "session a = Inr (acct, pass, v, c)"
  then have v: "ap_verified a = Some v" and c: "c = build_client (st_relay_url (ap_settings a)) (ac_sk acct) (ac_pk acct) v"
    by (auto simp: session_def bind_sum_def ok_or_def split: command_splits)
  obtain sb doc where "verify_bootstrap (dx_client X) pk sb = Inr doc" and "v = verified_of pk doc"
    using reachable_trust [OF assms] v by (auto simp: trust_inv_def pinned_trust_def)
  then show "\<exists>sb doc. verify_bootstrap (dx_client X) pk sb = Inr doc \<and> vn_registry_pk v = pk
      \<and> ag_key_config (cli_agent c) = bd_gateway_kc doc \<and> cli_expected_issuer_key_id c = Some (bd_issuer_key_id doc)"
    by (intro exI [of _ sb] exI [of _ doc]) (simp add: c build_client_parts verified_of_def)
qed (use reachable_session [OF assms(2)] in \<open>simp_all add: session_inv_def\<close>)


section \<open>A concrete run\<close>

text \<open>
  The environment is whether the local model server is up; the only remote answer
  is the relay's bootstrap blob.
\<close>

definition demo_reply :: http_resp where
  "demo_reply = \<lparr>hs_status = 200, hs_content_type = None, hs_retry_after = None, hs_body = Some [2]\<rparr>"

definition demo_os :: "bool host_os" where
  "demo_os = \<lparr>
     ho_http = (\<lambda>req up. (if up \<or> hq_url req = ''r/v1/bootstrap'' then Some demo_reply else None, up)),
     ho_which = (\<lambda>_. Some ''/o''), ho_is_file = (\<lambda>_ _. False), ho_install = (\<lambda>e. (None, e)),
     ho_spawn = (\<lambda>_ _. (True, True)), ho_pull = (\<lambda>e _. (None, e)), ho_sleep = (\<lambda>_ e. e), ho_bind = (\<lambda>_ _. True),
     ho_json_enc = (\<lambda>_. []), ho_json_dec = (\<lambda>_. Some (JObject [(''models'', JArray [JObject [(''name'', JString ''m'')]])])),
     ho_url = (\<lambda>_. None)\<rparr>"

definition demo_host_codec :: host_codec where
  "demo_host_codec = \<lparr>hcx_pair_enc = (\<lambda>_. Some []), hcx_pair_dec = (\<lambda>_. None), hcx_register = (\<lambda>_. None)\<rparr>"

definition demo_settings :: Settings where
  "demo_settings = Settings_default\<lparr>st_relay_url := ''r'',
     st_host := HostConfig_default\<lparr>hc_ingress_addr := ''http://h:1'', hc_ollama_model := ''m''\<rparr>\<rparr>"

definition demo_machine :: "bool machine" where
  "demo_machine = \<lparr>mc_env = False, mc_next = 0, mc_children = [], mc_events = []\<rparr>"

definition demo_app0 :: "string option \<Rightarrow> bool app" where
  "demo_app0 pinned = (AppState_new demo_desktop pinned disk_ok Map.empty demo_machine)
     \<lparr>ap_settings := demo_settings, ap_disk := [''settings.json'' \<mapsto> []]\<rparr>"

lemma app_reachable_step: "app_reachable X pinned K W a \<Longrightarrow> app_step X pinned K W a a' \<Longrightarrow> app_reachable X pinned K W a'"
  by (auto simp: app_reachable_def intro: rtranclp.rtrancl_into_rtrancl)

lemma app_reachable_new: "mc_children m = [] \<Longrightarrow> app_reachable X pinned K W (AppState_new X pinned F d m)"
  by (auto simp: app_reachable_def)

lemma demo_manual: "ok_option (manual_verified X Settings_default) = None" "ok_option (manual_verified X demo_settings) = None"
  by (simp_all add: manual_verified_def app_b64d_def trim_def bind_sum_def ok_option_def demo_settings_def Settings_default_def)

lemma demo_app0_reachable: "app_reachable demo_desktop pinned K W (demo_app0 pinned)"
proof (rule app_reachable_step [OF app_reachable_new app_step.settings])
  have "dx_settings_json demo_desktop s = Some []" for s by (simp add: demo_desktop_def)
  then show "set_settings demo_desktop pinned disk_ok demo_settings (AppState_new demo_desktop pinned disk_ok Map.empty demo_machine)
      = (Inr (), demo_app0 pinned)"
    by (simp add: set_settings_def Settings_save_def disk_save_def fs_write_def disk_ok_def AppState_new_def demo_app0_def
      Settings_load_def disk_read_def Let_def demo_manual)
qed (simp add: demo_machine_def)

text \<open>The session with an account.\<close>

definition demo_keystore :: bytes where
  "demo_keystore = ks_header (replicate 16 0) (replicate 24 0) @ replicate 16 6 @ replicate 16 0"

definition demo_app1 :: "string option \<Rightarrow> bool app" where
  "demo_app1 pinned = (demo_app0 pinned)\<lparr>ap_disk := [''settings.json'' \<mapsto> [], ''keystore.bin'' \<mapsto> demo_keystore],
     ap_account := Some demo_acct, ap_passphrase := Some ''pw''\<rparr>"

lemma demo_create_on:
  "Account_create demo_desktop disk_ok (replicate 16 6) (ad_seal demo_app_draws) ''pw'' d = (Inr demo_acct, d(''keystore.bin'' \<mapsto> demo_keystore))"
proof -
  have "snd (Account_create demo_desktop disk_ok (replicate 16 6) (ad_seal demo_app_draws) ''pw'' Map.empty) ''keystore.bin'' = Some demo_keystore"
    by (simp add: demo_create demo_keystore_def)
  moreover have "fst (Account_create demo_desktop disk_ok (replicate 16 6) (ad_seal demo_app_draws) ''pw'' Map.empty) = Inr demo_acct"
    by (simp add: demo_create)
  ultimately show ?thesis
    by (auto simp: Account_create_def account_mnemonic_new_def persist_def disk_save_def fs_write_def disk_ok_def demo_from_mnemonic
      split: sum.splits)
qed

lemma demo_app1_reachable: "app_reachable demo_desktop pinned K W (demo_app1 pinned)"
proof (rule app_reachable_step [OF demo_app0_reachable app_step.create])
  have "recovery_phrase demo_desktop demo_acct = Inr ''abandon''"
    by (simp add: recovery_phrase_def mnemonic_to_phrase_def demo_desktop_def demo_seed_def demo_acct_def)
  then show "create_account demo_desktop disk_ok (replicate 16 6) (ad_seal demo_app_draws) ''pw'' (demo_app0 pinned)
      = (Inr \<lparr>na_account_id_hex = account_id_hex demo_desktop demo_acct, na_recovery_phrase = ''abandon''\<rparr>, demo_app1 pinned)"
    by (simp add: create_account_def new_account_def demo_create_on open_session_def demo_app0_def demo_app1_def
      TokenStore_load_def AppState_new_def Let_def)
qed

lemma demo_pinned: "pinned_registry_pk demo_desktop (Some ''k'') = Some (replicate 32 1)"
  by (simp add: pinned_registry_pk_def trim_def is_space_def demo_desktop_def)

lemma demo_fetch:
  "fetch_bootstrap (dx_client demo_desktop) (ho_http demo_os) ''r'' (replicate 32 1) up = (Inr demo_doc, up)"
proof -
  have "bootstrap_verify demo_prims (replicate 32 1) [1] (sbs_sig demo_signed) = Inr ()"
    by (simp add: bootstrap_verify_def verify_msg_Inr demo_prims_def demo_signed_def is_ok_def demo_sig_def)
  then have "verify_bootstrap (dx_client demo_desktop) (replicate 32 1) demo_signed = Inr demo_doc"
    by (simp add: verify_bootstrap_def demo_desktop_def demo_boot_client_def demo_client_ext_def demo_signed_def)
      (simp add: demo_doc_def starts_with_def)
  moreover have "trim_end_matches (CHR ''/'') ''r'' = ''r''" by (simp add: trim_end_matches_def)
  ultimately show ?thesis
    by (simp add: fetch_bootstrap_def demo_os_def demo_reply_def) (simp add: demo_desktop_def demo_boot_client_def)
qed

definition demo_connected :: "bool app" where
  "demo_connected = (demo_app1 (Some ''k''))\<lparr>ap_verified := Some (verified_of (replicate 32 1) demo_doc),
     ap_settings := demo_settings\<lparr>st_gateway_kc_b64 := demo_b64 [4], st_registry_pk_b64 := demo_b64 (replicate 32 1),
       st_issuer_key_id_hex := hex (replicate 32 9)\<rparr>\<rparr>"

lemma demo_connected_reachable: "app_reachable demo_desktop (Some ''k'') K demo_os demo_connected"
proof (rule app_reachable_step [OF app_reachable_step [OF demo_app1_reachable app_step.connect_begin]
      app_step.connect_finish [OF _ demo_pinned]])
  have "dx_settings_json demo_desktop s = Some []" "dx_b64_encode demo_desktop = demo_b64" for s by (simp_all add: demo_desktop_def)
  then show "connect_finish demo_desktop (ho_http demo_os) disk_ok (replicate 32 1) ''r'' (connect_begin (demo_app1 (Some ''k'')))
      = (Inr (), demo_connected)"
    by (simp add: connect_finish_def connect_begin_def demo_fetch demo_app1_def demo_app0_def AppState_new_def demo_machine_def
      Settings_save_def disk_save_def fs_write_def disk_ok_def set_env_def demo_connected_def demo_settings_def Let_def demo_doc_def
      fun_upd_twist)
  show "''r'' \<in> set (ap_connecting (connect_begin (demo_app1 (Some ''k''))))"
    by (simp add: connect_begin_def demo_app1_def demo_app0_def demo_settings_def)
qed (simp add: has_anchor_def demo_pinned)

theorem trust_is_pinned_witness:
  "\<exists>v c sb doc. session demo_connected = Inr (demo_acct, ''pw'', v, c)
     \<and> verify_bootstrap (dx_client demo_desktop) (replicate 32 1) sb = Inr doc \<and> vn_registry_pk v = replicate 32 1
     \<and> ag_key_config (cli_agent c) = bd_gateway_kc doc \<and> cli_expected_issuer_key_id c = Some (bd_issuer_key_id doc)"
proof -
  obtain v c where s: "session demo_connected = Inr (demo_acct, ''pw'', v, c)"
    by (simp add: session_def demo_connected_def demo_app1_def bind_sum_def ok_or_def)
  with trust_is_pinned [OF demo_pinned demo_connected_reachable] show ?thesis by blast
qed

text \<open>A start that provisions the model server.\<close>

definition demo_host_draws :: host_draws where
  "demo_host_draws = \<lparr>hd_key_seed = [], hd_key_seal = ad_seal demo_app_draws, hd_entropy = [], hd_account_seal = ad_seal demo_app_draws\<rparr>"

lemma demo_dead: "server_up demo_os m = (mc_env m, m)"
  by (simp add: server_up_def http_get_def demo_os_def demo_reply_def is_success_def OLLAMA_HOST_def)

lemma demo_binary: "find_binary demo_os e = Some ''/o''"
  by (simp add: find_binary_def which_ollama_def first_line_def trim_def is_space_def demo_os_def)

lemma demo_serving:
  assumes "mc_env m = False"
  shows "\<exists>m'. ensure_serving demo_os m = (Inr (Some (mc_next m)), m') \<and> mc_env m'"
proof -
  define m1 where "m1 = snd (spawn_child demo_os ''/o'' (emit ''serve'' ''Starting the Ollama server'' None m))"
  have sp: "spawn_child demo_os ''/o'' (emit ''serve'' ''Starting the Ollama server'' None m) = (Some (mc_next m), m1)" and up: "mc_env m1"
    by (simp_all add: m1_def spawn_child_def demo_os_def emit_def)
  have "mc_env (sleep_ms demo_os 500 m1)" using up by (simp add: sleep_ms_def demo_os_def)
  then have "await_server demo_os 40 (mc_next m) m1
      = (Inr (Some (mc_next m)), emit ''serve'' ''Ollama server is up.'' None (sleep_ms demo_os 500 m1))"
    using await_server.simps(2) [of demo_os 39 "mc_next m" m1] by (simp add: demo_dead)
  then show ?thesis
    using assms up sp by (simp add: ensure_serving_def demo_dead demo_binary) (simp add: emit_def sleep_ms_def demo_os_def)
qed

lemma demo_has: "mc_env m \<Longrightarrow> ensure_model demo_os ''m'' m = (Inr (), m)"
  by (simp add: ensure_model_def has_model_def http_get_def demo_os_def demo_reply_def OLLAMA_HOST_def model_present_def json_get_def
    json_array_def json_str_def trim_def is_space_def)

lemma demo_none_running: "mc_env m = False \<Longrightarrow> detect_local_openai demo_os m = (None, m)"
  by (simp add: detect_local_openai_def CANDIDATES_def http_get_def demo_os_def Let_def)

lemma demo_provision:
  assumes "mc_env m = False" and "d ''host_key.bin'' = None"
  shows "\<exists>cfg h d' m'. provision demo_desktop demo_host_codec demo_os disk_ok demo_host_draws (st_host demo_settings) ''pw'' False None d m
      = Some (Inr (cfg, h), d', m') \<and> hh_managed_ollama h = Some (mc_next m)"
proof -
  obtain m1 where m1: "ensure_serving demo_os m = (Inr (Some (mc_next m)), m1)" "mc_env m1" using demo_serving [OF assms(1)] by blast
  have cfg: "hc_upstream (st_host demo_settings) = OpenAi" "trim (hc_openai_base (st_host demo_settings)) = []"
    "hc_ollama_model (st_host demo_settings) = ''m''" "hc_ingress_addr (st_host demo_settings) = ''http://h:1''"
    by (simp_all add: demo_settings_def HostConfig_default_def trim_def)
  let ?cfg = "(st_host demo_settings)\<lparr>hc_upstream := OpenAi, hc_openai_base := OLLAMA_OPENAI_BASE, hc_openai_model := ''m''\<rparr>"
  have tag: "trim ''m'' = ''m''" by (simp add: trim_def is_space_def)
  have a: "auto_host demo_os (st_host demo_settings) False m = (Inr (?cfg, Some (mc_next m)), m1)"
    by (simp add: auto_host_def cfg demo_none_running assms(1) is_installed_def demo_binary m1 demo_has model_tag_def tag)
  obtain hsk hpk d' where k: "load_or_create_host_key demo_desktop demo_host_codec disk_ok [] (ad_seal demo_app_draws) ''pw'' d
      = (Inr (hsk, hpk), d')"
    using assms(2)
    by (simp add: load_or_create_host_key_def host_keygen_def demo_desktop_def demo_boot_client_def demo_client_ext_def demo_hpke_def
      demo_host_codec_def seal_bytes_def derive_kek_def demo_prims_def disk_save_def disk_ok_def fs_write_def Let_def)
  have "select_upstream ?cfg = Inr (UseOpenAi (OpenAiUpstream_new OLLAMA_OPENAI_BASE ''m'' (hc_openai_api_key (st_host demo_settings))))"
    by (simp add: select_upstream_def OLLAMA_OPENAI_BASE_def trim_def is_space_def)
  moreover have "port_from_ingress ''http://h:1'' = Inr 1" "trim ''http://h:1'' \<noteq> []"
    by (simp_all add: port_from_ingress_def parse_uint_def is_decimal_def trim_def is_space_def)
  moreover have "ho_bind demo_os e p" for e p by (simp add: demo_os_def)
  ultimately have "\<exists>h m2. HostHandle_start demo_os ?cfg hsk (Some (mc_next m)) m1 = (Inr h, m2)
      \<and> hh_managed_ollama h = Some (mc_next m)"
    by (simp add: HostHandle_start_def cfg split: prod.split)
  with a k show ?thesis by (auto simp: provision_def demo_host_draws_def tunnel_params_def)
qed

lemma demo_serves: "\<exists>a. app_reachable demo_desktop None demo_host_codec demo_os a \<and> held (ap_host a) = {0} \<and> \<not> ap_starting a"
proof -
  define b where "b = snd (host_start_begin (demo_app1 None))"
  have fields: "ap_starting (demo_app1 None) = False" "ap_account (demo_app1 None) = Some demo_acct" "ap_host (demo_app1 None) = None"
    "ap_passphrase (demo_app1 None) = Some ''pw''" "ap_settings (demo_app1 None) = demo_settings" "ap_verified (demo_app1 None) = None"
    "ap_machine (demo_app1 None) = demo_machine" "ap_disk (demo_app1 None) ''host_key.bin'' = None"
    by (simp_all add: demo_app1_def demo_app0_def AppState_new_def Let_def has_anchor_def Settings_load_def disk_read_def
      demo_manual)
  have consent: "st_ollama_install_consent demo_settings = False" by (simp add: demo_settings_def Settings_default_def)
  have b: "host_start_begin (demo_app1 None) = (Inr (), b)"
    "b = (demo_app1 None)\<lparr>ap_starting := True, ap_start := Some (Begun (st_host demo_settings) ''pw'' False None)\<rparr>"
    by (simp_all add: b_def host_start_begin_def fields consent)
  have r1: "app_reachable demo_desktop None demo_host_codec demo_os b"
    by (rule app_reachable_step [OF demo_app1_reachable app_step.start_begin [OF b(1)]])
  obtain cfg h d m where p: "provision demo_desktop demo_host_codec demo_os disk_ok demo_host_draws (st_host demo_settings) ''pw''
      False None (ap_disk b) (ap_machine b) = Some (Inr (cfg, h), d, m)" and h: "hh_managed_ollama h = Some 0"
    using demo_provision [of "ap_machine b" "ap_disk b"] by (auto simp: b(2) fields demo_machine_def)
  define a where "a = b\<lparr>ap_disk := d, ap_machine := m, ap_start := Some (Provisioned cfg h)\<rparr>"
  have hp: "host_start_provision demo_desktop demo_host_codec demo_os disk_ok demo_host_draws (st_host demo_settings) ''pw'' False None b
      = Some (Inr (), a)" by (simp add: host_start_provision_def p a_def)
  have r2: "app_reachable demo_desktop None demo_host_codec demo_os a"
    by (rule app_reachable_step [OF r1 app_step.start_provision [OF _ hp]]) (simp add: b(2))
  obtain r c where f: "host_start_finish demo_desktop disk_ok cfg h a = (r, c)" by fastforce
  have "app_reachable demo_desktop None demo_host_codec demo_os c"
    by (rule app_reachable_step [OF r2 app_step.start_finish [OF _ f]]) (simp add: a_def)
  moreover have "ap_host c = Some h" "\<not> ap_starting c"
    using f by (auto simp: host_start_finish_def a_def b(2) fields Let_def)
  ultimately show ?thesis using h by auto
qed


end
