(* ===== verification/Runtime_Models.thy ===== *)
theory Runtime_Models
  imports Operator_Tools "HOL-Library.Product_Lexorder"
begin

text \<open>
  Which model a host serves and how it gets it: the model and hardware types of
  \<open>lluma-core\<close>, the catalogue and the verified download of \<open>lluma-registry\<close>,
  the recommendation, hardware profile and runners of \<open>lluma-runtime\<close>, and the
  desktop's hardware report (\<open>hardware.rs\<close>). An \<open>f32\<close> is its bit pattern; the
  llama.cpp bindings, \<open>sysinfo\<close>, NVML and \<open>nvidia-smi\<close> are parameters.
\<close>

section \<open>Types (lluma-core)\<close>

datatype Quant = Q4KM | Q5KM | Q8 | F16

definition Quant_display :: "Quant \<Rightarrow> string" where
  "Quant_display q = (case q of Q4KM \<Rightarrow> ''Q4_K_M'' | Q5KM \<Rightarrow> ''Q5_K_M'' | Q8 \<Rightarrow> ''Q8_0'' | F16 \<Rightarrow> ''F16'')"

type_synonym f32 = "32 word"

record ModelSpec =
  ms_id :: ModelId
  ms_display_name :: string
  ms_quant :: Quant
  ms_params_billions :: f32
  ms_download_bytes :: u64
  ms_min_ram_bytes :: u64
  ms_blake3_hex :: string
  ms_url :: string

record ModelRecommendation =
  mr_spec :: ModelSpec
  mr_reason :: string

record HardwareProfile =
  hw_ram_bytes :: u64
  hw_vram_bytes :: "u64 option"
  hw_cpu_cores :: nat
  hw_disk_free_bytes :: u64

datatype LlumaError =
  NoFittingModel u64 | ModelNotFound string | HashMismatch string string | Download string | Backend string | LIo

text \<open>\<open>f32::total_cmp\<close>: the order of the bit patterns with the magnitude of negative numbers reversed.\<close>

definition total_key :: "f32 \<Rightarrow> int" where
  "total_key x = sint (x XOR drop_bit 1 (signed_drop_bit 31 x))"

section \<open>The catalogue and the download (lluma-registry)\<close>

definition builtin_catalog :: "ModelSpec list" where
  "builtin_catalog =
     [\<lparr>ms_id = ''qwen2.5-0.5b-instruct'', ms_display_name = ''Qwen2.5 0.5B Instruct'', ms_quant = Q4KM,
       ms_params_billions = 0x3F000000, ms_download_bytes = 400000000, ms_min_ram_bytes = 1500000000, ms_blake3_hex = [], ms_url = []\<rparr>,
      \<lparr>ms_id = ''llama-3.1-8b-instruct'', ms_display_name = ''Llama 3.1 8B Instruct'', ms_quant = Q4KM,
       ms_params_billions = 0x41000000, ms_download_bytes = 4920000000, ms_min_ram_bytes = 6500000000, ms_blake3_hex = [], ms_url = []\<rparr>]"

definition find_spec :: "ModelSpec list \<Rightarrow> ModelId \<Rightarrow> LlumaError + ModelSpec" where
  "find_spec catalog i = ok_or (List.find (\<lambda>s. ms_id s = i) catalog) (ModelNotFound i)"

definition verify_blake3 :: "prims \<Rightarrow> bytes \<Rightarrow> string \<Rightarrow> LlumaError + unit" where
  "verify_blake3 P b expected_hex =
     (let actual = hex (blake3 P b) in if actual = expected_hex then Inr () else Inl (HashMismatch expected_hex actual))"

text \<open>The response to the download: its status, and the chunks, the last of which may be an error.\<close>

record download_stream =
  ds_status :: u16
  ds_chunks :: "(string + bytes) list"

fun collect_chunks :: "(string + bytes) list \<Rightarrow> bytes \<Rightarrow> LlumaError + bytes" where
  "collect_chunks [] buf = Inr buf"
| "collect_chunks (Inl e # cs) buf = Inl (Download e)"
| "collect_chunks (Inr c # cs) buf = collect_chunks cs (buf @ c)"

text \<open>\<open>fetch\<close> is the HTTP request (\<open>Inl\<close> a transport error), \<open>mkdir_ok\<close> and \<open>F\<close> the faults of the file system.\<close>

definition download_verified ::
  "prims \<Rightarrow> (string \<Rightarrow> string + download_stream) \<Rightarrow> bool \<Rightarrow> wfault \<Rightarrow> ModelSpec \<Rightarrow> string \<Rightarrow> files \<Rightarrow>
   (LlumaError + string) \<times> files" where
  "download_verified P fetch mkdir_ok F spec dest_dir fs =
     (let final_path = join_path dest_dir (ms_id spec @ ''-'' @ Quant_display (ms_quant spec) @ ''.gguf'') in
      if \<not> mkdir_ok then (Inl LIo, fs)
      else case fetch (ms_url spec) of Inl e \<Rightarrow> (Inl (Download e), fs)
        | Inr resp \<Rightarrow>
            if \<not> is_success (ds_status resp) then (Inl (Download ''http status''), fs)
            else (case collect_chunks (ds_chunks resp) [] of Inl e \<Rightarrow> (Inl e, fs)
              | Inr buf \<Rightarrow>
                  let actual = hex (blake3 P buf) in
                  if actual \<noteq> ms_blake3_hex spec then (Inl (HashMismatch (ms_blake3_hex spec) actual), fs)
                  else let (written, fs') = fs_write F final_path buf fs in
                       (if written then Inr final_path else Inl LIo, fs')))"

section \<open>Hardware and recommendation (lluma-runtime)\<close>

text \<open>\<open>disks\<close> are the free bytes of the disks found, \<open>vram\<close> what NVML reports.\<close>

definition detect_profile :: "u64 \<Rightarrow> nat \<Rightarrow> u64 list \<Rightarrow> u64 option \<Rightarrow> HardwareProfile" where
  "detect_profile ram cores disks vram =
     \<lparr>hw_ram_bytes = ram, hw_vram_bytes = vram, hw_cpu_cores = max cores 1,
      hw_disk_free_bytes = (if disks = [] then 0 else foldl max (hd disks) (tl disks))\<rparr>"

definition usable :: "HardwareProfile \<Rightarrow> u64" where
  "usable p = (case hw_vram_bytes p of Some v \<Rightarrow> v | None \<Rightarrow> hw_ram_bytes p)"

text \<open>The comparator of the sort: needed models first, then the larger, and the sort is stable.\<close>

definition model_rank :: "string list \<Rightarrow> ModelSpec \<Rightarrow> bool \<times> int" where
  "model_rank undersupplied s = (ms_id s \<notin> set undersupplied, - total_key (ms_params_billions s))"

definition recommend ::
  "HardwareProfile \<Rightarrow> ModelSpec list \<Rightarrow> string list \<Rightarrow> LlumaError + ModelRecommendation" where
  "recommend profile catalog undersupplied =
     (let fitting = filter (\<lambda>s. ms_min_ram_bytes s \<le> usable profile) catalog in
      if fitting = [] then Inl (NoFittingModel (hw_ram_bytes profile))
      else let best = hd (sort_key (model_rank undersupplied) fitting);
               reason = (if ms_id best \<in> set undersupplied
                         then ''Fits your hardware and the network needs '' @ ms_display_name best @ '' right now.''
                         else ''Best fit for your hardware ('' @ ms_display_name best @ '').'') in
           Inr \<lparr>mr_spec = best, mr_reason = reason\<rparr>)"

section \<open>Runners (runner.rs)\<close>

record GenerateRequest =
  gq_prompt :: string
  gq_max_tokens :: nat

text \<open>A run returns its result and the pieces it streamed.\<close>

definition mock_generate :: "string list \<Rightarrow> GenerateRequest \<Rightarrow> (LlumaError + string) \<times> string list" where
  "mock_generate script req =
     (let pieces = take (max (gq_max_tokens req) 1) script in (Inr (concat pieces), pieces))"

text \<open>llama.cpp: contexts, tokenisation, batches and sampling, with its state threaded.\<close>

record 's llama =
  ll_context :: "string + 's"
  ll_tokenize :: "string \<Rightarrow> string + nat list"
  ll_add :: "nat \<Rightarrow> nat \<Rightarrow> bool \<Rightarrow> 's \<Rightarrow> string + 's"
  ll_decode :: "'s \<Rightarrow> string + 's"
  ll_sample :: "'s \<Rightarrow> nat \<times> 's"
  ll_is_eog :: "nat \<Rightarrow> bool"
  ll_piece :: "nat \<Rightarrow> 's \<Rightarrow> string + string \<times> 's"
  ll_clear :: "'s \<Rightarrow> 's"

fun fill_batch :: "'s llama \<Rightarrow> nat \<Rightarrow> nat \<Rightarrow> nat list \<Rightarrow> 's \<Rightarrow> string + 's" where
  "fill_batch L i n [] s = Inr s"
| "fill_batch L i n (t # ts) s = bind_sum (ll_add L t i (i = n) s) (fill_batch L (Suc i) n ts)"

text \<open>The sampling loop: at most \<open>fuel\<close> tokens; \<open>acc\<close> holds the pieces streamed so far.\<close>

fun sample_loop :: "'s llama \<Rightarrow> nat \<Rightarrow> nat \<Rightarrow> string list \<Rightarrow> 's \<Rightarrow> (LlumaError + string) \<times> string list" where
  "sample_loop L 0 n_cur acc s = (Inr (concat acc), acc)"
| "sample_loop L (Suc fuel) n_cur acc s =
     (let (next_tok, s1) = ll_sample L s in
      if ll_is_eog L next_tok then (Inr (concat acc), acc)
      else case ll_piece L next_tok s1 of Inl e \<Rightarrow> (Inl (Backend e), acc)
        | Inr (piece, s2) \<Rightarrow>
            (case bind_sum (ll_add L next_tok n_cur True (ll_clear L s2)) (ll_decode L) of
               Inl e \<Rightarrow> (Inl (Backend e), acc @ [piece])
             | Inr s3 \<Rightarrow> sample_loop L fuel (Suc n_cur) (acc @ [piece]) s3))"

definition llama_generate :: "'s llama \<Rightarrow> GenerateRequest \<Rightarrow> (LlumaError + string) \<times> string list" where
  "llama_generate L req =
     (case ll_context L of Inl e \<Rightarrow> (Inl (Backend e), [])
      | Inr s \<Rightarrow>
          (case ll_tokenize L (gq_prompt req) of Inl e \<Rightarrow> (Inl (Backend e), [])
           | Inr tokens \<Rightarrow>
               (case bind_sum (fill_batch L 0 (length tokens - 1) tokens s) (ll_decode L) of Inl e \<Rightarrow> (Inl (Backend e), [])
                | Inr s' \<Rightarrow> sample_loop L (gq_max_tokens req) (length tokens) [] s')))"

section \<open>The desktop's hardware report (hardware.rs)\<close>

record HardwareInfo =
  hi_gpu :: string
  hi_vram_mb :: u64
  hi_backend :: string

record ModelOption =
  mo_tag :: string
  mo_label :: string
  mo_params :: string
  mo_min_vram_mb :: u64
  mo_tier :: string
  mo_fits :: bool

text \<open>\<open>out\<close> is the standard output of a successful \<open>nvidia-smi\<close>.\<close>

definition nvidia_smi :: "string option \<Rightarrow> HardwareInfo option" where
  "nvidia_smi out =
     Option.bind out (\<lambda>s.
       if s = [] then None
       else let line = takeWhile (\<lambda>c. (of_char c :: nat) \<noteq> 10) s; parts = map trim (split_on (CHR '','') line) in
            if length parts < 2 then None
            else map_option (\<lambda>v. \<lparr>hi_gpu = parts ! 0, hi_vram_mb = of_nat v, hi_backend = ''cuda''\<rparr>) (parse_uint 64 (parts ! 1)))"

definition detect_gpu :: "string option \<Rightarrow> HardwareInfo" where
  "detect_gpu out =
     (case nvidia_smi out of Some hw \<Rightarrow> hw
      | None \<Rightarrow> \<lparr>hi_gpu = ''No NVIDIA GPU detected: CPU inference (small models only)'', hi_vram_mb = 0, hi_backend = ''cpu''\<rparr>)"

definition CATALOG :: "(string \<times> string \<times> string \<times> u64 \<times> string) list" where
  "CATALOG =
     [(''qwen2.5:0.5b'', ''Qwen2.5 0.5B'', ''0.5B'', 1000, ''starter''),
      (''llama3.2:1b'', ''Llama 3.2 1B'', ''1B'', 2000, ''starter''),
      (''qwen2.5:3b'', ''Qwen2.5 3B'', ''3B'', 4000, ''standard''),
      (''qwen2.5:7b'', ''Qwen2.5 7B'', ''7B'', 6500, ''standard''),
      (''llama3.1:8b'', ''Llama 3.1 8B'', ''8B'', 7000, ''standard''),
      (''qwen2.5:14b'', ''Qwen2.5 14B'', ''14B'', 11000, ''advanced''),
      (''qwen2.5:32b'', ''Qwen2.5 32B'', ''32B'', 22000, ''advanced'')]"

definition recommend_models :: "u64 \<Rightarrow> ModelOption list" where
  "recommend_models vram_mb =
     map (\<lambda>(tag, label, params, min, tier).
       \<lparr>mo_tag = tag, mo_label = label, mo_params = params, mo_min_vram_mb = min, mo_tier = tier,
        mo_fits = (if vram_mb = 0 then min \<le> 2000 else min \<le> vram_mb)\<rparr>) CATALOG"

text \<open>\<open>max_by_key\<close>: the last of the largest.\<close>

fun max_by_key :: "('a \<Rightarrow> 'b::linorder) \<Rightarrow> 'a list \<Rightarrow> 'a option" where
  "max_by_key f [] = None"
| "max_by_key f (x # xs) = (case max_by_key f xs of None \<Rightarrow> Some x | Some y \<Rightarrow> if f y < f x then Some x else Some y)"

definition default_model_for :: "u64 \<Rightarrow> string" where
  "default_model_for vram_mb =
     (let models = recommend_models vram_mb;
          pick = (if vram_mb = 0 then List.find mo_fits models else max_by_key mo_min_vram_mb (filter mo_fits models)) in
      case pick of Some m \<Rightarrow> mo_tag m
      | None \<Rightarrow> (case models of m # _ \<Rightarrow> mo_tag m | [] \<Rightarrow> ''qwen2.5:0.5b''))"

record HardwareReport =
  hrp_hardware :: HardwareInfo
  hrp_models :: "ModelOption list"
  hrp_recommended :: string

definition report :: "string option \<Rightarrow> HardwareReport" where
  "report out =
     (let hardware = detect_gpu out in
      \<lparr>hrp_hardware = hardware, hrp_models = recommend_models (hi_vram_mb hardware),
       hrp_recommended = default_model_for (hi_vram_mb hardware)\<rparr>)"

section \<open>Facts\<close>

lemma max_by_key_None: "max_by_key f xs = None \<longleftrightarrow> xs = []"
  by (cases xs) (auto split: option.splits)

lemma max_by_key_Some: "max_by_key f xs = Some m \<Longrightarrow> m \<in> set xs \<and> (\<forall>x\<in>set xs. f x \<le> f m)"
proof (induction xs arbitrary: m)
  case (Cons a xs)
  show ?case
  proof (cases "max_by_key f xs")
    case None
    then show ?thesis using Cons.prems by (simp add: max_by_key_None)
  next
    case (Some y)
    with Cons.IH [OF Some] Cons.prems show ?thesis
      by (auto split: if_splits intro: order.trans [OF _ less_imp_le])
  qed
qed simp

lemma sample_loop_pieces:
  "sample_loop L fuel n acc s = (r, pieces) \<Longrightarrow>
     length pieces \<le> length acc + fuel \<and> take (length acc) pieces = acc \<and> (\<forall>out. r = Inr out \<longrightarrow> out = concat pieces)"
proof (induction fuel arbitrary: n acc s)
  case (Suc fuel)
  have "length (acc @ [p]) + fuel = length acc + Suc fuel" "take (length acc) xs = acc"
    if "take (length (acc @ [p])) xs = acc @ [p]" for p xs
    using that by (simp, metis append_eq_conv_conj take_take min.absorb1 le_add1 length_append)
  then show ?case
    using Suc.prems Suc.IH [of "Suc n" "acc @ [p]" for p]
    by (auto simp: Let_def split: prod.splits if_splits sum.splits)
qed auto

lemma llama_streams:
  "llama_generate L req = (r, pieces) \<Longrightarrow> length pieces \<le> gq_max_tokens req \<and> (\<forall>out. r = Inr out \<longrightarrow> out = concat pieces)"
  by (auto simp: llama_generate_def split: sum.splits dest!: sample_loop_pieces)

text \<open>The head of a stable sort is the first of the least elements.\<close>

lemma first_least:
  assumes "xs \<noteq> []"
  shows "\<exists>us vs. xs = us @ hd (sort_key f xs) # vs \<and> (\<forall>x\<in>set us. f (hd (sort_key f xs)) < f x)
    \<and> (\<forall>x\<in>set vs. f (hd (sort_key f xs)) \<le> f x)"
proof (cases "sort_key f xs")
  case Nil
  then show ?thesis using assms set_sort [of f xs] by simp
next
  case (Cons b ys)
  have "sorted (map f (b # ys))" unfolding Cons [symmetric] by simp
  then have least: "f b \<le> f x" if "x \<in> set xs" for x
    using that set_sort [of f xs] unfolding Cons by auto
  have "filter (\<lambda>x. f x = f b) xs = b # filter (\<lambda>x. f x = f b) ys"
    using sort_key_stable [of f "f b" xs] by (simp add: Cons)
  then obtain us vs where x: "xs = us @ b # vs" and u: "\<forall>u\<in>set us. f u \<noteq> f b"
    unfolding filter_eq_Cons_iff by blast
  have "f b < f x" if "x \<in> set us" for x
    using least [of x] bspec [OF u that] that x by (simp add: order.strict_iff_order)
  moreover have "f b \<le> f x" if "x \<in> set vs" for x using least [of x] that x by simp
  ultimately show ?thesis using x unfolding Cons list.sel by (intro exI [of _ us] exI [of _ vs]) simp
qed

lemma filter_split:
  assumes "filter P xs = us @ b # vs"
  shows "\<exists>xs1 xs2. xs = xs1 @ b # xs2 \<and> P b \<and> filter P xs1 = us \<and> filter P xs2 = vs"
  using assms
proof (induction xs arbitrary: us)
  case (Cons a xs)
  show ?case
  proof (cases "P a \<and> us = []")
    case True
    with Cons.prems show ?thesis by (intro exI [of _ "[]"] exI [of _ xs]) auto
  next
    case False
    define us' where "us' = (if P a then tl us else us)"
    have us: "us = (if P a then a # us' else us')" and "filter P xs = us' @ b # vs"
      using Cons.prems False by (cases us; auto simp: us'_def split: if_splits)+
    from Cons.IH [OF this(2)] obtain xs1 xs2 where
      "xs = xs1 @ b # xs2" "P b" "filter P xs1 = us'" "filter P xs2 = vs" by (elim exE conjE)
    then show ?thesis using us by (intro exI [of _ "a # xs1"] exI [of _ xs2]) simp
  qed
qed simp

lemma collect_chunks_ok: "collect_chunks cs buf = Inr b \<Longrightarrow> b = buf @ concat (map projr cs)"
  by (induction cs buf rule: collect_chunks.induct) auto

text \<open>
  The download writes nothing but its own file, and that only with the verified
  bytes: a success leaves exactly the bytes received, with the digest of the
  catalogue, and a failed write can leave only a part of them behind.
\<close>

lemma download_only_verified:
  assumes d: "download_verified P fetch mkdir_ok F spec dir fs = (r, fs')"
  shows "fs' = fs \<and> isl r \<or>
    (\<exists>resp body k. fetch (ms_url spec) = Inr resp \<and> body = concat (map projr (ds_chunks resp))
       \<and> verify_blake3 P body (ms_blake3_hex spec) = Inr ()
       \<and> fs' = fs(join_path dir (ms_id spec @ ''-'' @ Quant_display (ms_quant spec) @ ''.gguf'') \<mapsto> take k body)
       \<and> (isl r \<or> take k body = body))"
proof (cases "fs' = fs \<and> isl r")
  case False
  with d obtain resp buf where f: "fetch (ms_url spec) = Inr resp" "collect_chunks (ds_chunks resp) [] = Inr buf"
    by (auto simp: download_verified_def Let_def split: if_splits sum.splits)
  then have h: "hex (blake3 P buf) = ms_blake3_hex spec" "F \<noteq> WOpen"
    and b: "buf = concat (map projr (ds_chunks resp))"
    using d False by (auto simp: download_verified_def Let_def fs_write_def dest!: collect_chunks_ok split: if_splits)
  have "\<exists>k. fs' = fs(join_path dir (ms_id spec @ ''-'' @ Quant_display (ms_quant spec) @ ''.gguf'') \<mapsto> take k buf)
      \<and> (isl r \<or> take k buf = buf)"
  proof (cases F)
    case WOk
    then show ?thesis using d False f h
      by (intro exI [of _ "length buf"]) (auto simp: download_verified_def Let_def fs_write_def split: if_splits)
  next
    case (WShort k)
    then show ?thesis using d False f h
      by (intro exI [of _ k]) (auto simp: download_verified_def Let_def fs_write_def split: if_splits)
  qed (use h(2) in simp)
  then show ?thesis using f(1) h(1) b by (auto simp: verify_blake3_def Let_def)
qed auto

text \<open>The placeholders of the built-in catalogue are refused whatever is downloaded.\<close>

lemma builtin_never_downloads:
  assumes "\<And>b. blake3 P b \<noteq> []" and "spec \<in> set builtin_catalog"
  shows "isl (fst (download_verified P fetch mkdir_ok F spec dir fs)) \<and> snd (download_verified P fetch mkdir_ok F spec dir fs) = fs"
proof -
  have "ms_blake3_hex spec = []" using assms(2) by (auto simp: builtin_catalog_def)
  moreover have "hex (blake3 P b) \<noteq> []" for b
    using assms(1) [of b] length_hex [of "blake3 P b"] by (metis length_0_conv mult_eq_0_iff zero_neq_numeral)
  ultimately show ?thesis by (auto simp: download_verified_def Let_def split: sum.splits)
qed

text \<open>Video memory that holds some model of the table never makes the desktop pick one that does not fit.\<close>

lemma default_model_fits:
  assumes "1000 \<le> vram" shows "\<exists>m\<in>set (recommend_models vram). mo_tag m = default_model_for vram \<and> mo_fits m
    \<and> (\<forall>x\<in>set (recommend_models vram). mo_fits x \<longrightarrow> mo_min_vram_mb x \<le> mo_min_vram_mb m)"
proof -
  let ?fit = "filter mo_fits (recommend_models vram)"
  have v: "vram \<noteq> 0" using assms by auto
  have "?fit \<noteq> []" using assms v by (auto simp: recommend_models_def CATALOG_def)
  then obtain m where m: "max_by_key mo_min_vram_mb ?fit = Some m" by (meson max_by_key_None not_None_eq)
  then have "default_model_for vram = mo_tag m" using v by (simp add: default_model_for_def Let_def)
  with max_by_key_Some [OF m] show ?thesis by auto
qed

section \<open>Properties\<close>



end
