(* ===== verification/Spec2Isabelle.thy ===== *)
theory Spec2Isabelle
  imports Market Origin_Routes Wire_Codecs Tunnel_Session Desktop_App Runtime_Models
begin

text \<open>
  A verification development for Lluma, a privacy-preserving marketplace for
  language-model inference (the Rust crates under \<open>src/crates/\<close> and the
  desktop application under \<open>src/apps/lluma-desktop/src-tauri/\<close>).

  \<^bold>\<open>The program.\<close> A client buys blind-signed tokens from the issuer
  (\<open>lluma-issuer\<close>) with credits of a pseudonymous account, and spends one
  token per request at the broker (\<open>lluma-broker\<close>), which forwards the sealed
  request to a registered host, over HTTP or down a reverse tunnel the host keeps
  open, and credits the host one credit when it submits a signed receipt. The
  co-located origin (\<open>lluma-broker/src/main.rs\<close>) runs both services on one
  durable store. \<open>lluma-core\<close> holds the wire types and \<open>lluma-crypto\<close>
  the signatures, tokens, proof of work, key storage and encrypted channels they
  share. A request of a client (\<open>lluma-client\<close>) travels in an oblivious-HTTP
  capsule (\<open>lluma-net\<close>) through a relay (\<open>lluma-relay\<close>), which sees the
  address and not the content, and a gateway (\<open>lluma-gateway\<close>), which sees the
  content and not the address, to the broker; the host (\<open>lluma-host\<close>) opens the
  sealed prompt, asks its model and seals the answer to the client. The operator
  makes the keys and the signed bootstrap document with \<open>lluma-keygen\<close>;
  \<open>lluma-registry\<close> and \<open>lluma-runtime\<close> choose, fetch and run models. The
  desktop application is client and host in one: it keeps an account and a wallet
  on disk, connects through a relay whose document must be signed by a compiled-in
  key, and serves a model it may have to install and start itself.

  \<^bold>\<open>The theories\<close>, in the order of the code:

  \<^item> \<open>Lluma_Prelude\<close>: saturating arithmetic on machine words, little-endian
    bytes, ordered tables (the redb tables), sums over tables.
  \<^item> \<open>Core_Wire\<close>: \<open>lluma-core/src/wire.rs\<close> and \<open>proto.rs\<close>, the
    data types and every \<open>validate\<close>. \<open>Core_Json\<close> and \<open>Core_Dto\<close>: the
    JSON form of these types, from their fields and serde attributes, and the
    \<open>b64_*\<close> modules; the locale \<open>codec\<close> is what a caller relies on.
  \<^item> \<open>Crypto_Account\<close>: \<open>lluma-crypto/src/account.rs\<close>: canonical bytes,
    signing and verification of the seven statements, proof of work, keystore.
    \<open>Crypto_Tokens\<close>: \<open>tokens.rs\<close>.
  \<^item> \<open>Issuer_State\<close>: \<open>lluma-issuer/src/error.rs\<close>, \<open>ledger.rs\<close>,
    \<open>spent_set.rs\<close>, \<open>idem.rs\<close>. The traits \<open>CreditLedger\<close> and
    \<open>SpentSet\<close> are the locales \<open>credit_ledger\<close> and \<open>spent_set\<close>,
    interpreted on the in-memory implementations here and on the durable ones in
    \<open>Broker_Store\<close>.
  \<^item> \<open>Issuer_Service\<close>: \<open>keys.rs\<close> and \<open>service.rs\<close>; the locale
    \<open>metered_issuer\<close> states what an issue request does to balances over any
    ledger that keeps the contract, interpreted on the standalone issuer here and
    on the co-located one in \<open>Broker_System\<close>.
    \<open>Issuer_Concurrency\<close>: the issue handler as interleaved critical sections.
  \<^item> \<open>Broker_Store\<close>: \<open>store.rs\<close>, \<open>config.rs\<close>, \<open>counters.rs\<close>,
    \<open>ledger.rs\<close>, \<open>spent.rs\<close>, \<open>hosts.rs\<close>. \<open>Net_Addr\<close>: the
    part of the standard library's address parser the registry uses.
    \<open>Broker_Registry\<close>: \<open>registry.rs\<close>. \<open>Broker_Credits\<close>:
    \<open>receipts.rs\<close> and \<open>trial.rs\<close>. \<open>Broker_Snapshot\<close>:
    \<open>snapshot.rs\<close>. \<open>Broker_Tunnel\<close>: \<open>tunnel.rs\<close>, and \<open>Tunnel_Session\<close>
    the life of one connection of it, from registration to teardown.
    \<open>Broker_Service\<close>: \<open>service.rs\<close>.
  \<^item> \<open>Broker_System\<close>: \<open>main.rs\<close>, and the composition of all handlers
    as one transition system with its invariants. \<open>Broker_Types\<close>: no handler
    writes a key of another length than the Rust arrays have. \<open>Market\<close>: the
    abstract market the origin implements, and the simulation.
  \<^item> \<open>Crypto_Channel\<close>: \<open>lluma-crypto/src/e2e.rs\<close> and \<open>ohttp.rs\<close>, the
    sealed prompt, the response stream and its finality, the capsules.
    \<open>Net_Agent\<close>: \<open>lluma-net\<close>. \<open>Gateway\<close>: \<open>lluma-gateway\<close>.
    \<open>Relay\<close>: \<open>lluma-relay\<close>. \<open>Host\<close>: \<open>lluma-host\<close>.
    \<open>Issuer_Client\<close>: \<open>lluma-issuer/src/client.rs\<close>. \<open>Client\<close>:
    \<open>lluma-client/src/lib.rs\<close>.
  \<^item> \<open>Exec_Path\<close>: client, relay, gateway, broker and host composed as deployed,
    one request end to end. \<open>Wire_Codecs\<close>: the parties with the codecs of
    \<open>Core_Dto\<close> in place of their parser parameters. \<open>Origin_Routes\<close>: the routing
    tables of the issuer and of the broker's two listeners, the requests the core
    listener serves, and which of them a gateway lets through.
  \<^item> \<open>Operator_Tools\<close>: \<open>lluma-issuer/src/main.rs\<close>,
    \<open>lluma-keygen/src/main.rs\<close> and \<open>bin/lluma-bootstrap.rs\<close>.
    \<open>Runtime_Models\<close>: \<open>model.rs\<close>, \<open>hardware.rs\<close> and \<open>error.rs\<close> of
    \<open>lluma-core\<close>, \<open>lluma-registry\<close>, \<open>lluma-runtime\<close>, and the desktop's
    \<open>hardware.rs\<close>.
  \<^item> \<open>Desktop_Client\<close>: the desktop's \<open>types.rs\<close>, \<open>anchor.rs\<close>,
    \<open>settings.rs\<close>, \<open>account.rs\<close>, \<open>client.rs\<close>. \<open>Desktop_Host\<close>:
    \<open>host.rs\<close> and \<open>ollama.rs\<close>. \<open>Desktop_App\<close>: \<open>lib.rs\<close>, the commands
    over the shared state as a transition system.

  \<^bold>\<open>What is shown.\<close> For the origin: credits are conserved, redemptions stay
  within what was issued, receipts are backed by spends, the trial budget binds and
  admission takes time, in every reachable state (this theory, from the invariants
  of \<open>Broker_System\<close>); every step of it is a step of an abstract market; the
  store only ever holds keys of the declared length, so that the snapshot and the
  eviction skip nothing; an issue request charges at most once under any
  interleaving and is its sequential handler when run alone; an execution burns a
  token only when a host can serve it and always returns its slot; the durable
  ledger and spent set keep the contracts of their locales under any faults; the
  address policy equals its specification. For the path between client and host:
  the gateway forwards only what it allows, with the deployed allowlist exactly the
  client's requests and with its default one the issuer's redeem, the relay bounds each address, capsules,
  prompts and answers come back as they were sealed, every message is read at the
  other end as it was written, a silent host is dropped by its tunnel while a
  reconnected one survives the teardown of its old connection, a truncated answer is never
  taken for a whole one, and the composition answers a prompt with exactly the
  upstream's answer. For the edges: the published bootstrap is what clients accept,
  the generated keys start the services, a host that joins is admitted and
  authenticated, accounts survive restarts, the wallet loses only the token it
  offered, trust stays with the pinned key, and no model server is left behind. The
  error theorems record behaviour an operator should know: what the start refuses,
  what a failed observer leaves uncounted, and how the desktop loses a credit the
  broker only refused.

  \<^bold>\<open>State and effects.\<close> A struct is a record, an enum a datatype; machine
  integers are words of their width with the saturating or wrapping operation of
  the source. A handler is a function from the request and the state to the
  answer and the new state; errors are values of the source's error enums. The
  durable store is the contents of its eight tables, with rows stored decoded. Every storage call can
  fail: a fault plan \<open>nat \<Rightarrow> bool\<close> says which call of a transaction fails,
  and a failed transaction leaves the tables unchanged, which is redb's documented
  behaviour (a failed commit is taken as an abort). Concurrency is modelled where
  tasks share state: the critical sections of the issue handler
  (\<open>issuer_step\<close>), the tunnel's sockets, waiters and guards
  (\<open>tunnel_step\<close>), the whole origin with crashes (\<open>sys_step\<close>), and the
  desktop's commands, split where they release the lock (\<open>app_step\<close>). A disk is a
  map from names to bytes whose calls can fail, a write possibly after some bytes;
  the processes an application starts are the children of a \<open>machine\<close>. Loops that
  run for ever (heartbeats, tunnel reconnection) are functions of one turn.

  \<^bold>\<open>Parameters.\<close> Third-party code is an argument of the definitions that use it:
  BLAKE3, Ed25519, Argon2id, the AEADs, HPKE, OHTTP, the RSA blind-signature primitives,
  postcard encodings, the text syntax of JSON, base64, the URL parser, axum's
  dispatch (\<open>axum_routes\<close>), and what a peer answers over HTTP.
  What is assumed of them is named (\<open>ed_correct\<close>, \<open>aead_correct\<close>,
  \<open>rsabssa_correct\<close>, and similar) and instantiated by the \<open>demo_\<close> functions of
  the witnesses. A peer over HTTP is a function from the request and the rest of
  the world to an optional answer and the new world; a WebSocket is the list of
  messages it will deliver. Random bytes and the clock are arguments. The laws of
  the channel libraries are \<open>hpke_correct\<close> (a receiver set up for a sender opens
  what it sealed, in order), \<open>hpke_in_order\<close> (and nothing else), \<open>ohttp_correct\<close>
  and \<open>bhttp_correct\<close> (round trips); \<open>token_codec\<close>, \<open>boot_codecs_agree\<close> and
  \<open>bip39_correct\<close> are the same for the wallet, the bootstrap document and the
  recovery phrase. The services take the parsers and printers of their messages as
  parameters; \<open>Wire_Codecs\<close> puts those of \<open>Core_Dto\<close> in their place, where only
  \<open>text_correct\<close> (serde\_json reads the value it wrote), \<open>base64_correct\<close> and
  \<open>base64_ascii\<close> are left to assume. \<open>exec_transport\<close> says that the rounds of a chat reach the
  broker's handler. The relay's token amounts are exact rationals where the code
  has \<open>f64\<close>; an \<open>f32\<close> is its bit pattern. A Rust string is the list of
  its UTF-8 bytes as characters, and \<open>trim\<close> removes ASCII white space. Error
  texts are constructors where the code only shows them to the user.

  \<^bold>\<open>Bounds.\<close> The only loop that need not end is the proof-of-work search; its
  result is optional and it is shown to return exactly when a nonce exists. All
  other functions are total. \<open>issue_run\<close> with six steps is enough for every
  path of the issue handler.

  \<^bold>\<open>Not modelled.\<close> Listeners, the routers of relay, gateway and host (one or two routes
  each, built into their callers), real time (timeouts, sleeps), logging,
  file permissions, the text level of JSON and the postcard format (parameters;
  of serde's derive, what its attributes document is written out), DNS, the inside of model
  inference and hardware probes (parameters), the Tauri runtime and the web front
  end, the Windows and macOS variants of the desktop's platform functions, and the
  tests and examples of the repository.
\<close>

section \<open>A deployment to witness the properties with\<close>

definition demo_env :: process_env where
  "demo_env = \<lparr>pe_var = map_of [(''LLUMA_DB_PATH'', ''d''), (''LLUMA_ADMIN_SECRET'', ''s''),
       (''LLUMA_ISSUER_SK_DER_FILE'', ''i''), (''LLUMA_ISSUER_PK_DER_FILE'', ''p''),
       (''LLUMA_REGISTRY_SK_FILE'', ''r''), (''LLUMA_EPOCH_SALT_FILE'', ''t'')],
     pe_file = map_of [(''i'', [9]), (''p'', [7]), (''r'', replicate 32 1), (''t'', replicate 32 1)],
     pe_store_opens = True\<rparr>"

definition demo_origin :: origin where
  "demo_origin = \<lparr>or_keys = demo_keys, or_admin_secret = ''s'',
     or_broker = BrokerState_new demo_prims [7] (BrokerConfig_default\<lparr>cfg_epoch_salt := replicate 32 1\<rparr>) (replicate 32 1) ''s''\<rparr>"

lemma demo_main: "broker_main demo_prims demo_env = Inr demo_origin"
  by (simp add: broker_main_def demo_env_def demo_origin_def bind_sum_def env_def read_file_def env_or_def ok_or_def
    parse_uint_def is_decimal_def demo_keys_def BrokerConfig_default_def Let_def)


lemma reachable_step: "sys_reachable X B D s \<Longrightarrow> sys_step X B D s s' \<Longrightarrow> sys_reachable X B D s'"
  by (auto simp: sys_reachable_def intro: rtranclp.rtrancl_into_rtrancl)

lemma reachable_run:
  assumes "sys_reachable X B D s" and "i < length (sy_tasks s)"
    and "issue_run X (colocated (or_keys D) (or_admin_secret D) (sy_now s) flt) r n (sy_tasks s ! i, sy_cache s, sy_store s) = (t, c, st)"
  shows "sys_reachable X B D (s\<lparr>sy_tasks := (sy_tasks s)[i := t], sy_cache := c, sy_store := st\<rparr>)"
  using assms
proof (induction n arbitrary: s)
  case (Suc n)
  obtain t1 c1 st1 where one: "issue_task_step X (colocated (or_keys D) (or_admin_secret D) (sy_now s) flt) r (sy_tasks s ! i)
      (sy_cache s, sy_store s) = (t1, c1, st1)" by (metis prod_cases3)
  let ?s = "s\<lparr>sy_tasks := (sy_tasks s)[i := t1], sy_cache := c1, sy_store := st1\<rparr>"
  have "sys_reachable X B D ?s" using reachable_step [OF Suc.prems(1) sys_step.advance [OF Suc.prems(2) one]] .
  then show ?case using Suc.IH [of ?s] Suc.prems(2,3) one by simp
next
  case 0
  then have "s\<lparr>sy_tasks := (sy_tasks s)[i := t], sy_cache := c, sy_store := st\<rparr> = s" by (cases s) auto
  with 0 show ?case by simp
qed

lemma precheck_cong:
  fixes S :: "'v AppState" and S' :: "'w AppState"
  assumes "as_now_unix_s S = as_now_unix_s S'" and "as_keys S = as_keys S'"
  shows "issue_precheck X S body = issue_precheck X S' body"
  unfolding issue_precheck_def assms ..

definition demo_issued_store :: store where
  "demo_issued_store = empty_store\<lparr>
     LEDGER := tbl_insert (replicate 32 3) \<lparr>l_balance = 3, l_earned = 5, l_spent = 2\<rparr>
       (tbl_insert (replicate 32 3) \<lparr>l_balance = 5, l_earned = 5, l_spent = 0\<rparr> tbl_empty),
     COUNTERS := tbl_insert 1 \<lparr>c_issued = 2, c_redeemed = 0, c_trial_granted = 0\<rparr> tbl_empty\<rparr>"

definition demo_sys :: sys where
  "demo_sys = \<lparr>sy_store = demo_issued_store, sy_cache = demo_cache, sy_tasks = [Issued demo_request demo_response],
     sy_now = 1000, sy_registered = (\<lambda>_. 0), sy_granted = 5\<rparr>"

lemma demo_reachable: "sys_reachable demo_ext demo_broker_ext demo_origin demo_sys"
proof -
  let ?S = "colocated demo_keys ''s'' 1000 ok_faults"
  let ?st = "empty_store\<lparr>LEDGER := tbl_insert (replicate 32 3) \<lparr>l_balance = 5, l_earned = 5, l_spent = 0\<rparr> tbl_empty\<rparr>"
  let ?s0 = "sys_init 1000" and ?s1 = "(sys_init 1000)\<lparr>sy_store := ?st, sy_granted := 5\<rparr>"
  have o: "or_keys demo_origin = demo_keys" "or_admin_secret demo_origin = ''s''" by (simp_all add: demo_origin_def)
  have "sys_reachable demo_ext demo_broker_ext demo_origin ?s0" by (auto simp: sys_reachable_def)
  moreover have g: "admin_grant demo_ext ?S (Some ''s'') [3] empty_store = (Inr (), ?st)"
    by (simp add: admin_grant_def ct_eq_iff parse_body_def demo_ext_def)
      (simp add: colocated_def redb_grant_def mutate_clean ledger_row_def empty_store_def LedgerRow_default_def sat_add_def)
  have "sys_step demo_ext demo_broker_ext demo_origin ?s0 ?s1"
    using sys_step.grant [of demo_ext demo_origin ?s0 ok_faults "Some ''s''" "[3]" "Inr ()" ?st demo_broker_ext] g o
    by (simp add: sys_init_def granted_amount_def demo_ext_def colocated_def)
  ultimately have "sys_reachable demo_ext demo_broker_ext demo_origin ?s1" by (rule reachable_step)
  then have r2: "sys_reachable demo_ext demo_broker_ext demo_origin (?s1\<lparr>sy_tasks := [Start [1]]\<rparr>)"
    by (rule reachable_step) (use sys_step.arrive [of demo_ext demo_broker_ext demo_origin ?s1 "[1]"] in \<open>simp add: sys_init_def\<close>)
  have "as_now_unix_s ?S = as_now_unix_s (standalone demo_keys ''s'' 1000)" "as_keys ?S = as_keys (standalone demo_keys ''s'' 1000)"
    by (simp_all add: colocated_def standalone_def)
  from precheck_cong [OF this] have pre: "issue_precheck demo_ext ?S [1] = Inr demo_request" by (simp add: demo_precheck)
  have req: "issue_account demo_ext demo_request = replicate 32 3" "batch_amount demo_request = 2"
    "ib_request_id (ireq_body demo_request) = replicate 32 5" "ib_blinded_batch_hash (ireq_body demo_request) = replicate 32 8"
    "ireq_blinded demo_request = [replicate 256 8, replicate 256 8]"
    by (simp_all add: issue_account_def account_fingerprint_def batch_amount_def demo_defs)
  have debit: "redb_debit ok_faults (replicate 32 3) 2 ?st = (Inr (), ?st\<lparr>LEDGER := tbl_insert (replicate 32 3)
      \<lparr>l_balance = 3, l_earned = 5, l_spent = 2\<rparr> (LEDGER ?st)\<rparr>)"
    by (simp add: redb_debit_def mutate_clean ledger_row_def sat_add_def word_le_nat_alt)
  let ?st1 = "?st\<lparr>LEDGER := tbl_insert (replicate 32 3) \<lparr>l_balance = 3, l_earned = 5, l_spent = 2\<rparr> (LEDGER ?st)\<rparr>"
  let ?c = "[(replicate 32 3, replicate 32 5) \<mapsto> Pending (replicate 32 8)]"
  have "issue_task_step demo_ext ?S (\<lambda>_. []) (Start [1]) (idem_new, ?st) = (Holding demo_request, ?c, ?st)"
    by (simp add: pre req idem_begin_def idem_new_def)
  moreover have "issue_task_step demo_ext ?S (\<lambda>_. []) (Holding demo_request) (?c, ?st) = (Charged demo_request, ?c, ?st1)"
    by (simp add: req debit)
  moreover have "issue_task_step demo_ext ?S (\<lambda>_. []) (Charged demo_request) (?c, ?st1) = (Observed demo_request, ?c, demo_issued_store)"
    by (simp add: req bump_issued_clean counter_def empty_store_def CounterRow_default_def sat_add_def demo_issued_store_def demo_keys_def)
  moreover have "sign_batch demo_rsa (\<lambda>_. []) [9] 0 [replicate 256 8, replicate 256 8] = Inr [replicate 256 8, replicate 256 8]"
    by (simp add: token_issue_def demo_rsa_def)
  then have "issue_task_step demo_ext ?S (\<lambda>_. []) (Observed demo_request) (?c, demo_issued_store)
      = (Signed demo_request demo_response, ?c, demo_issued_store)"
    by (simp add: req demo_response_def key_id_def demo_ext_def demo_keys_def demo_prims_def)
  moreover have "issue_task_step demo_ext ?S (\<lambda>_. []) (Signed demo_request demo_response) (?c, demo_issued_store)
      = (Issued demo_request demo_response, demo_cache, demo_issued_store)"
    by (simp add: req idem_store_def demo_cache_def)
  ultimately have "issue_run demo_ext ?S (\<lambda>_. []) (Suc (Suc (Suc (Suc (Suc 0))))) (Start [1], idem_new, ?st)
      = (Issued demo_request demo_response, demo_cache, demo_issued_store)"
    by (simp only: issue_run_simps)
  then show ?thesis
    using reachable_run [OF r2, of 0 ok_faults "\<lambda>_. []" "Suc (Suc (Suc (Suc (Suc 0))))"] o by (simp add: sys_init_def demo_sys_def)
qed


section \<open>Properties of the whole system\<close>

text \<open>
  C1: credits are conserved. In every state the co-located origin can reach, through
  any requests, interleavings of the issuer's critical sections, storage faults,
  crashes and restarts, the credits on all accounts together with the token
  signatures released to clients never exceed what the operator granted plus
  what the trial budget recorded plus one credit per accepted receipt.
\<close>

theorem credits_conserved:
  assumes "broker_main P E = Inr D" and "sys_reachable X B D s"
  shows "ledger_sum (sy_store s) + released s \<le> sy_granted s + trial_sum (sy_store s) + receipt_count (sy_store s)"
proof -
  have "cfg_daily_trial_budget (bs_cfg (or_broker D)) \<noteq> - 1" using main_origin(1) [OF assms(1)] by simp
  from reachable_supply [OF assms(2) this] have "supply_inv s" "tasks_inv s" by simp_all
  then show ?thesis using released_le [of s] by (simp add: supply_inv_def)
qed

theorem credits_conserved_witness:
  "released demo_sys = 2 \<and> ledger_sum (sy_store demo_sys) + released demo_sys
     \<le> sy_granted demo_sys + trial_sum (sy_store demo_sys) + receipt_count (sy_store demo_sys)"
proof -
  have "released demo_sys = 2" by (simp add: released_def demo_sys_def demo_response_def)
  then show ?thesis using credits_conserved [OF demo_main demo_reachable] by blast
qed

text \<open>
  C2: no token economy without issuance. In every reachable state each epoch's
  redeemed counter is at most its issued counter; it counts exactly the distinct
  tokens sent to a host in that epoch (until the counter saturates at the largest
  u64), so these are at most the batches the issuer debited and reported for that
  epoch, and none for any other epoch.
\<close>

theorem redemptions_bounded:
  assumes "sys_reachable X B D s"
  shows "c_redeemed (counter (sy_store s) e) \<le> c_issued (counter (sy_store s) e)
    \<and> unat (c_redeemed (counter (sy_store s) e)) = min (2 ^ 64 - 1) (card (served (sy_store s) e))
    \<and> min (2 ^ 64 - 1) (card (served (sy_store s) e))
        \<le> (if e = ek_epoch (or_keys D) then total counted_for (sy_tasks s) else 0)"
proof -
  have ok: "counters_ok (sy_store s) (if e = ek_epoch (or_keys D) then total counted_for (sy_tasks s) else 0) e"
    using reachable_tokens [OF assms] by (simp add: counters_inv_def)
  then have "unat (c_redeemed (counter (sy_store s) e)) \<le> unat (c_issued (counter (sy_store s) e))"
    by (simp add: counters_ok_def word_le_nat_alt)
  with ok show ?thesis unfolding counters_ok_def by linarith
qed

theorem redemptions_bounded_witness:
  "c_issued (counter (sy_store demo_sys) 1) = 2
   \<and> c_redeemed (counter (sy_store demo_sys) 1) \<le> c_issued (counter (sy_store demo_sys) 1)"
proof -
  have "c_issued (counter (sy_store demo_sys) 1) = 2" by (simp add: demo_sys_def demo_issued_store_def counter_def)
  then show ?thesis using redemptions_bounded [OF demo_reachable, of 1] by blast
qed

text \<open>
  C3: every credited receipt stands for a spent token bound to that host. In every
  reachable state a recorded receipt's spend is in the spent set and bound to the
  very host the receipt credits, so there are never more receipts than tokens
  sent to hosts.
\<close>

theorem receipts_are_backed:
  assumes "sys_reachable X B D s"
  shows "(\<forall>i row. tbl_get (RECEIPTS (sy_store s)) i = Some row \<longrightarrow>
      tbl_get (SPEND_HOST (sy_store s)) i = Some (r_host_account row) \<and> tbl_get (SPENT (sy_store s)) i \<noteq> None)
    \<and> receipt_count (sy_store s) \<le> card (\<Union>e. served (sy_store s) e)"
proof -
  note bound = reachable_tokens [OF assms, THEN conjunct1, unfolded spends_bound_def]
  have "tbl_keys (RECEIPTS (sy_store s)) \<subseteq> (\<Union>e. served (sy_store s) e)"
    using bound by (fastforce simp: in_tbl_keys served_def)
  moreover have "finite (\<Union>e. served (sy_store s) e)"
    by (rule finite_subset [of _ "tbl_keys (SPENT (sy_store s))"]) (auto simp: served_def in_tbl_keys)
  ultimately have "receipt_count (sy_store s) \<le> card (\<Union>e. served (sy_store s) e)"
    unfolding receipt_count_def by (intro card_mono)
  with bound show ?thesis by blast
qed

theorem receipts_are_backed_witness:
  "receipt_count (sy_store demo_sys) \<le> card (\<Union>e. served (sy_store demo_sys) e)"
  using receipts_are_backed [OF demo_reachable] by blast

text \<open>
  C4: the origin implements the market. Under the abstraction \<open>market_of\<close> every
  step of the co-located origin, through any request, fault, interleaving or
  crash, is one step of the abstract market (credits buy tokens, a token is spent
  once and with one host, a served token pays that host at most one credit once,
  a key takes its trial once), and every reachable state is a reachable market. So
  paid tokens were served, served tokens are spent, and the balances of any
  accounts together with the credits turned into tokens have a source.
\<close>

theorem origin_refines_market:
  assumes "sys_reachable X B D s"
  shows "(origin_market B D)\<^sup>*\<^sup>* market_empty (market_of s)
    \<and> (\<forall>s'. sys_step X B D s s' \<longrightarrow> origin_market B D (market_of s) (market_of s'))
    \<and> market_ok (unat (cfg_trial_grant (bs_cfg (or_broker D)))) (market_of s)"
  using reachable_market [OF assms] market_reachable_ok sys_step_market by blast

theorem origin_refines_market_witness:
  "mk_bought (market_of demo_sys) = 2 \<and> (origin_market demo_broker_ext demo_origin)\<^sup>*\<^sup>* market_empty (market_of demo_sys)"
proof -
  have "mk_bought (market_of demo_sys) = 2"
    by (simp add: market_of_def demo_sys_def total_def amount_of_def demo_request_def batch_amount_def)
  then show ?thesis using origin_refines_market [OF demo_reachable] by blast
qed

text \<open>
  C16: the trial budget binds. In every reachable state of a started origin, the
  budget recorded for a day is exactly twenty credits per account that took its
  trial that day, no account took two, and no day has more than five hundred
  such accounts.
\<close>

theorem trial_budget_binds:
  assumes "broker_main P E = Inr D" and "sys_reachable X B D s"
  shows "unat (spent_today (sy_store s) d) = 20 * card (trial_accounts (sy_store s) d)
    \<and> card (trial_accounts (sy_store s) d) \<le> 500"
proof -
  note cfg = main_origin [OF assms(1)]
  have "cfg_daily_trial_budget (bs_cfg (or_broker D)) \<noteq> - 1" using cfg(1) by simp
  from reachable_supply [OF assms(2) this]
  have "spent_today (sy_store s) d \<le> 10000" "unat (spent_today (sy_store s) d) = 20 * card (trial_accounts (sy_store s) d)"
    by (simp_all add: trial_inv_def cfg(1,2))
  then show ?thesis by (simp add: word_le_nat_alt)
qed

theorem trial_budget_binds_witness:
  "unat (spent_today (sy_store demo_sys) 0) = 20 * card (trial_accounts (sy_store demo_sys) 0)
   \<and> card (trial_accounts (sy_store demo_sys) 0) \<le> 500"
  by (rule trial_budget_binds [OF demo_main demo_reachable])


definition demo_register :: HostRegisterRequest where
  "demo_register = \<lparr>hrr_body = \<lparr>hr_version = 1, hr_host_account = replicate 32 4, hr_hpke_pk = [1],
       hr_ingress_addr = ''http://h'', hr_models = [''m'']\<rparr>,
     hrr_sig = demo_sig (replicate 32 4) (HOST_REGISTER_DOMAIN @ replicate 32 4 @ [1]), hrr_pow_nonce = replicate 8 0\<rparr>"

definition demo_easy_ext :: broker_ext where
  "demo_easy_ext = demo_broker_ext\<lparr>bx_prims := demo_prims\<lparr>blake3 := (\<lambda>_. replicate 32 0)\<rparr>,
     bx_parse_register := (\<lambda>b. if b = [4] then Some demo_register else None)\<rparr>"

lemma parse_ip_h: "parse_ip ''h'' = None"
proof -
  have n: "read_number radix m z b ''h'' = None" if "radix \<le> 16" for radix m z b
    using that by (simp add: read_number_def digit_val_def)
  have v4: "read_ipv4_addr ''h'' = None"
    using read_octets.simps(2) [of 0 3 "''h''"] by (simp add: read_ipv4_addr_def read_separator_def n)
  then have "read_groups 0 8 ''h'' = ([], False, ''h'')"
    using read_groups.simps(2) [of 0 7 "''h''"] by (simp add: read_separator_def n)
  with v4 show ?thesis by (simp add: parse_ip_def read_ipv6_addr_def read_given_char_def)
qed
lemma demo_registered:
  "host_register demo_easy_ext (or_broker demo_origin) ok_faults 100 [4] empty_store
     = (OkCode ''registered'', empty_store\<lparr>HOSTS := tbl_insert (replicate 32 4) demo_host tbl_empty\<rparr>)"
proof -
  let ?P = "demo_prims\<lparr>blake3 := (\<lambda>_. replicate 32 0)\<rparr>" and ?cfg = "bs_cfg (or_broker demo_origin)"
  have "is_ok (HostRegisterRequest_validate demo_register)" "length (hrr_pow_nonce demo_register) = 8"
    by (simp_all add: HostRegisterRequest_validate_def demo_register_def demo_sig_def)
  moreover have "is_ok (host_register_verify ?P (hr_host_account (hrr_body demo_register)) (hrr_body demo_register) (hrr_sig demo_register))"
    by (simp add: host_register_verify_def verify_msg_def verifying_key_def host_register_canonical_def with_domain_def
      demo_prims_def demo_register_def demo_sig_def)
  moreover have "20 \<le> leading_zero_bits (replicate 32 0)" by (simp add: numeral_eq_Suc)
  then have "host_pow_ok ?P ?cfg (hr_host_account (hrr_body demo_register)) (hrr_pow_nonce demo_register)"
    by (simp add: host_pow_ok_def pow_verify_def demo_origin_def BrokerState_new_def BrokerConfig_default_def)
  moreover have "ingress_addr_ok (bx_url demo_easy_ext) (hr_ingress_addr (hrr_body demo_register)) (cfg_allow_loopback_ingress ?cfg)"
    by (simp add: ingress_addr_ok_def demo_easy_ext_def demo_broker_ext_def demo_register_def trim_start_matches_def
      trim_end_matches_def parse_ip_h)
  moreover have "with_write ok_faults (register_txn (hrr_body demo_register) 100) empty_store
      = (Inr Registered, empty_store\<lparr>HOSTS := tbl_insert (replicate 32 4) demo_host tbl_empty\<rparr>)"
    by (simp add: with_write_def register_txn_def txn_defs ok_faults_def empty_store_def demo_register_def demo_host_def)
  ultimately have "register ?P (bx_url demo_easy_ext) ok_faults demo_register ?cfg 100 empty_store
      = (Inr Registered, empty_store\<lparr>HOSTS := tbl_insert (replicate 32 4) demo_host tbl_empty\<rparr>)"
    by (simp add: register_def Let_def)
  then show ?thesis by (simp add: host_register_def demo_easy_ext_def)
qed

lemma demo_host_reachable:
  "sys_reachable demo_ext demo_easy_ext demo_origin ((sys_init 100)\<lparr>sy_store := empty_store\<lparr>HOSTS := tbl_insert (replicate 32 4) demo_host tbl_empty\<rparr>,
     sy_registered := (\<lambda>_. 0)(replicate 32 4 := 100)\<rparr>)"
proof -
  have "bx_parse_register demo_easy_ext [4] = Some demo_register" by (simp add: demo_easy_ext_def)
  from sys_step.register [OF this, of demo_origin ok_faults "sys_init 100"] demo_registered
  have "sys_step demo_ext demo_easy_ext demo_origin (sys_init 100) ((sys_init 100)\<lparr>sy_store := empty_store\<lparr>HOSTS := tbl_insert (replicate 32 4) demo_host tbl_empty\<rparr>,
     sy_registered := (\<lambda>_. 0)(replicate 32 4 := 100)\<rparr>)"
    by (simp add: sys_init_def demo_register_def)
  then show ?thesis by (rule reachable_step [rotated]) (auto simp: sys_reachable_def)
qed


text \<open>
  C18: the store keeps its types. The tables are keyed by byte strings of any
  length, and the snapshot and the eviction silently skip a host whose key is not
  32 bytes long. In every reachable state all keys, hosts bound to spends and
  hosts of receipts are 32 bytes long; therefore a snapshot lists every active
  host, and after an eviction no host silent for three intervals is active.
\<close>

theorem store_stays_typed:
  assumes "arrays_fixed X B" and "sys_reachable X B D s"
  shows "store_typed (sy_store s)
    \<and> (\<forall>flt header body. build flt header (sy_store s) = Inr body \<longrightarrow>
         sb_hosts body = map (\<lambda>(k, row). host_entry k row)
           (filter (\<lambda>(k, row). h_status row = HOST_ACTIVE) (tbl_iter (HOSTS (sy_store s)))))
    \<and> (\<forall>flt now cfg n st' k row. evict_stale flt now cfg (sy_store s) = (Inr n, st') \<longrightarrow> tbl_get (HOSTS st') k = Some row \<longrightarrow>
         sat_mul (cfg_heartbeat_interval_s cfg) 3 < sat_sub now (h_last_hb row) \<longrightarrow> h_status row \<noteq> HOST_ACTIVE)"
proof (intro conjI allI impI)
  show typed: "store_typed (sy_store s)" by (rule reachable_typed [OF assms])
  show "sb_hosts body = map (\<lambda>(k, row). host_entry k row)
      (filter (\<lambda>(k, row). h_status row = HOST_ACTIVE) (tbl_iter (HOSTS (sy_store s))))"
    if "build flt header (sy_store s) = Inr body" for flt header body
    by (rule build_cases [of flt header "sy_store s"]) (use that typed_entries [OF typed] in auto)
  show "h_status row \<noteq> HOST_ACTIVE"
    if "evict_stale flt now cfg (sy_store s) = (Inr n, st')" "tbl_get (HOSTS st') k = Some row"
      "sat_mul (cfg_heartbeat_interval_s cfg) 3 < sat_sub now (h_last_hb row)" for flt now cfg n st' k row
    by (rule typed_evicts [OF typed that])
qed

lemma demo_arrays: "arrays_fixed demo_ext demo_easy_ext"
  by (simp add: arrays_fixed_def demo_ext_def demo_easy_ext_def demo_broker_ext_def demo_prims_def id32_def demo_exec_def
    demo_register_def demo_receipt_def min_def)

theorem store_stays_typed_witness:
  "store_typed (empty_store\<lparr>HOSTS := tbl_insert (replicate 32 4) demo_host tbl_empty\<rparr>)"
  using store_stays_typed [OF demo_arrays demo_host_reachable] by (simp add: sys_init_def)



lemma bind_sum_Inr: "bind_sum r f = Inr b \<longleftrightarrow> (\<exists>a. r = Inr a \<and> f a = Inr b)"
  by (cases r) (simp_all add: bind_sum_def)

text \<open>
  C36: start-up is fail-closed on key material. The origin starts only with a
  32-byte registry key, a 32-byte epoch salt that is not all zero unless the
  development override is set, an epoch and a difficulty that parse within their
  widths, and never with loopback ingress allowed; issuer and broker then share
  the key, the epoch and the admin secret.
\<close>

theorem main_fails_closed:
  assumes "broker_main P E = Inr D"
  shows "length (bs_registry_sk (or_broker D)) = 32 \<and> length (cfg_epoch_salt (bs_cfg (or_broker D))) = 32
    \<and> (cfg_epoch_salt (bs_cfg (or_broker D)) = replicate 32 0 \<longrightarrow> pe_var E ''LLUMA_ALLOW_ZERO_SALT'' = Some ''1'')
    \<and> \<not> cfg_allow_loopback_ingress (bs_cfg (or_broker D))
    \<and> bs_key_id (or_broker D) = key_id P (or_keys D)
    \<and> ek_epoch (or_keys D) = cfg_epoch (bs_cfg (or_broker D)) \<and> bs_admin_secret (or_broker D) = or_admin_secret D"
proof -
  obtain salt rsk ispk where "length salt = 32" "length rsk = 32" "bs_registry_sk (or_broker D) = rsk"
    "cfg_epoch_salt (bs_cfg (or_broker D)) = salt" "ek_public (or_keys D) = ispk" "bs_key_id (or_broker D) = blake3 P ispk"
    and zero: "salt = replicate 32 0 \<Longrightarrow> env_or E ''LLUMA_ALLOW_ZERO_SALT'' ''0'' = ''1''"
    using assms by (auto simp: broker_main_def bind_sum_Inr Let_def BrokerState_new_def split: if_splits)
  moreover have "env_or E ''LLUMA_ALLOW_ZERO_SALT'' ''0'' = ''1'' \<Longrightarrow> pe_var E ''LLUMA_ALLOW_ZERO_SALT'' = Some ''1''"
    by (simp add: env_or_def split: option.splits)
  ultimately show ?thesis using main_origin [OF assms] by (simp add: key_id_def)
qed

theorem main_fails_closed_witness:
  "length (bs_registry_sk (or_broker demo_origin)) = 32 \<and> bs_key_id (or_broker demo_origin) = key_id demo_prims (or_keys demo_origin)"
  using main_fails_closed [OF demo_main] by blast

end
